(* ===== verification/Prelude.thy ===== *)
theory Prelude
  imports Main "HOL-Library.Word"
begin

text \<open>
  Shared vocabulary of the development: the machine types of the Rust sources, the
  \<open>Result\<close> type with its early return, and the list, option and map facts that
  several components use.

  \<^item> \<open>u8\<close>, \<open>u64\<close>, \<open>usize\<close> are words; \<open>usize\<close> is 64 bits wide, the
    width of the targets the crates are built for.
  \<^item> \<open>bytes\<close> stands for \<open>bytes::Bytes\<close>, \<open>Vec<u8>\<close> and \<open>&[u8]\<close>, which the
    sources convert into each other freely.
  \<^item> a Rust \<open>Result<T, E>\<close> is \<open>'e + 'a\<close> with \<open>Inl\<close> for \<open>Err\<close>; the operator
    \<open>?\<close> is \<open>try_bind\<close>.
\<close>

section \<open>Machine types\<close>

type_synonym u8 = "8 word"
type_synonym u16 = "16 word"
type_synonym u64 = "64 word"
type_synonym usize = "64 word"
type_synonym bytes = "u8 list"

section \<open>Collections of rewrite rules\<close>

named_theorems codec_simps \<open>equations that evaluate encoders and decoders\<close>
named_theorems step_simps \<open>unfoldings of the operations of stateful components\<close>

section \<open>Results and early return\<close>

text \<open>The operator \<open>?\<close>: an error leaves the function at once, a value goes on.\<close>

fun try_bind :: "'e + 'a \<Rightarrow> ('a \<Rightarrow> 'e + 'b) \<Rightarrow> 'e + 'b" where
  "try_bind (Inl e) f = Inl e"
| "try_bind (Inr a) f = f a"

text \<open>\<open>Option::ok_or\<close>.\<close>

fun ok_or :: "'a option \<Rightarrow> 'e \<Rightarrow> 'e + 'a" where
  "ok_or None e = Inl e"
| "ok_or (Some a) e = Inr a"

text \<open>\<open>Result::map_err\<close>.\<close>

fun map_err :: "('e \<Rightarrow> 'f) \<Rightarrow> 'e + 'a \<Rightarrow> 'f + 'a" where
  "map_err f (Inl e) = Inl (f e)"
| "map_err f (Inr a) = Inr a"

text \<open>A loop over a list whose body uses \<open>?\<close>: stops at the first error.\<close>

fun try_map :: "('a \<Rightarrow> 'e + 'b) \<Rightarrow> 'a list \<Rightarrow> 'e + 'b list" where
  "try_map f [] = Inr []"
| "try_map f (x # xs) = try_bind (f x) (\<lambda>y. try_bind (try_map f xs) (\<lambda>ys. Inr (y # ys)))"

fun is_ok :: "'e + 'a \<Rightarrow> bool" where
  "is_ok (Inl e) = False"
| "is_ok (Inr a) = True"

lemma try_bind_Inr_iff:
  "try_bind r f = Inr b \<longleftrightarrow> (\<exists>a. r = Inr a \<and> f a = Inr b)"
  by (cases r) auto

lemma try_bind_Inl_iff:
  "try_bind r f = Inl e \<longleftrightarrow> r = Inl e \<or> (\<exists>a. r = Inr a \<and> f a = Inl e)"
  by (cases r) auto

lemma try_bind_Inr [simp]: "try_bind r Inr = r" "try_bind r (\<lambda>x. Inr x) = r"
  by (cases r; simp)+

lemma try_bind_assoc: "try_bind (try_bind r f) g = try_bind r (\<lambda>x. try_bind (f x) g)"
  by (cases r) auto

lemma ok_or_Inr_iff [simp]: "ok_or x e = Inr a \<longleftrightarrow> x = Some a"
  by (cases x) auto

lemma ok_or_Inl_iff [simp]: "ok_or x e = Inl e' \<longleftrightarrow> x = None \<and> e = e'"
  by (cases x) auto

lemma try_map_map_Inr [simp]:
  "(\<And>x. x \<in> set xs \<Longrightarrow> f (g x) = Inr x) \<Longrightarrow> try_map f (map g xs) = Inr xs"
  by (induction xs) auto

lemma try_map_length: "try_map f xs = Inr ys \<Longrightarrow> length ys = length xs"
  by (induction xs arbitrary: ys) (auto simp: try_bind_Inr_iff)

lemma try_map_Inr_nth:
  "try_map f xs = Inr ys \<Longrightarrow> i < length xs \<Longrightarrow> f (xs ! i) = Inr (ys ! i)"
proof (induction xs arbitrary: ys i)
  case (Cons x xs)
  then show ?case by (cases i) (auto simp: try_bind_Inr_iff)
qed simp

lemma try_map_append:
  "try_map f (xs @ ys) =
     try_bind (try_map f xs) (\<lambda>as. try_bind (try_map f ys) (\<lambda>bs. Inr (as @ bs)))"
proof (induction xs)
  case Nil
  show ?case by (cases "try_map f ys") auto
next
  case (Cons x xs)
  show ?case
    by (cases "f x"; cases "try_map f xs"; cases "try_map f ys") (auto simp: Cons.IH)
qed

section \<open>Lists\<close>

lemma takeWhile_dropWhile_sep:
  assumes "x \<notin> set xs"
  shows "takeWhile (\<lambda>c. c \<noteq> x) (xs @ x # ys) = xs"
    and "dropWhile (\<lambda>c. c \<noteq> x) (xs @ x # ys) = x # ys"
  using assms by (induction xs) auto

lemma takeWhile_all_append:
  assumes "\<forall>c\<in>set xs. P c" and "ys = [] \<or> \<not> P (hd ys)"
  shows "takeWhile P (xs @ ys) = xs" and "dropWhile P (xs @ ys) = ys"
  using assms by (induction xs) (cases ys; auto)+

section \<open>Runs\<close>

text \<open>
  An interface for components whose invariant is graded by a counter of handed out ids: a
  step raises the grade by at most one, as long as the grade is below a bound. A run of
  steps then keeps the invariant at some grade within its length.
\<close>

locale graded_invariant =
  fixes step :: "'op \<Rightarrow> 's \<Rightarrow> 's" and inv :: "nat \<Rightarrow> 's \<Rightarrow> bool" and bound :: nat
  assumes step_inv: "inv k s \<Longrightarrow> k < bound \<Longrightarrow> \<exists>l\<le>Suc k. inv l (step op s)"
begin

lemma run_inv:
  "inv k s \<Longrightarrow> k + length ops \<le> bound \<Longrightarrow> \<exists>l\<le>k + length ops. inv l (fold step ops s)"
proof (induction ops arbitrary: k s)
  case (Cons op ops)
  then have "k < bound" by simp
  with step_inv [OF Cons.prems(1)] obtain l where l: "l \<le> Suc k" "inv l (step op s)" by blast
  with Cons.prems(2) have "l + length ops \<le> bound" by simp
  with Cons.IH [OF l(2)] obtain m where "m \<le> l + length ops" "inv m (fold step ops (step op s))" by blast
  with l(1) show ?case by (intro exI [of _ m]) simp
qed auto

end

end
