(* ===== verification/Rust_Std.thy ===== *)
theory Rust_Std
  imports Prelude
begin

text \<open>
  What the sources use of the Rust language and its standard library: \<open>String\<close> as a
  list of Unicode scalar values, its UTF-8 bytes (\<open>as_bytes\<close>, \<open>from_utf8\<close>),
  printing and parsing of unsigned integers (\<open>to_string\<close>, \<open>parse\<close>), the case
  conversions and \<open>split\<close>. The UTF-8 functions are inverse to each other on exactly
  the well-formed strings and byte sequences, and the integer functions round-trip
  within the type's bound.
\<close>

section \<open>Strings\<close>

text \<open>
  A Rust \<open>char\<close> is a Unicode scalar value: a code point that is not a surrogate. A
  \<open>String\<close> is the list its \<open>chars()\<close> yields.
\<close>

type_synonym uchar = nat
type_synonym ustr = "uchar list"

definition scalar :: "uchar \<Rightarrow> bool" where
  "scalar c \<longleftrightarrow> c < 0xD800 \<or> 0xE000 \<le> c \<and> c < 0x110000"

definition wf_str :: "ustr \<Rightarrow> bool" where
  "wf_str s \<longleftrightarrow> list_all scalar s"

text \<open>String literals of the sources; all of them are ASCII.\<close>

definition str :: "string \<Rightarrow> ustr" where
  "str s = map of_char s"

definition ascii :: "ustr \<Rightarrow> bool" where
  "ascii s \<longleftrightarrow> list_all (\<lambda>c. c < 0x80) s"

lemma wf_str_simps [simp]:
  "wf_str []"
  "wf_str (c # s) \<longleftrightarrow> scalar c \<and> wf_str s"
  "wf_str (s @ t) \<longleftrightarrow> wf_str s \<and> wf_str t"
  by (auto simp: wf_str_def)

lemma ascii_simps [simp]:
  "ascii []"
  "ascii (c # s) \<longleftrightarrow> c < 0x80 \<and> ascii s"
  "ascii (s @ t) \<longleftrightarrow> ascii s \<and> ascii t"
  by (auto simp: ascii_def)

lemma ascii_wf_str: "ascii s \<Longrightarrow> wf_str s"
  by (auto simp: ascii_def wf_str_def scalar_def list_all_iff)

lemma str_simps [simp, codec_simps]:
  "str [] = []"
  "str (c # cs) = of_char c # str cs"
  by (simp_all add: str_def)

section \<open>UTF-8\<close>

text \<open>\<open>char::encode_utf8\<close>, byte values as numbers.\<close>

definition utf8_char :: "uchar \<Rightarrow> nat list" where
  "utf8_char c =
     (if c < 0x80 then [c]
      else if c < 0x800 then [0xC0 + c div 0x40, 0x80 + c mod 0x40]
      else if c < 0x10000 then
        [0xE0 + c div 0x1000, 0x80 + c div 0x40 mod 0x40, 0x80 + c mod 0x40]
      else
        [0xF0 + c div 0x40000, 0x80 + c div 0x1000 mod 0x40,
         0x80 + c div 0x40 mod 0x40, 0x80 + c mod 0x40])"

text \<open>\<open>str::as_bytes\<close>.\<close>

definition as_bytes :: "ustr \<Rightarrow> bytes" where
  "as_bytes s = concat (map (\<lambda>c. map word_of_nat (utf8_char c)) s)"

definition cont :: "nat \<Rightarrow> bool" where
  "cont b \<longleftrightarrow> 0x80 \<le> b \<and> b < 0xC0"

text \<open>
  One step of \<open>str::from_utf8\<close>: the first character and the rest. Overlong forms,
  surrogates, values above \<open>0x10FFFF\<close> and truncated sequences are refused.
\<close>

fun utf8_step :: "nat list \<Rightarrow> (uchar \<times> nat list) option" where
  "utf8_step [] = None"
| "utf8_step (b # bs) =
     (if b < 0x80 then Some (b, bs)
      else if b < 0xC2 then None
      else if b < 0xE0 then
        (case bs of
           b1 # r \<Rightarrow> if cont b1 then Some ((b - 0xC0) * 0x40 + (b1 - 0x80), r) else None
         | _ \<Rightarrow> None)
      else if b < 0xF0 then
        (case bs of
           b1 # b2 # r \<Rightarrow>
             if cont b1 \<and> cont b2 \<and> (b = 0xE0 \<longrightarrow> 0xA0 \<le> b1) \<and> (b = 0xED \<longrightarrow> b1 < 0xA0)
             then Some ((b - 0xE0) * 0x1000 + (b1 - 0x80) * 0x40 + (b2 - 0x80), r)
             else None
         | _ \<Rightarrow> None)
      else if b < 0xF5 then
        (case bs of
           b1 # b2 # b3 # r \<Rightarrow>
             if cont b1 \<and> cont b2 \<and> cont b3 \<and> (b = 0xF0 \<longrightarrow> 0x90 \<le> b1) \<and> (b = 0xF4 \<longrightarrow> b1 < 0x90)
             then Some ((b - 0xF0) * 0x40000 + (b1 - 0x80) * 0x1000
                          + (b2 - 0x80) * 0x40 + (b3 - 0x80), r)
             else None
         | _ \<Rightarrow> None)
      else None)"

lemma utf8_step_shorter: "utf8_step bs = Some (c, r) \<Longrightarrow> length r < length bs"
  by (cases bs) (auto split: if_splits list.splits)

function utf8_decode :: "nat list \<Rightarrow> ustr option" where
  "utf8_decode bs =
     (if bs = [] then Some []
      else case utf8_step bs of
        None \<Rightarrow> None
      | Some (c, r) \<Rightarrow> map_option (Cons c) (utf8_decode r))"
  by pat_completeness auto
termination
  by (relation "measure length") (auto dest: utf8_step_shorter)

declare utf8_decode.simps [simp del]
declare utf8_step.simps [simp del]

text \<open>\<open>String::from_utf8\<close> and \<open>str::from_utf8\<close>; the error value is not inspected.\<close>

definition from_utf8 :: "bytes \<Rightarrow> ustr option" where
  "from_utf8 bs = utf8_decode (map unat bs)"

text \<open>Splitting a code point into the six-bit groups of its encoding.\<close>

lemma sextets3: "(c::nat) div 0x1000 * 0x1000 + c div 0x40 mod 0x40 * 0x40 + c mod 0x40 = c"
proof -
  have "c div 0x1000 = c div 0x40 div 0x40" by (simp add: div_mult2_eq [symmetric])
  then show ?thesis
    using div_mult_mod_eq [of c "0x40"] div_mult_mod_eq [of "c div 0x40" "0x40"] by linarith
qed

lemma sextets4:
  "(c::nat) div 0x40000 * 0x40000 + c div 0x1000 mod 0x40 * 0x1000
     + c div 0x40 mod 0x40 * 0x40 + c mod 0x40 = c"
proof -
  have "c div 0x40000 = c div 0x1000 div 0x40" by (simp add: div_mult2_eq [symmetric])
  then show ?thesis
    using div_mult_mod_eq [of "c div 0x1000" "0x40"] sextets3 [of c] by linarith
qed

lemma sextets3_unique:
  assumes "c = x * 0x1000 + y * 0x40 + z" and "y < 0x40" and "z < 0x40"
  shows "c div 0x1000 = (x::nat)" and "c div 0x40 mod 0x40 = y" and "c mod 0x40 = z"
proof -
  define k where "k = y + 0x40 * x"
  have c: "c = z + 0x40 * k" using assms(1) by (simp add: k_def)
  then have m: "c mod 0x40 = z" and "c div 0x40 = k"
    using assms(3) by simp_all
  then have d: "c div 0x40 = y + 0x40 * x" by (simp only: k_def)
  have "c div 0x1000 = c div 0x40 div 0x40" by (simp add: div_mult2_eq [symmetric])
  then show "c div 0x1000 = x" and "c div 0x40 mod 0x40 = y" and "c mod 0x40 = z"
    using d m assms(2) by simp_all
qed

lemma sextets4_unique:
  assumes "c = w * 0x40000 + x * 0x1000 + y * 0x40 + z" and "x < 0x40" and "y < 0x40" and "z < 0x40"
  shows "c div 0x40000 = (w::nat)" and "c div 0x1000 mod 0x40 = x"
    and "c div 0x40 mod 0x40 = y" and "c mod 0x40 = z"
proof -
  have c: "c = (x + 0x40 * w) * 0x1000 + y * 0x40 + z" using assms(1) by simp
  note s = sextets3_unique [OF c assms(3,4)]
  have "c div 0x40000 = c div 0x1000 div 0x40" by (simp add: div_mult2_eq [symmetric])
  then show "c div 0x40000 = w" and "c div 0x1000 mod 0x40 = x"
      and "c div 0x40 mod 0x40 = y" and "c mod 0x40 = z"
    using s assms(2) by simp_all
qed

lemma scalar_range3:
  assumes "c = x * 0x1000 + y * 0x40 + z" and "y < 0x40" and "z < (0x40::nat)"
  shows "0x800 \<le> c \<and> c < 0x10000 \<and> (c < 0xD800 \<or> 0xE000 \<le> c) \<longleftrightarrow>
    x < 0x10 \<and> (x = 0 \<longrightarrow> 0x20 \<le> y) \<and> (x = 0xD \<longrightarrow> y < 0x20)"
proof -
  consider "x < 0xD" | "x = 0xD" | "0xE \<le> x" by linarith
  then show ?thesis using assms by cases (intro iffI conjI impI; linarith)+
qed

lemma scalar_range4:
  assumes "c = w * 0x40000 + x * 0x1000 + y * 0x40 + z" and "x < 0x40" and "y < 0x40" and "z < (0x40::nat)"
  shows "0x10000 \<le> c \<and> c < 0x110000 \<longleftrightarrow>
    w < 5 \<and> (w = 0 \<longrightarrow> 0x10 \<le> x) \<and> (w = 4 \<longrightarrow> x < 0x10)"
  using assms by (intro iffI conjI impI) linarith+

text \<open>A character's bytes are read back, whatever follows them.\<close>

lemma utf8_step_char:
  assumes "scalar c"
  shows "utf8_step (utf8_char c @ bs) = Some (c, bs)"
proof -
  consider "c < 0x80" | "0x80 \<le> c \<and> c < 0x800" | "0x800 \<le> c \<and> c < 0x10000"
    | "0x10000 \<le> c" by linarith
  then show ?thesis
  proof cases
    case 3
    with assms have "c div 0x1000 < 0x10 \<and> (c div 0x1000 = 0 \<longrightarrow> 0x20 \<le> c div 0x40 mod 0x40)
        \<and> (c div 0x1000 = 0xD \<longrightarrow> c div 0x40 mod 0x40 < 0x20)"
      by (subst scalar_range3 [symmetric, OF sextets3 [symmetric]]) (auto simp: scalar_def)
    with 3 show ?thesis
      by (auto simp: utf8_char_def utf8_step.simps cont_def sextets3)
  next
    case 4
    with assms have "c div 0x40000 < 5 \<and> (c div 0x40000 = 0 \<longrightarrow> 0x10 \<le> c div 0x1000 mod 0x40)
        \<and> (c div 0x40000 = 4 \<longrightarrow> c div 0x1000 mod 0x40 < 0x10)"
      by (subst scalar_range4 [symmetric, OF sextets4 [symmetric]]) (auto simp: scalar_def)
    with 4 show ?thesis
      by (auto simp: utf8_char_def utf8_step.simps cont_def sextets4)
  qed (auto simp: utf8_char_def utf8_step.simps cont_def)
qed

text \<open>
  Conversely, a step reads exactly the encoding of a scalar value; the three- and
  four-byte forms first.
\<close>

lemma utf8_char_three:
  assumes "x < 0x10" and "y < 0x40" and "z < 0x40" and "x = 0 \<longrightarrow> 0x20 \<le> y" and "x = 0xD \<longrightarrow> y < 0x20"
    and c: "c = x * 0x1000 + y * 0x40 + z"
  shows "scalar c \<and> utf8_char c = [0xE0 + x, 0x80 + y, 0x80 + z]"
proof -
  have "0x800 \<le> c \<and> c < 0x10000 \<and> (c < 0xD800 \<or> 0xE000 \<le> c)"
    using scalar_range3 [OF c assms(2,3)] assms(1,4,5) by simp
  then show ?thesis
    using sextets3_unique [OF c assms(2,3)] by (simp add: utf8_char_def scalar_def)
qed

lemma utf8_char_four:
  assumes "w < 5" and "x < 0x40" and "y < 0x40" and "z < 0x40"
    and "w = 0 \<longrightarrow> 0x10 \<le> x" and "w = 4 \<longrightarrow> x < 0x10"
    and c: "c = w * 0x40000 + x * 0x1000 + y * 0x40 + z"
  shows "scalar c \<and> utf8_char c = [0xF0 + w, 0x80 + x, 0x80 + y, 0x80 + z]"
proof -
  have "0x10000 \<le> c \<and> c < 0x110000"
    using scalar_range4 [OF c assms(2,3,4)] assms(1,5,6) by simp
  then show ?thesis
    using sextets4_unique [OF c assms(2,3,4)] by (simp add: utf8_char_def scalar_def)
qed

lemma cont_offset: "cont b \<Longrightarrow> b - 0x80 < 0x40 \<and> 0x80 + (b - 0x80) = b"
  by (auto simp: cont_def)

lemma utf8_step_inverse:
  assumes "utf8_step bs = Some (c, r)"
  shows "scalar c \<and> bs = utf8_char c @ r"
proof -
  from assms obtain b bs' where bs: "bs = b # bs'" by (cases bs) (auto simp: utf8_step.simps)
  consider "b < 0x80" | "0xC2 \<le> b \<and> b < 0xE0" | "0xE0 \<le> b \<and> b < 0xF0" | "0xF0 \<le> b \<and> b < 0xF5"
    using assms bs by (auto simp: utf8_step.simps split: if_splits)
  then show ?thesis
  proof cases
    case 1
    with assms bs show ?thesis by (auto simp: utf8_step.simps utf8_char_def scalar_def)
  next
    case 2
    with assms bs obtain b1 where b1: "bs' = b1 # r" "cont b1" "c = (b - 0xC0) * 0x40 + (b1 - 0x80)"
      by (auto simp: utf8_step.simps split: if_splits list.splits)
    define x y where "x = b - 0xC0" and "y = b1 - 0x80"
    from 2 b1 have xy: "b = 0xC0 + x" "b1 = 0x80 + y" "y < 0x40" "2 \<le> x" "x < 0x20"
      by (auto simp: x_def y_def cont_def)
    with b1 have "c = x * 0x40 + y" by simp
    with xy b1 bs show ?thesis by (auto simp: utf8_char_def scalar_def)
  next
    case 3
    with assms bs obtain b1 b2 where b12: "bs' = b1 # b2 # r" "cont b1" "cont b2"
        "b = 0xE0 \<longrightarrow> 0xA0 \<le> b1" "b = 0xED \<longrightarrow> b1 < 0xA0"
        "c = (b - 0xE0) * 0x1000 + (b1 - 0x80) * 0x40 + (b2 - 0x80)"
      by (auto simp: utf8_step.simps split: if_splits list.splits)
    have "scalar c \<and> utf8_char c = [0xE0 + (b - 0xE0), 0x80 + (b1 - 0x80), 0x80 + (b2 - 0x80)]"
      by (rule utf8_char_three) (use 3 b12 in \<open>auto simp: cont_def\<close>)
    with 3 b12 bs show ?thesis by (simp add: cont_offset)
  next
    case 4
    with assms bs obtain b1 b2 b3 where b123: "bs' = b1 # b2 # b3 # r" "cont b1" "cont b2" "cont b3"
        "b = 0xF0 \<longrightarrow> 0x90 \<le> b1" "b = 0xF4 \<longrightarrow> b1 < 0x90"
        "c = (b - 0xF0) * 0x40000 + (b1 - 0x80) * 0x1000 + (b2 - 0x80) * 0x40 + (b3 - 0x80)"
      by (auto simp: utf8_step.simps split: if_splits list.splits)
    have "scalar c \<and> utf8_char c =
        [0xF0 + (b - 0xF0), 0x80 + (b1 - 0x80), 0x80 + (b2 - 0x80), 0x80 + (b3 - 0x80)]"
      by (rule utf8_char_four) (use 4 b123 in \<open>auto simp: cont_def\<close>)
    with 4 b123 bs show ?thesis by (simp add: cont_offset)
  qed
qed

lemma utf8_char_byte: "scalar c \<Longrightarrow> b \<in> set (utf8_char c) \<Longrightarrow> b < 0x100"
  by (auto simp: utf8_char_def scalar_def split: if_splits)

lemma unat_word_of_byte [simp]: "b < 0x100 \<Longrightarrow> unat (word_of_nat b :: u8) = b"
  by (simp add: unat_of_nat)

lemma unat_u8_less [simp]: "unat (b :: u8) < 0x100"
  using unsigned_less [of b, where 'a = nat] by simp

lemma as_bytes_simps [simp, codec_simps]:
  "as_bytes [] = []"
  "as_bytes (c # s) = map word_of_nat (utf8_char c) @ as_bytes s"
  "as_bytes (s @ t) = as_bytes s @ as_bytes t"
  by (simp_all add: as_bytes_def)

lemma utf8_char_ascii [simp]: "c < 0x80 \<Longrightarrow> utf8_char c = [c]"
  by (simp add: utf8_char_def)

lemma utf8_char_nonempty [simp]: "utf8_char c \<noteq> []"
  by (simp add: utf8_char_def)

lemma as_bytes_ascii: "ascii s \<Longrightarrow> as_bytes s = map word_of_nat s"
  by (induction s) auto

lemma as_bytes_eq_Nil [simp]: "as_bytes s = [] \<longleftrightarrow> s = []"
  by (cases s) auto

lemma map_unat_utf8_char:
  "scalar c \<Longrightarrow> map unat (map word_of_nat (utf8_char c) :: bytes) = utf8_char c"
  unfolding map_map comp_def by (rule map_idI) (auto dest: utf8_char_byte)

lemma from_utf8_as_bytes_append:
  "wf_str s \<Longrightarrow> from_utf8 (as_bytes s @ bs) = map_option (append s) (from_utf8 bs)"
proof (induction s)
  case Nil
  then show ?case by (simp add: option.map_ident)
next
  case (Cons c s)
  have "utf8_decode (utf8_char c @ map unat (as_bytes s @ bs)) =
      map_option (Cons c) (utf8_decode (map unat (as_bytes s @ bs)))"
    using Cons.prems by (subst utf8_decode.simps) (simp add: utf8_step_char)
  with Cons show ?case
    by (simp add: from_utf8_def map_unat_utf8_char option.map_comp comp_def del: map_map)
qed

lemma from_utf8_Nil [simp]: "from_utf8 [] = Some []"
  by (simp add: from_utf8_def utf8_decode.simps)

theorem from_utf8_as_bytes [simp]: "wf_str s \<Longrightarrow> from_utf8 (as_bytes s) = Some s"
  using from_utf8_as_bytes_append [of s "[]"] by simp

lemma utf8_decode_inverse:
  "utf8_decode bs = Some s \<Longrightarrow> wf_str s \<and> bs = concat (map utf8_char s)"
proof (induction bs arbitrary: s rule: utf8_decode.induct)
  case (1 bs)
  show ?case
  proof (cases "bs = []")
    case True
    with "1.prems" show ?thesis by (simp add: utf8_decode.simps)
  next
    case False
    with "1.prems" obtain c r s' where cr: "utf8_step bs = Some (c, r)"
        "utf8_decode r = Some s'" "s = c # s'"
      by (auto simp: utf8_decode.simps [of bs] split: option.splits)
    with "1.IH" False have "wf_str s' \<and> r = concat (map utf8_char s')" by blast
    with utf8_step_inverse [OF cr(1)] cr(3) show ?thesis by simp
  qed
qed

theorem from_utf8_Some_iff: "from_utf8 bs = Some s \<longleftrightarrow> wf_str s \<and> bs = as_bytes s"
proof
  assume "from_utf8 bs = Some s"
  then have s: "wf_str s" "map unat bs = concat (map utf8_char s)"
    using utf8_decode_inverse by (auto simp: from_utf8_def)
  have "as_bytes s = map word_of_nat (concat (map utf8_char s))"
    by (simp add: as_bytes_def map_concat comp_def)
  also have "\<dots> = map word_of_nat (map unat bs)" using s(2) by simp
  finally show "wf_str s \<and> bs = as_bytes s" using s(1) by (simp add: comp_def)
qed simp

lemma as_bytes_inject: "wf_str s \<Longrightarrow> wf_str t \<Longrightarrow> as_bytes s = as_bytes t \<longleftrightarrow> s = t"
  using from_utf8_as_bytes by (metis option.inject)

text \<open>An ASCII byte occurs in the encoding only where the character itself does.\<close>

lemma utf8_char_ascii_byte:
  "scalar c \<Longrightarrow> b < 0x80 \<Longrightarrow> b \<in> set (utf8_char c) \<longleftrightarrow> b = c"
  by (auto simp: utf8_char_def scalar_def)

lemma ascii_byte_in_as_bytes:
  assumes "wf_str s" and "unat b < 0x80"
  shows "b \<in> set (as_bytes s) \<longleftrightarrow> unat b \<in> set s"
  using assms(1)
proof (induction s)
  case (Cons c s)
  have "b \<in> word_of_nat ` set (utf8_char c) \<longleftrightarrow> unat b \<in> set (utf8_char c)"
    using Cons.prems utf8_char_byte [of c] by (force simp: image_iff)
  with Cons assms(2) show ?case by (auto simp: utf8_char_ascii_byte)
qed simp

section \<open>Unsigned integers as text\<close>

text \<open>\<open>to_string\<close> of an unsigned integer.\<close>

fun dec :: "nat \<Rightarrow> ustr" where
  "dec n = (if n < 10 then [48 + n] else dec (n div 10) @ [48 + n mod 10])"

declare dec.simps [simp del, codec_simps]

text \<open>\<open>char::is_ascii_digit\<close>.\<close>

definition is_ascii_digit :: "uchar \<Rightarrow> bool" where
  "is_ascii_digit c \<longleftrightarrow> 48 \<le> c \<and> c \<le> 57"

text \<open>
  \<open>str::parse\<close> for an unsigned type with the given largest value: an optional leading
  plus sign, at least one digit, an error as soon as the value would overflow.
\<close>

fun parse_digits :: "nat \<Rightarrow> nat \<Rightarrow> ustr \<Rightarrow> nat option" where
  "parse_digits m acc [] = Some acc"
| "parse_digits m acc (c # cs) =
     (if is_ascii_digit c \<and> acc * 10 + (c - 48) \<le> m
      then parse_digits m (acc * 10 + (c - 48)) cs else None)"

definition parse_uint :: "nat \<Rightarrow> ustr \<Rightarrow> nat option" where
  "parse_uint m s =
     (case s of
        [] \<Rightarrow> None
      | c # cs \<Rightarrow>
          if c = 43 then (if cs = [] then None else parse_digits m 0 cs)
          else parse_digits m 0 s)"

definition parse_u8 :: "ustr \<Rightarrow> u8 option" where
  "parse_u8 s = map_option word_of_nat (parse_uint (2 ^ 8 - 1) s)"

definition parse_usize :: "ustr \<Rightarrow> usize option" where
  "parse_usize s = map_option word_of_nat (parse_uint (2 ^ 64 - 1) s)"

lemma dec_nonempty [simp]: "dec n \<noteq> []"
  by (subst dec.simps) simp

lemma dec_digits: "c \<in> set (dec n) \<Longrightarrow> is_ascii_digit c"
proof (induction n rule: dec.induct)
  case (1 n)
  then show ?case
    by (cases "n < 10") (auto simp: dec.simps [of n] is_ascii_digit_def)
qed

lemma dec_ascii [simp]: "ascii (dec n)"
  using dec_digits by (fastforce simp: ascii_def list_all_iff is_ascii_digit_def)

lemma parse_digits_append:
  "parse_digits m acc (s @ t) = Option.bind (parse_digits m acc s) (\<lambda>a. parse_digits m a t)"
  by (induction s arbitrary: acc) auto

lemma parse_digits_dec: "n \<le> m \<Longrightarrow> parse_digits m 0 (dec n) = Some n"
proof (induction n rule: dec.induct)
  case (1 n)
  show ?case
  proof (cases "n < 10")
    case True
    with "1.prems" show ?thesis by (simp add: dec.simps [of n] is_ascii_digit_def)
  next
    case False
    with "1" have "parse_digits m 0 (dec (n div 10)) = Some (n div 10)" by simp
    with False "1.prems" show ?thesis
      by (simp add: dec.simps [of n] parse_digits_append is_ascii_digit_def)
  qed
qed

lemma parse_uint_dec [simp]: "n \<le> m \<Longrightarrow> parse_uint m (dec n) = Some n"
proof -
  assume n: "n \<le> m"
  obtain c cs where d: "dec n = c # cs" by (cases "dec n") auto
  with dec_digits [of c n] have "c \<noteq> 43" by (auto simp: is_ascii_digit_def)
  with d parse_digits_dec [OF n] show ?thesis by (simp add: parse_uint_def)
qed

lemma parse_digits_bound: "parse_digits m acc s = Some n \<Longrightarrow> acc \<le> m \<Longrightarrow> n \<le> m"
  by (induction s arbitrary: acc) (auto split: if_splits)

lemma parse_uint_bound: "parse_uint m s = Some n \<Longrightarrow> n \<le> m"
  by (auto simp: parse_uint_def dest!: parse_digits_bound split: list.splits if_splits)

lemma unat_le_max: "unat (x :: 'a::len word) \<le> 2 ^ LENGTH('a) - 1"
proof -
  have "unat x < 2 ^ LENGTH('a)" by (rule unsigned_less)
  then show ?thesis by linarith
qed

lemma parse_u8_dec [simp]: "parse_u8 (dec (unat (x :: u8))) = Some x"
  using unat_le_max [of x] by (simp add: parse_u8_def)

lemma parse_usize_dec [simp]: "parse_usize (dec (unat (x :: usize))) = Some x"
  using unat_le_max [of x] by (simp add: parse_usize_def)

lemma parse_u8_empty [simp]: "parse_u8 [] = None"
  by (simp add: parse_u8_def parse_uint_def)

lemma parse_usize_empty [simp]: "parse_usize [] = None"
  by (simp add: parse_usize_def parse_uint_def)

lemma dec_inject [simp]: "dec a = dec b \<longleftrightarrow> a = b"
  using parse_digits_dec [of a "max a b"] parse_digits_dec [of b "max a b"]
  by (metis max.cobounded1 max.cobounded2 option.inject)

section \<open>Case conversion\<close>

text \<open>
  The sources compare the result with ASCII literals only. The tables therefore list the
  characters whose image has an ASCII character; every other character outside ASCII is
  kept, since its image has none and cannot take part in a match.
\<close>

definition lower_char :: "uchar \<Rightarrow> ustr" where
  "lower_char c =
     (if 65 \<le> c \<and> c \<le> 90 then [c + 32]
      else if c = 0x212A then [0x6B]
      else if c = 0x130 then [0x69, 0x307]
      else [c])"

definition to_lowercase :: "ustr \<Rightarrow> ustr" where
  "to_lowercase s = concat (map lower_char s)"

definition upper_char :: "uchar \<Rightarrow> ustr" where
  "upper_char c =
     (if 97 \<le> c \<and> c \<le> 122 then [c - 32]
      else if c = 0xDF then str ''SS''
      else if c = 0x131 then str ''I''
      else if c = 0x149 then [0x2BC, 0x4E]
      else if c = 0x17F then str ''S''
      else if c = 0x1F0 then [0x4A, 0x30C]
      else if c = 0x1E96 then [0x48, 0x331]
      else if c = 0x1E97 then [0x54, 0x308]
      else if c = 0x1E98 then [0x57, 0x30A]
      else if c = 0x1E99 then [0x59, 0x30A]
      else if c = 0x1E9A then [0x41, 0x2BE]
      else if c = 0xFB00 then str ''FF''
      else if c = 0xFB01 then str ''FI''
      else if c = 0xFB02 then str ''FL''
      else if c = 0xFB03 then str ''FFI''
      else if c = 0xFB04 then str ''FFL''
      else if c = 0xFB05 then str ''ST''
      else if c = 0xFB06 then str ''ST''
      else [c])"

definition to_uppercase :: "ustr \<Rightarrow> ustr" where
  "to_uppercase s = concat (map upper_char s)"

lemma to_lowercase_simps [simp, codec_simps]:
  "to_lowercase [] = []"
  "to_lowercase (c # s) = lower_char c @ to_lowercase s"
  by (simp_all add: to_lowercase_def)

lemma to_uppercase_simps [simp, codec_simps]:
  "to_uppercase [] = []"
  "to_uppercase (c # s) = upper_char c @ to_uppercase s"
  by (simp_all add: to_uppercase_def)

lemma lower_char_idem: "to_lowercase (lower_char c) = lower_char c"
  by (auto simp: lower_char_def)

lemma to_lowercase_append [simp]: "to_lowercase (s @ t) = to_lowercase s @ to_lowercase t"
  by (simp add: to_lowercase_def)

lemma to_lowercase_idem [simp]: "to_lowercase (to_lowercase s) = to_lowercase s"
  by (induction s) (simp_all add: lower_char_idem)

section \<open>Splitting\<close>

text \<open>\<open>str::split\<close> on one character; the result is never empty.\<close>

fun split_on :: "'a \<Rightarrow> 'a list \<Rightarrow> 'a list list" where
  "split_on c [] = [[]]"
| "split_on c (x # xs) =
     (if x = c then [] # split_on c xs
      else case split_on c xs of [] \<Rightarrow> [[x]] | w # ws \<Rightarrow> (x # w) # ws)"

text \<open>Its inverse: the pieces joined by the separator.\<close>

fun join_with :: "'a \<Rightarrow> 'a list list \<Rightarrow> 'a list" where
  "join_with c [] = []"
| "join_with c [w] = w"
| "join_with c (w # ws) = w @ c # join_with c ws"

lemma split_on_nonempty [simp]: "split_on c xs \<noteq> []"
  by (cases xs) (auto split: list.splits)

lemma split_on_sep:
  "c \<notin> set w \<Longrightarrow> split_on c (w @ c # xs) = w # split_on c xs"
  by (induction w) auto

lemma split_on_none: "c \<notin> set w \<Longrightarrow> split_on c w = [w]"
  by (induction w) auto

lemma split_on_join:
  "ws \<noteq> [] \<Longrightarrow> (\<And>w. w \<in> set ws \<Longrightarrow> c \<notin> set w) \<Longrightarrow> split_on c (join_with c ws) = ws"
  by (induction c ws rule: join_with.induct) (auto simp: split_on_sep split_on_none)

lemma join_with_superset: "w \<in> set ws \<Longrightarrow> set w \<subseteq> set (join_with c ws)"
  by (induction c ws rule: join_with.induct) auto

lemma join_with_set: "set (join_with c ws) \<subseteq> insert c (\<Union> (set ` set ws))"
  by (induction c ws rule: join_with.induct) auto

lemma split_on_no_sep: "w \<in> set (split_on c xs) \<Longrightarrow> c \<notin> set w"
  by (induction xs arbitrary: w) (auto split: if_splits list.splits)

lemma join_split_on: "join_with c (split_on c xs) = xs"
proof (induction xs)
  case (Cons x xs)
  obtain w ws where s: "split_on c xs = w # ws" by (cases "split_on c xs") auto
  with Cons show ?case by (cases ws) auto
qed simp

end
