(* ===== verification/Base64.thy ===== *)
theory Base64
  imports Rust_Std
begin

text \<open>
  The interface of the \<open>base64\<close> crate, which is not part of the repository: the two
  functions the sources call and what they rely on, as a locale. Every definition that
  uses the crate takes the functions as arguments, and every theorem about it assumes
  the locale. The standard alphabet of RFC 4648 is an instance, so the assumptions are
  consistent and theorems can be evaluated.
\<close>

section \<open>The interface\<close>

definition b64_char :: "nat \<Rightarrow> uchar" where
  "b64_char n =
     (if n < 26 then 65 + n
      else if n < 52 then 97 + (n - 26)
      else if n < 62 then 48 + (n - 52)
      else if n = 62 then 43 else 47)"

definition b64_alphabet :: "uchar set" where
  "b64_alphabet = insert 61 (b64_char ` {..<64})"

text \<open>
  \<open>encode\<close> returns a string over the standard alphabet (with \<open>=\<close> as padding), and
  \<open>decode\<close> reads it back. The first character of an encoding holds the upper six bits
  of the first byte.
\<close>

locale base64 =
  fixes encode :: "bytes \<Rightarrow> ustr"
    and decode :: "bytes \<Rightarrow> bytes option"
  assumes decode_encode: "decode (as_bytes (encode bs)) = Some bs"
    and encode_alphabet: "set (encode bs) \<subseteq> b64_alphabet"
    and encode_first: "\<exists>r. encode (b # bs) = b64_char (unat b div 4) # r"
begin

lemma encode_inject: "encode bs = encode cs \<longleftrightarrow> bs = cs"
  using decode_encode by (metis option.inject)

end

lemma b64_alphabet_range:
  "c \<in> b64_alphabet \<Longrightarrow> c < 0x80 \<and> c \<noteq> 45 \<and> c \<noteq> 0x1e"
  by (auto simp: b64_alphabet_def b64_char_def split: if_splits)

context base64
begin

lemma encode_char: "c \<in> set (encode bs) \<Longrightarrow> c < 0x80 \<and> c \<noteq> 45 \<and> c \<noteq> 0x1e"
  using encode_alphabet b64_alphabet_range by blast

lemma encode_ascii [simp]: "ascii (encode bs)"
  using encode_char by (auto simp: ascii_def list_all_iff)

lemma encode_wf [simp]: "wf_str (encode bs)"
  by (simp add: ascii_wf_str)

lemma encode_no_separator: "0x1e \<notin> set (as_bytes (encode bs))"
  using encode_char by (auto simp: ascii_byte_in_as_bytes)

end

section \<open>The RFC 4648 instance\<close>

fun rfc_encode_nats :: "nat list \<Rightarrow> ustr" where
  "rfc_encode_nats [] = []"
| "rfc_encode_nats [a] = [b64_char (a div 4), b64_char (a mod 4 * 16), 61, 61]"
| "rfc_encode_nats [a, b] =
     [b64_char (a div 4), b64_char (a mod 4 * 16 + b div 16), b64_char (b mod 16 * 4), 61]"
| "rfc_encode_nats (a # b # c # r) =
     b64_char (a div 4) # b64_char (a mod 4 * 16 + b div 16)
       # b64_char (b mod 16 * 4 + c div 64) # b64_char (c mod 64) # rfc_encode_nats r"

definition rfc_encode :: "bytes \<Rightarrow> ustr" where
  "rfc_encode bs = rfc_encode_nats (map unat bs)"

definition b64_val :: "nat \<Rightarrow> nat option" where
  "b64_val c =
     (if 65 \<le> c \<and> c \<le> 90 then Some (c - 65)
      else if 97 \<le> c \<and> c \<le> 122 then Some (c - 97 + 26)
      else if 48 \<le> c \<and> c \<le> 57 then Some (c - 48 + 52)
      else if c = 43 then Some 62
      else if c = 47 then Some 63 else None)"

fun rfc_decode_nats :: "nat list \<Rightarrow> nat list option" where
  "rfc_decode_nats [] = Some []"
| "rfc_decode_nats (p # q # r # s # rest) =
     (case (b64_val p, b64_val q) of
        (Some w, Some x) \<Rightarrow>
          if s = 61 then
            if rest \<noteq> [] then None
            else if r = 61 then
              if x mod 16 = 0 then Some [w * 4 + x div 16] else None
            else (case b64_val r of
                Some y \<Rightarrow> if y mod 4 = 0 then Some [w * 4 + x div 16, x mod 16 * 16 + y div 4] else None
              | None \<Rightarrow> None)
          else (case (b64_val r, b64_val s) of
              (Some y, Some z) \<Rightarrow>
                map_option (\<lambda>bs. (w * 4 + x div 16) # (x mod 16 * 16 + y div 4) # (y mod 4 * 64 + z) # bs)
                  (rfc_decode_nats rest)
            | _ \<Rightarrow> None)
      | _ \<Rightarrow> None)"
| "rfc_decode_nats _ = None"

definition rfc_decode :: "bytes \<Rightarrow> bytes option" where
  "rfc_decode bs = map_option (map word_of_nat) (rfc_decode_nats (map unat bs))"

lemma b64_val_char [simp]: "n < 64 \<Longrightarrow> b64_val (b64_char n) = Some n"
  by (auto simp: b64_val_def b64_char_def)

lemma b64_char_not_pad [simp]: "b64_char n \<noteq> 61"
  by (auto simp: b64_char_def)

lemma b64_char_ascii [simp]: "b64_char n < 0x80"
  by (auto simp: b64_char_def)

lemma b64_char_in_alphabet [simp]: "n < 64 \<Longrightarrow> b64_char n \<in> b64_alphabet"
  by (auto simp: b64_alphabet_def)

lemma byte_groups:
  assumes "a < 0x100" and "b < 0x100" and "c < (0x100 :: nat)"
  shows "a div 4 < 64" "a mod 4 * 16 + b div 16 < 64" "b mod 16 * 4 + c div 64 < 64" "c mod 64 < 64"
  using assms by auto

lemma byte_groups_join:
  assumes "a < 0x100" and "b < 0x100" and "c < (0x100 :: nat)"
  shows "a div 4 * 4 + (a mod 4 * 16 + b div 16) div 16 = a"
    and "(a mod 4 * 16 + b div 16) mod 16 * 16 + (b mod 16 * 4 + c div 64) div 4 = b"
    and "(b mod 16 * 4 + c div 64) mod 4 * 64 + c mod 64 = c"
proof -
  have "(a mod 4 * 16 + b div 16) div 16 = a mod 4" "(a mod 4 * 16 + b div 16) mod 16 = b div 16"
      "(b mod 16 * 4 + c div 64) div 4 = b mod 16" "(b mod 16 * 4 + c div 64) mod 4 = c div 64"
    using assms by auto
  then show "a div 4 * 4 + (a mod 4 * 16 + b div 16) div 16 = a"
    and "(a mod 4 * 16 + b div 16) mod 16 * 16 + (b mod 16 * 4 + c div 64) div 4 = b"
    and "(b mod 16 * 4 + c div 64) mod 4 * 64 + c mod 64 = c"
    by simp_all
qed

lemma rfc_decode_encode_nats:
  "\<forall>b\<in>set bs. b < 0x100 \<Longrightarrow> rfc_decode_nats (rfc_encode_nats bs) = Some bs"
proof (induction bs rule: rfc_encode_nats.induct)
  case (2 a)
  with byte_groups [of a 0 0] byte_groups_join [of a 0 0] show ?case by simp
next
  case (3 a b)
  with byte_groups [of a b 0] byte_groups_join [of a b 0] show ?case by simp
next
  case (4 a b c r)
  then have abc: "a < 0x100" "b < 0x100" "c < 0x100" "b div 16 < 16" "c div 64 < 4" by auto
  with 4 byte_groups [OF abc(1-3)] byte_groups_join [OF abc(1-3)] show ?case by simp
qed simp

lemma rfc_encode_nats_alphabet:
  "\<forall>b\<in>set bs. b < 0x100 \<Longrightarrow> set (rfc_encode_nats bs) \<subseteq> b64_alphabet"
proof (induction bs rule: rfc_encode_nats.induct)
  case (2 a)
  with byte_groups [of a 0 0] show ?case by (simp add: b64_alphabet_def)
next
  case (3 a b)
  with byte_groups [of a b 0] show ?case by (simp add: b64_alphabet_def)
next
  case (4 a b c r)
  with byte_groups [of a b c] show ?case by simp
qed simp

lemma rfc_encode_alphabet: "set (rfc_encode bs) \<subseteq> b64_alphabet"
  unfolding rfc_encode_def by (rule rfc_encode_nats_alphabet) auto

lemma map_unat_as_bytes_ascii: "ascii s \<Longrightarrow> map unat (as_bytes s) = s"
  by (induction s) auto

interpretation rfc4648: base64 rfc_encode rfc_decode
proof unfold_locales
  fix bs :: bytes
  have "ascii (rfc_encode bs)"
    using rfc_encode_alphabet b64_alphabet_range by (fastforce simp: ascii_def list_all_iff)
  moreover have "\<forall>b\<in>set (map unat bs). b < 0x100" by auto
  ultimately show "rfc_decode (as_bytes (rfc_encode bs)) = Some bs"
    by (simp add: rfc_decode_def map_unat_as_bytes_ascii)
      (simp add: rfc_encode_def rfc_decode_encode_nats comp_def)
next
  fix bs :: bytes
  show "set (rfc_encode bs) \<subseteq> b64_alphabet" by (rule rfc_encode_alphabet)
next
  fix b and bs :: bytes
  show "\<exists>r. rfc_encode (b # bs) = b64_char (unat b div 4) # r"
    by (cases "map unat (b # bs)" rule: rfc_encode_nats.cases) (auto simp: rfc_encode_def)
qed

end
