(* ===== verification/Engine_Packet.thy ===== *)
theory Engine_Packet
  imports Base64
begin

text \<open>
  Engine.IO packets and payloads (\<open>engineio/src/packet.rs\<close>, \<open>engineio/src/error.rs\<close>):
  packet types and their digits, one packet as bytes, payloads of several packets joined
  by the record separator, the body of a polling response, and the handshake data. The
  base64 functions are arguments. A panic is the value \<open>None\<close>.
\<close>

section \<open>Errors\<close>

text \<open>
  The crate's error type. Errors of other crates are wrapped by the sources and never
  inspected, so their constructors carry nothing here.
\<close>

datatype eio_error =
    InvalidPacketType u8
  | InvalidPacket
  | IncompletePacket
  | InvalidBase64
  | InvalidJson
  | InvalidHeaderNameFromReqwest
  | InvalidHeaderValueFromReqwest
  | InvalidHandShake ustr
  | InvalidUrlScheme ustr
  | IoError
  | WsError
  | Utf8Error
  | HttpError
  | InvalidHttpResponseStatus u16
  | SendError
  | EventSendError
  | IllegalWebsocketUpgrade
  | IllegalActionBeforeOpen

section \<open>Packet types\<close>

datatype packet_type =
  Open | Close | Ping | Pong | Message | MessageBinary | Upgrade | Noop

text \<open>The separator of packets within a payload.\<close>

definition SEPARATOR :: u8 where
  "SEPARATOR = 0x1e"

fun packet_type_to_u8 :: "packet_type \<Rightarrow> u8" where
  "packet_type_to_u8 Open = 0"
| "packet_type_to_u8 Close = 1"
| "packet_type_to_u8 Ping = 2"
| "packet_type_to_u8 Pong = 3"
| "packet_type_to_u8 Message = 4"
| "packet_type_to_u8 MessageBinary = 4"
| "packet_type_to_u8 Upgrade = 5"
| "packet_type_to_u8 Noop = 6"

definition packet_type_to_string :: "packet_type \<Rightarrow> ustr" where
  "packet_type_to_string p =
     (case p of
        MessageBinary \<Rightarrow> str ''b''
      | _ \<Rightarrow> dec (unat (packet_type_to_u8 p)))"

text \<open>Both the digit and the number itself are accepted.\<close>

definition packet_type_try_from :: "u8 \<Rightarrow> eio_error + packet_type" where
  "packet_type_try_from b =
     (if b = 0 \<or> b = 48 then Inr Open
      else if b = 1 \<or> b = 49 then Inr Close
      else if b = 2 \<or> b = 50 then Inr Ping
      else if b = 3 \<or> b = 51 then Inr Pong
      else if b = 4 \<or> b = 52 then Inr Message
      else if b = 5 \<or> b = 53 then Inr Upgrade
      else if b = 6 \<or> b = 54 then Inr Noop
      else Inl (InvalidPacketType b))"

text \<open>The discriminant that a cast \<open>as u8\<close> of the enum yields: its position.\<close>

fun packet_type_discriminant :: "packet_type \<Rightarrow> u8" where
  "packet_type_discriminant Open = 0"
| "packet_type_discriminant Close = 1"
| "packet_type_discriminant Ping = 2"
| "packet_type_discriminant Pong = 3"
| "packet_type_discriminant Message = 4"
| "packet_type_discriminant MessageBinary = 5"
| "packet_type_discriminant Upgrade = 6"
| "packet_type_discriminant Noop = 7"

section \<open>Packets\<close>

record eio_packet =
  eptype :: packet_type
  edata :: bytes

definition packet_new :: "packet_type \<Rightarrow> bytes \<Rightarrow> eio_packet" where
  "packet_new t d = \<lparr>eptype = t, edata = d\<rparr>"

definition packet_noop :: eio_packet where
  "packet_noop = \<lparr>eptype = Noop, edata = []\<rparr>"

definition packet_try_from :: "(bytes \<Rightarrow> bytes option) \<Rightarrow> bytes \<Rightarrow> eio_error + eio_packet" where
  "packet_try_from decode bs =
     (case bs of
        [] \<Rightarrow> Inl IncompletePacket
      | b # rest \<Rightarrow>
          let is_base64 = (b = 98) in
          try_bind (if is_base64 then Inr MessageBinary else packet_type_try_from b) (\<lambda>ptype.
          if length bs = 1 \<and> ptype = Message then Inl IncompletePacket
          else
            try_bind (if is_base64 then ok_or (decode rest) InvalidBase64 else Inr rest) (\<lambda>d.
            Inr \<lparr>eptype = ptype, edata = d\<rparr>)))"

definition bytes_from_packet :: "(bytes \<Rightarrow> ustr) \<Rightarrow> eio_packet \<Rightarrow> bytes" where
  "bytes_from_packet encode p =
     as_bytes (packet_type_to_string (eptype p)) @
     (if eptype p = MessageBinary then as_bytes (encode (edata p)) else edata p)"

declare bytes_from_packet_def [codec_simps] packet_type_to_string_def [codec_simps]
  packet_try_from_def [codec_simps] packet_type_try_from_def [codec_simps]

section \<open>Payloads\<close>

text \<open>
  Decoding scans the bytes by index and cuts a packet at every separator; the state of
  the loop is the index, the start of the current packet and the packets so far.
\<close>

definition bytes_slice :: "bytes \<Rightarrow> nat \<Rightarrow> nat \<Rightarrow> bytes" where
  "bytes_slice bs i j = take (j - i) (drop i bs)"

function payload_loop ::
  "(bytes \<Rightarrow> bytes option) \<Rightarrow> bytes \<Rightarrow> nat \<Rightarrow> nat \<Rightarrow> eio_packet list \<Rightarrow>
     eio_error + (nat \<times> eio_packet list)" where
  "payload_loop decode payload i last_index vec =
     (if i < length payload then
        if payload ! i = SEPARATOR then
          try_bind (packet_try_from decode (bytes_slice payload last_index i)) (\<lambda>p.
          payload_loop decode payload (i + 1) (i + 1) (vec @ [p]))
        else payload_loop decode payload (i + 1) last_index vec
      else Inr (last_index, vec))"
  by pat_completeness auto
termination
  by (relation "measure (\<lambda>(decode, payload, i, last_index, vec). length payload - i)") auto

definition payload_try_from :: "(bytes \<Rightarrow> bytes option) \<Rightarrow> bytes \<Rightarrow> eio_error + eio_packet list" where
  "payload_try_from decode payload =
     try_bind (payload_loop decode payload 0 0 []) (\<lambda>(last_index, vec).
     try_bind (packet_try_from decode (bytes_slice payload last_index (length payload))) (\<lambda>p.
     Inr (vec @ [p])))"

text \<open>
  Encoding appends every packet with a separator and removes the last byte. With no
  packet there is no byte to remove: the subtraction underflows and the call panics.
\<close>

fun payload_buffer :: "(bytes \<Rightarrow> ustr) \<Rightarrow> eio_packet list \<Rightarrow> bytes \<Rightarrow> bytes" where
  "payload_buffer encode [] buf = buf"
| "payload_buffer encode (p # ps) buf =
     payload_buffer encode ps ((buf @ bytes_from_packet encode p) @ [SEPARATOR])"

definition bytes_from_payload :: "(bytes \<Rightarrow> ustr) \<Rightarrow> eio_packet list \<Rightarrow> bytes option" where
  "bytes_from_payload encode ps =
     (let buf = payload_buffer encode ps [] in
      if length buf = 0 then None else Some (take (length buf - 1) buf))"

text \<open>Indexing a payload panics out of range; iterating yields the packets in order.\<close>

definition payload_index :: "eio_packet list \<Rightarrow> nat \<Rightarrow> eio_packet option" where
  "payload_index ps i = (if i < length ps then Some (ps ! i) else None)"

fun payload_next :: "eio_packet list \<Rightarrow> eio_packet option \<times> eio_packet list" where
  "payload_next [] = (None, [])"
| "payload_next (p # ps) = (Some p, ps)"

section \<open>The body of a polling response\<close>

text \<open>
  The queued messages joined by separators: a message that starts with the letter \<open>b\<close>
  is base64-encoded, one that is not UTF-8 adds nothing, an empty one ends the function
  with \<open>None\<close>.
\<close>

fun polling_payload_loop :: "(bytes \<Rightarrow> ustr) \<Rightarrow> bytes list \<Rightarrow> ustr \<Rightarrow> ustr option" where
  "polling_payload_loop encode [] payload = Some payload"
| "polling_payload_loop encode (bs # byte_vec) payload =
     (case bs of
        [] \<Rightarrow> None
      | b # _ \<Rightarrow>
          let payload =
            (if b = 98 then payload @ encode bs
             else case from_utf8 bs of Some s \<Rightarrow> payload @ s | None \<Rightarrow> payload);
              payload = (if byte_vec \<noteq> [] then payload @ [unat SEPARATOR] else payload)
          in polling_payload_loop encode byte_vec payload)"

definition build_polling_payload :: "(bytes \<Rightarrow> ustr) \<Rightarrow> bytes list \<Rightarrow> ustr option" where
  "build_polling_payload encode byte_vec =
     (case polling_payload_loop encode byte_vec [] of
        None \<Rightarrow> None
      | Some payload \<Rightarrow> if payload = [] then None else Some payload)"

section \<open>Handshake data\<close>

record handshake_packet =
  hs_sid :: ustr
  hs_upgrades :: "ustr list"
  hs_ping_interval :: u64
  hs_ping_timeout :: u64
  hs_max_payload :: usize

text \<open>The derived JSON reader is an argument.\<close>

definition handshake_try_from ::
  "(bytes \<Rightarrow> handshake_packet option) \<Rightarrow> eio_packet \<Rightarrow> eio_error + handshake_packet" where
  "handshake_try_from from_slice p = ok_or (from_slice (edata p)) InvalidJson"

declare payload_loop.simps [simp del]

section \<open>Lemmas on packets\<close>

lemma packet_type_byte:
  assumes "t \<noteq> MessageBinary"
  obtains b where "as_bytes (packet_type_to_string t) = [b]" and "b \<noteq> 98" and "b \<noteq> SEPARATOR"
    and "packet_type_try_from b = Inr t"
proof
  show "as_bytes (packet_type_to_string t) = [packet_type_to_u8 t + 48]"
    using assms by (cases t) (simp_all add: packet_type_to_string_def dec.simps)
qed (use assms in \<open>cases t; simp add: packet_type_try_from_def SEPARATOR_def\<close>)+

lemma packet_type_binary_bytes [simp]: "as_bytes (packet_type_to_string MessageBinary) = [98]"
  by (simp add: packet_type_to_string_def)

lemma bytes_from_packet_text:
  assumes "t \<noteq> MessageBinary"
  obtains b where "\<And>encode d. bytes_from_packet encode (packet_new t d) = b # d"
    and "b \<noteq> 98" and "b \<noteq> SEPARATOR" and "packet_type_try_from b = Inr t"
  by (rule packet_type_byte [OF assms]) (simp add: bytes_from_packet_def packet_new_def assms)

lemma packet_new_collapse [simp]: "packet_new (eptype p) (edata p) = p"
  by (simp add: packet_new_def)

lemma packet_new_sel [simp]: "eptype (packet_new t d) = t" "edata (packet_new t d) = d"
  by (simp_all add: packet_new_def)

lemma bytes_from_packet_nonempty [simp]: "bytes_from_packet encode p \<noteq> []"
proof (cases "eptype p = MessageBinary")
  case False
  then show ?thesis by (rule bytes_from_packet_text) (metis list.discI packet_new_collapse)
qed (simp add: bytes_from_packet_def)

context base64
begin

lemma packet_encode_decode:
  "packet_try_from decode (bytes_from_packet encode p) =
     (if eptype p = Message \<and> edata p = [] then Inl IncompletePacket else Inr p)"
proof (cases "eptype p = MessageBinary")
  case True
  then show ?thesis
    by (simp add: bytes_from_packet_def packet_try_from_def decode_encode)
next
  case False
  then obtain b where b: "\<And>d. bytes_from_packet encode (packet_new (eptype p) d) = b # d"
      "b \<noteq> 98" "packet_type_try_from b = Inr (eptype p)"
    by (metis bytes_from_packet_text)
  from b(1) [of "edata p"] have "bytes_from_packet encode p = b # edata p" by simp
  with b(2,3) show ?thesis by (auto simp: packet_try_from_def Let_def)
qed

lemma packet_no_separator:
  assumes "eptype p = MessageBinary \<or> SEPARATOR \<notin> set (edata p)"
  shows "SEPARATOR \<notin> set (bytes_from_packet encode p)"
proof (cases "eptype p = MessageBinary")
  case True
  with encode_no_separator show ?thesis by (simp add: bytes_from_packet_def SEPARATOR_def)
next
  case False
  then obtain b where b: "\<And>d. bytes_from_packet encode (packet_new (eptype p) d) = b # d" "b \<noteq> SEPARATOR"
    by (metis bytes_from_packet_text)
  from b(1) [of "edata p"] have "bytes_from_packet encode p = b # edata p" by simp
  with assms False b(2) show ?thesis by simp
qed

end

section \<open>Lemmas on payloads\<close>

text \<open>The scanning loop cuts the bytes at the separators, as \<open>split_on\<close> does.\<close>

lemma bytes_slice_extend:
  "l \<le> i \<Longrightarrow> i < length bs \<Longrightarrow> bytes_slice bs l (i + 1) = bytes_slice bs l i @ [bs ! i]"
  by (simp add: bytes_slice_def Suc_diff_le take_Suc_conv_app_nth)

lemma bytes_slice_rest: "l \<le> i \<Longrightarrow> drop l bs = bytes_slice bs l i @ drop i bs"
  by (metis append_take_drop_id bytes_slice_def drop_drop le_add_diff_inverse2)

definition payload_finish ::
  "(bytes \<Rightarrow> bytes option) \<Rightarrow> bytes \<Rightarrow> nat \<times> eio_packet list \<Rightarrow> eio_error + eio_packet list" where
  "payload_finish decode payload = (\<lambda>(last_index, vec).
     try_bind (packet_try_from decode (bytes_slice payload last_index (length payload))) (\<lambda>p.
     Inr (vec @ [p])))"

lemma payload_loop_split:
  assumes "l \<le> i" and "i \<le> length pl" and "SEPARATOR \<notin> set (bytes_slice pl l i)"
  shows "try_bind (payload_loop decode pl i l vec) (payload_finish decode pl) =
    try_bind (try_map (packet_try_from decode) (split_on SEPARATOR (drop l pl))) (\<lambda>ps. Inr (vec @ ps))"
  using assms
proof (induction decode pl i l vec rule: payload_loop.induct)
  case (1 decode pl i l vec)
  consider "i = length pl" | "i < length pl" "pl ! i = SEPARATOR" | "i < length pl" "pl ! i \<noteq> SEPARATOR"
    using "1.prems"(2) by linarith
  then show ?case
  proof cases
    case 1
    with "1.prems" have "split_on SEPARATOR (drop l pl) = [drop l pl]"
      by (simp add: bytes_slice_def split_on_none)
    with 1 show ?thesis
      by (cases "packet_try_from decode (drop l pl)")
        (auto simp: payload_loop.simps payload_finish_def bytes_slice_def)
  next
    case 2
    have "drop l pl = bytes_slice pl l i @ SEPARATOR # drop (i + 1) pl"
      using 2 "1.prems"(1) by (metis Cons_nth_drop_Suc Suc_eq_plus1 bytes_slice_rest)
    with "1.prems"(3) have "split_on SEPARATOR (drop l pl) =
        bytes_slice pl l i # split_on SEPARATOR (drop (i + 1) pl)"
      by (simp add: split_on_sep)
    with 2 "1.IH"(1) "1.prems" show ?thesis
      by (cases "packet_try_from decode (bytes_slice pl l i)";
          cases "try_map (packet_try_from decode) (split_on SEPARATOR (drop (i + 1) pl))")
        (auto simp: payload_loop.simps [of decode pl i l vec] bytes_slice_def)
  next
    case 3
    with "1.IH"(2) "1.prems" show ?thesis
      by (simp add: payload_loop.simps [of decode pl i l vec] bytes_slice_extend del: One_nat_def add_Suc_right)
  qed
qed

lemma payload_try_from_eq:
  "payload_try_from decode pl = try_map (packet_try_from decode) (split_on SEPARATOR pl)"
proof -
  have "payload_try_from decode pl = try_bind (payload_loop decode pl 0 0 []) (payload_finish decode pl)"
    by (simp add: payload_try_from_def payload_finish_def)
  also have "\<dots> = try_map (packet_try_from decode) (split_on SEPARATOR pl)"
    by (simp add: payload_loop_split bytes_slice_def)
  finally show ?thesis .
qed

lemma payload_buffer_eq:
  "payload_buffer encode ps buf = buf @ concat (map (\<lambda>p. bytes_from_packet encode p @ [SEPARATOR]) ps)"
  by (induction ps arbitrary: buf) auto

lemma concat_separated:
  "ws \<noteq> [] \<Longrightarrow> concat (map (\<lambda>w. w @ [c]) ws) = join_with c ws @ [c]"
  by (induction c ws rule: join_with.induct) auto

lemma bytes_from_payload_eq:
  "bytes_from_payload encode ps =
     (if ps = [] then None else Some (join_with SEPARATOR (map (bytes_from_packet encode) ps)))"
proof (cases "ps = []")
  case False
  then have "payload_buffer encode ps [] = join_with SEPARATOR (map (bytes_from_packet encode) ps) @ [SEPARATOR]"
    using concat_separated [of "map (bytes_from_packet encode) ps" SEPARATOR]
    by (simp add: payload_buffer_eq comp_def)
  with False show ?thesis by (simp add: bytes_from_payload_def)
qed (simp add: bytes_from_payload_def)

text \<open>
  The packets a payload can carry: text packets without a separator byte, messages that
  are not empty, any binary message.
\<close>

definition payload_packet :: "eio_packet \<Rightarrow> bool" where
  "payload_packet p \<longleftrightarrow>
     (eptype p = MessageBinary \<or> SEPARATOR \<notin> set (edata p)) \<and> (eptype p = Message \<longrightarrow> edata p \<noteq> [])"

context base64
begin

lemma payload_pieces_decode:
  assumes "ps \<noteq> []" and "list_all payload_packet ps"
  shows "payload_try_from decode (join_with SEPARATOR (map (bytes_from_packet encode) ps)) = Inr ps"
proof -
  have "split_on SEPARATOR (join_with SEPARATOR (map (bytes_from_packet encode) ps)) =
      map (bytes_from_packet encode) ps"
    using assms packet_no_separator by (auto intro!: split_on_join simp: list_all_iff payload_packet_def)
  moreover have "try_map (packet_try_from decode) (map (bytes_from_packet encode) ps) = Inr ps"
    using assms(2) by (intro try_map_map_Inr) (auto simp: packet_encode_decode list_all_iff payload_packet_def)
  ultimately show ?thesis by (simp add: payload_try_from_eq)
qed

end

lemma length_split_on: "length (split_on c xs) = Suc (count_list xs c)"
  by (induction xs) (auto split: list.splits)

section \<open>Lemmas on the polling body\<close>

text \<open>What one queued message adds to the body.\<close>

definition polling_piece :: "(bytes \<Rightarrow> ustr) \<Rightarrow> bytes \<Rightarrow> ustr" where
  "polling_piece encode bs = (if hd bs = 98 then encode bs else the (from_utf8 bs))"

lemma polling_payload_pieces:
  assumes "list_all (\<lambda>bs. bs \<noteq> [] \<and> (hd bs = 98 \<or> from_utf8 bs \<noteq> None)) bss"
  shows "polling_payload_loop encode bss acc = Some (acc @ join_with (unat SEPARATOR) (map (polling_piece encode) bss))"
  using assms
proof (induction bss arbitrary: acc)
  case (Cons bs bss)
  then show ?case by (cases bss; cases bs) (auto simp: polling_piece_def Let_def)
qed simp

lemma text_first_byte:
  assumes "wf_str s" and "s \<noteq> []" and "hd s \<noteq> 98"
  shows "as_bytes s \<noteq> []" and "hd (as_bytes s) \<noteq> 98"
proof -
  from assms obtain c r where s: "s = c # r" "scalar c" "c \<noteq> 98" by (cases s) auto
  then obtain b bs where b: "as_bytes s = b # bs" by (cases "as_bytes s") auto
  then show "as_bytes s \<noteq> []" by simp
  have "b \<noteq> 98"
  proof
    assume "b = 98"
    with b s have "98 = hd (utf8_char c)" using map_unat_utf8_char [of c]
      by (cases "utf8_char c") auto
    then have "98 \<in> set (utf8_char c)" by (cases "utf8_char c") auto
    with s show False using utf8_char_ascii_byte [of c 98] by simp
  qed
  with b show "hd (as_bytes s) \<noteq> 98" by simp
qed

text \<open>The packets of a text queue: text types, UTF-8 data, fit for a payload.\<close>

definition text_packet :: "eio_packet \<Rightarrow> bool" where
  "text_packet p \<longleftrightarrow>
     eptype p \<noteq> MessageBinary \<and> payload_packet p \<and> from_utf8 (edata p) \<noteq> None"

definition packet_text :: "eio_packet \<Rightarrow> ustr" where
  "packet_text p = packet_type_to_string (eptype p) @ the (from_utf8 (edata p))"

lemma packet_text_bytes:
  "text_packet p \<Longrightarrow> bytes_from_packet encode p = as_bytes (packet_text p)"
  by (auto simp: text_packet_def packet_text_def bytes_from_packet_def from_utf8_Some_iff)

lemma packet_text_wf:
  assumes "text_packet p"
  shows "wf_str (packet_text p) \<and> packet_text p \<noteq> [] \<and> hd (packet_text p) \<noteq> 98"
proof -
  from assms have "\<exists>n. packet_type_to_string (eptype p) = dec n"
    by (cases "eptype p") (auto simp: text_packet_def packet_type_to_string_def)
  then obtain n where n: "packet_type_to_string (eptype p) = dec n" ..
  have "hd (dec n) \<noteq> 98" using dec_digits [of "hd (dec n)" n] by (auto simp: is_ascii_digit_def)
  with assms n show ?thesis
    by (auto simp: text_packet_def packet_text_def from_utf8_Some_iff ascii_wf_str)
qed

lemma as_bytes_join:
  "c < 0x80 \<Longrightarrow> as_bytes (join_with c ss) = join_with (word_of_nat c) (map as_bytes ss)"
  by (induction c ss rule: join_with.induct) simp_all

text \<open>Packets that a polling queue may hold: texts and binary messages.\<close>

definition queue_packet :: "eio_packet \<Rightarrow> bool" where
  "queue_packet p \<longleftrightarrow> text_packet p \<or> eptype p = MessageBinary"

lemma polling_piece_text: "text_packet p \<Longrightarrow> polling_piece encode (bytes_from_packet encode p) = packet_text p"
  using packet_text_wf [of p] text_first_byte [of "packet_text p"] by (simp add: polling_piece_def packet_text_bytes)

lemma polling_piece_binary:
  "polling_piece encode (bytes_from_packet encode (packet_new MessageBinary d)) = encode (98 # as_bytes (encode d))"
  by (simp add: polling_piece_def bytes_from_packet_def)

lemma polling_mixed_loop:
  assumes "list_all queue_packet ps"
  shows "polling_payload_loop encode (map (bytes_from_packet encode) ps) acc =
    Some (acc @ join_with (unat SEPARATOR) (map (\<lambda>p. polling_piece encode (bytes_from_packet encode p)) ps))"
proof -
  have "list_all (\<lambda>bs. bs \<noteq> [] \<and> (hd bs = 98 \<or> from_utf8 bs \<noteq> None)) (map (bytes_from_packet encode) ps)"
  proof -
    have "bytes_from_packet encode p \<noteq> [] \<and> (hd (bytes_from_packet encode p) = 98 \<or> from_utf8 (bytes_from_packet encode p) \<noteq> None)"
      if "queue_packet p" for p
    proof (cases "text_packet p")
      case True
      then show ?thesis using packet_text_wf [of p] text_first_byte [of "packet_text p"] by (simp add: packet_text_bytes)
    next
      case False
      with that show ?thesis by (simp add: queue_packet_def bytes_from_packet_def)
    qed
    with assms show ?thesis by (auto simp: list_all_iff)
  qed
  from polling_payload_pieces [OF this] show ?thesis by (simp add: comp_def)
qed

lemma polling_queue_body:
  assumes "ps \<noteq> []" and "list_all text_packet ps"
  shows "build_polling_payload encode (map (bytes_from_packet encode) ps) =
    Some (join_with (unat SEPARATOR) (map packet_text ps))"
proof -
  have "list_all queue_packet ps" using assms(2) by (auto simp: list_all_iff queue_packet_def)
  moreover have "map (\<lambda>p. polling_piece encode (bytes_from_packet encode p)) ps = map packet_text ps"
    using assms(2) by (auto simp: list_all_iff polling_piece_text)
  ultimately have "polling_payload_loop encode (map (bytes_from_packet encode) ps) [] =
      Some (join_with (unat SEPARATOR) (map packet_text ps))"
    using polling_mixed_loop [of ps encode "[]"] by (simp del: map_eq_conv)
  moreover have "join_with (unat SEPARATOR) (map packet_text ps) \<noteq> []"
    using assms packet_text_wf by (cases ps; cases "tl ps") auto
  ultimately show ?thesis by (simp add: build_polling_payload_def)
qed

context base64
begin

lemma polling_body_decode:
  assumes "ps \<noteq> []" and "list_all text_packet ps"
  shows "payload_try_from decode (as_bytes (join_with (unat SEPARATOR) (map packet_text ps))) = Inr ps"
proof -
  have "as_bytes (join_with (unat SEPARATOR) (map packet_text ps)) =
      join_with SEPARATOR (map as_bytes (map packet_text ps))"
    by (simp add: as_bytes_join SEPARATOR_def del: map_map)
  also have "\<dots> = join_with SEPARATOR (map (bytes_from_packet encode) ps)"
    using assms(2) by (intro arg_cong [where f = "join_with SEPARATOR"])
      (auto simp: list_all_iff packet_text_bytes)
  moreover have "list_all payload_packet ps"
    using assms(2) by (auto simp: list_all_iff text_packet_def)
  ultimately show ?thesis using payload_pieces_decode [OF assms(1)] by simp
qed

end

text \<open>
  A binary message spoils the whole response: it has been queued as the letter b and its
  base64 text, the body has this encoded a second time, and the decoding of the body stops
  there with a packet of type Y (byte 89).
\<close>

context base64
begin

lemma polling_piece_pure:
  assumes "queue_packet p"
  shows "SEPARATOR \<notin> set (as_bytes (polling_piece encode (bytes_from_packet encode p)))"
proof (cases "text_packet p")
  case True
  then have "SEPARATOR \<notin> set (bytes_from_packet encode p)"
    by (intro packet_no_separator) (auto simp: text_packet_def payload_packet_def)
  then show ?thesis by (simp only: polling_piece_text [OF True] packet_text_bytes [OF True, of encode, symmetric] simp_thms)
next
  case False
  with assms obtain d where "p = packet_new MessageBinary d" by (cases p) (auto simp: queue_packet_def packet_new_def)
  then show ?thesis using encode_no_separator by (simp add: polling_piece_binary SEPARATOR_def)
qed

lemma mixed_body_refused:
  assumes "list_all text_packet ts" and "list_all queue_packet rest"
  shows "\<exists>body. build_polling_payload encode (map (bytes_from_packet encode) (ts @ packet_new MessageBinary d # rest)) = Some body \<and>
    payload_try_from decode (as_bytes body) = Inl (InvalidPacketType 89)"
proof -
  let ?ps = "ts @ packet_new MessageBinary d # rest" and ?m = "98 # as_bytes (encode d)"
  let ?pieces = "map (\<lambda>p. polling_piece encode (bytes_from_packet encode p)) ?ps"
  have ps: "list_all queue_packet ?ps" using assms by (auto simp: list_all_iff queue_packet_def)
  obtain r where r: "encode ?m = 89 # r"
    using encode_first [of 98 "as_bytes (encode d)"] by (auto simp: b64_char_def)
  have "89 # r \<in> set ?pieces" using r by (simp add: polling_piece_binary)
  from join_with_superset [OF this, of "unat SEPARATOR"] have "join_with (unat SEPARATOR) ?pieces \<noteq> []" by auto
  then have "build_polling_payload encode (map (bytes_from_packet encode) ?ps) = Some (join_with (unat SEPARATOR) ?pieces)"
    using polling_mixed_loop [OF ps, of encode "[]"] by (auto simp: build_polling_payload_def simp del: map_append)
  moreover have "as_bytes (join_with (unat SEPARATOR) ?pieces) = join_with SEPARATOR (map as_bytes ?pieces)"
    by (simp add: as_bytes_join SEPARATOR_def del: map_map map_append)
  moreover have "split_on SEPARATOR (join_with SEPARATOR (map as_bytes ?pieces)) = map as_bytes ?pieces"
    using ps polling_piece_pure by (intro split_on_join) (auto simp: list_all_iff)
  moreover have "try_map (packet_try_from decode) (map as_bytes ?pieces) = Inl (InvalidPacketType 89)"
  proof -
    have "packet_try_from decode (as_bytes (polling_piece encode (bytes_from_packet encode p))) = Inr p" if "p \<in> set ts" for p
    proof -
      have p: "text_packet p" using that assms(1) by (simp add: list_all_iff)
      then have "packet_try_from decode (bytes_from_packet encode p) = Inr p"
        by (auto simp: packet_encode_decode text_packet_def payload_packet_def)
      then show ?thesis by (simp only: polling_piece_text [OF p] packet_text_bytes [OF p, of encode, symmetric])
    qed
    then have "try_map (packet_try_from decode) (map (\<lambda>p. as_bytes (polling_piece encode (bytes_from_packet encode p))) ts) = Inr ts"
      by (rule try_map_map_Inr)
    moreover have "packet_try_from decode (as_bytes (encode ?m)) = Inl (InvalidPacketType 89)"
      using r by (simp add: codec_simps)
    ultimately show ?thesis by (simp add: try_map_append polling_piece_binary comp_def)
  qed
  ultimately show ?thesis by (simp add: payload_try_from_eq del: map_append)
qed

end

section \<open>Properties\<close>

text \<open>
  A packet that is encoded and decoded again is the same packet. The only exception is
  a text message without data, which decoding refuses as incomplete.
\<close>

theorem packet_roundtrip:
  assumes "base64 encode decode"
  shows "packet_try_from decode (bytes_from_packet encode p) =
    (if eptype p = Message \<and> edata p = [] then Inl IncompletePacket else Inr p)"
  using assms by (rule base64.packet_encode_decode)

theorem packet_roundtrip_witness:
  "packet_try_from rfc_decode (bytes_from_packet rfc_encode (packet_new MessageBinary [72, 105])) =
     Inr (packet_new MessageBinary [72, 105])"
  using packet_roundtrip [OF rfc4648.base64_axioms, of "packet_new MessageBinary [72, 105]"] by simp

text \<open>
  C22: The index loop that decodes a payload is equivalent to cutting the bytes at every
  separator and decoding each piece, with the first error returned.
\<close>

theorem payload_decode_split:
  "payload_try_from decode bs = try_map (packet_try_from decode) (split_on SEPARATOR bs)"
  by (rule payload_try_from_eq)

text \<open>
  C7: A non-empty payload of packets that are separator-free text, non-empty messages or
  binary messages is encoded without a panic and decodes to the same packets in order.
\<close>

theorem payload_roundtrip:
  assumes "base64 encode decode" and "ps \<noteq> []" and "list_all payload_packet ps"
  shows "\<exists>bs. bytes_from_payload encode ps = Some bs \<and> payload_try_from decode bs = Inr ps"
  using base64.payload_pieces_decode [OF assms] assms(2) by (simp add: bytes_from_payload_eq)

theorem payload_roundtrip_witness:
  "\<exists>bs. bytes_from_payload rfc_encode [packet_new Close [72], packet_new MessageBinary [0x1e]] = Some bs \<and>
     payload_try_from rfc_decode bs = Inr [packet_new Close [72], packet_new MessageBinary [0x1e]]"
  by (rule payload_roundtrip [OF rfc4648.base64_axioms])
    (simp_all add: payload_packet_def SEPARATOR_def)

text \<open>
  Text packets queued on a polling connection are delivered: the body that the server
  builds from the queue decodes, on the client, to the same packets in order.
\<close>

theorem polling_text_delivery:
  assumes "base64 encode decode" and "ps \<noteq> []" and "list_all text_packet ps"
  shows "\<exists>body. build_polling_payload encode (map (bytes_from_packet encode) ps) = Some body \<and>
    payload_try_from decode (as_bytes body) = Inr ps"
  using base64.polling_body_decode [OF assms] polling_queue_body [OF assms(2,3)] by simp

theorem polling_text_delivery_witness:
  "\<exists>body. build_polling_payload rfc_encode
      (map (bytes_from_packet rfc_encode) [packet_new Ping [], packet_new Message [50, 91]]) = Some body \<and>
    payload_try_from rfc_decode (as_bytes body) = Inr [packet_new Ping [], packet_new Message [50, 91]]"
proof (rule polling_text_delivery [OF rfc4648.base64_axioms])
  have "from_utf8 [50, 91] = Some [50, 91]" by (simp add: from_utf8_Some_iff scalar_def)
  then show "list_all text_packet [packet_new Ping [], packet_new Message [50, 91]]"
    by (simp add: text_packet_def payload_packet_def SEPARATOR_def)
qed simp

end
