(* ===== verification/Json.thy ===== *)
theory Json
  imports Rust_Std "HOL-Library.List_Lexorder"
begin

text \<open>
  The document type \<open>serde_json::Value\<close> with the accessors the sources call, and the
  interface of the \<open>serde_json\<close> crate as a locale: printing and parsing of documents,
  with what the sources rely on. The crate is not part of the repository; a compact
  printer with its parser is an instance.
\<close>

section \<open>Documents\<close>

text \<open>
  A number is a non-negative integer of 64 bits, a negative integer of 64 bits or a float
  (its bit pattern). An object is the sequence of its members in the order of its keys.
\<close>

datatype json_number = PosInt u64 | NegInt int | Float u64

datatype json =
    JNull
  | JBool bool
  | JNumber json_number
  | JString ustr
  | JArray "json list"
  | JObject "(ustr \<times> json) list"

text \<open>\<open>Value::get\<close> with a string index: the member of an object.\<close>

fun json_get :: "json \<Rightarrow> ustr \<Rightarrow> json option" where
  "json_get (JObject m) k = map_of m k"
| "json_get v k = None"

text \<open>\<open>Value::as_u64\<close>.\<close>

fun json_as_u64 :: "json \<Rightarrow> u64 option" where
  "json_as_u64 (JNumber (PosInt n)) = Some n"
| "json_as_u64 v = None"

text \<open>
  The documents the crate can hold: scalar values in strings, distinct keys, negative
  integers within 64 bits; and those without floats, which print exactly.
\<close>

fun wf_number :: "json_number \<Rightarrow> bool" where
  "wf_number (PosInt n) = True"
| "wf_number (NegInt i) = (- (2 ^ 63) \<le> i \<and> i < 0)"
| "wf_number (Float f) = False"

fun wf_json :: "json \<Rightarrow> bool" where
  "wf_json JNull = True"
| "wf_json (JBool b) = True"
| "wf_json (JNumber n) = wf_number n"
| "wf_json (JString s) = wf_str s"
| "wf_json (JArray vs) = list_all wf_json vs"
| "wf_json (JObject m) = (distinct (map fst m) \<and> list_all (\<lambda>(k, v). wf_str k \<and> wf_json v) m)"

text \<open>
  The parser keeps the members of an object sorted by their keys and refuses documents that
  are nested more deeply than 127 levels.
\<close>

fun sort_members :: "json \<Rightarrow> json" where
  "sort_members (JArray vs) = JArray (map sort_members vs)"
| "sort_members (JObject m) = JObject (sort_key fst (map (\<lambda>(k, v). (k, sort_members v)) m))"
| "sort_members v = v"

fun shallow :: "nat \<Rightarrow> json \<Rightarrow> bool" where
  "shallow n (JArray vs) = (0 < n \<and> list_all (shallow (n - 1)) vs)"
| "shallow n (JObject m) = (0 < n \<and> list_all (\<lambda>(k, v). shallow (n - 1) v) m)"
| "shallow n v = True"

abbreviation nesting_limit :: nat where
  "nesting_limit \<equiv> 127"

text \<open>A document as the crate keeps it, with sorted keys, of at most a given number of levels.\<close>

fun json_value :: "nat \<Rightarrow> json \<Rightarrow> bool" where
  "json_value n JNull = True"
| "json_value n (JBool b) = True"
| "json_value n (JNumber k) = wf_number k"
| "json_value n (JString s) = wf_str s"
| "json_value n (JArray vs) = (0 < n \<and> list_all (json_value (n - 1)) vs)"
| "json_value n (JObject m) =
     (0 < n \<and> distinct (map fst m) \<and> sorted (map fst m) \<and> list_all (\<lambda>(k, v). wf_str k \<and> json_value (n - 1) v) m)"

lemma json_value_wf: "json_value n v \<Longrightarrow> wf_json v \<and> shallow n v \<and> sort_members v = v"
proof (induction v arbitrary: n)
  case (JArray vs)
  then show ?case by (auto simp: list_all_iff intro!: map_idI)
next
  case (JObject m)
  have member: "wf_str k \<and> wf_json v \<and> shallow (n - 1) v \<and> sort_members v = v" if "(k, v) \<in> set m" for k v
    using JObject.IH [of "(k, v)" v "n - 1"] JObject.prems that by (auto simp: list_all_iff prod_set_simps)
  then have "map (\<lambda>(k, v). (k, sort_members v)) m = m" by (intro map_idI) auto
  moreover have "sort_key fst m = m" using JObject.prems by (simp add: sort_key_id_if_sorted)
  ultimately show ?case using JObject.prems member by (auto simp: list_all_iff)
qed simp_all

section \<open>The interface\<close>

text \<open>
  What the sources rely on: a printed document within the nesting limit is read back, with
  its members sorted; arrays and objects start with their bracket; printed text is well formed
  and holds no control character, since compact output has no white space and strings escape
  theirs; the empty text is no document.
\<close>

locale serde_json =
  fixes to_string :: "json \<Rightarrow> ustr"
    and from_str :: "ustr \<Rightarrow> json option"
  assumes from_str_to_string: "wf_json v \<Longrightarrow> shallow nesting_limit v \<Longrightarrow> from_str (to_string v) = Some (sort_members v)"
    and to_string_array: "\<exists>r. to_string (JArray vs) = 91 # r"
    and to_string_object: "\<exists>r. to_string (JObject m) = 123 # r"
    and to_string_wf: "wf_json v \<Longrightarrow> wf_str (to_string v)"
    and to_string_no_control: "wf_json v \<Longrightarrow> c \<in> set (to_string v) \<Longrightarrow> 0x20 \<le> c"
    and from_str_empty: "from_str [] = None"
begin

lemma value_read_back: "json_value nesting_limit v \<Longrightarrow> from_str (to_string v) = Some v"
  using json_value_wf [of nesting_limit v] from_str_to_string [of v] by simp

lemma value_text: "json_value n v \<Longrightarrow> wf_str (to_string v)" "json_value n v \<Longrightarrow> c \<in> set (to_string v) \<Longrightarrow> 0x20 \<le> c"
  using json_value_wf [of n v] to_string_wf [of v] to_string_no_control [of v c] by simp_all

end

section \<open>The compact instance\<close>

definition hex_digit :: "nat \<Rightarrow> uchar" where
  "hex_digit n = (if n < 10 then 48 + n else 97 + (n - 10))"

definition hex_val :: "uchar \<Rightarrow> nat option" where
  "hex_val c =
     (if 48 \<le> c \<and> c \<le> 57 then Some (c - 48)
      else if 97 \<le> c \<and> c \<le> 102 then Some (c - 97 + 10)
      else if 65 \<le> c \<and> c \<le> 70 then Some (c - 65 + 10) else None)"

definition escape_char :: "uchar \<Rightarrow> ustr" where
  "escape_char c =
     (if c = 34 then [92, 34] else if c = 92 then [92, 92]
      else if c = 8 then [92, 98] else if c = 9 then [92, 116] else if c = 10 then [92, 110]
      else if c = 12 then [92, 102] else if c = 13 then [92, 114]
      else if c < 0x20 then [92, 117, 48, 48, hex_digit (c div 16), hex_digit (c mod 16)]
      else [c])"

definition print_string :: "ustr \<Rightarrow> ustr" where
  "print_string s = 34 # concat (map escape_char s) @ [34]"

fun print_number :: "json_number \<Rightarrow> ustr" where
  "print_number (PosInt n) = dec (unat n)"
| "print_number (NegInt i) = 45 # dec (nat (- i))"
| "print_number (Float f) = str ''0.0''"

fun print_json :: "json \<Rightarrow> ustr" where
  "print_json JNull = str ''null''"
| "print_json (JBool b) = (if b then str ''true'' else str ''false'')"
| "print_json (JNumber n) = print_number n"
| "print_json (JString s) = print_string s"
| "print_json (JArray vs) = 91 # join_with 44 (map print_json vs) @ [93]"
| "print_json (JObject m) =
     123 # join_with 44 (map (\<lambda>(k, v). print_string k @ 58 # print_json v) m) @ [125]"

definition unescape :: "uchar \<Rightarrow> uchar option" where
  "unescape e =
     (if e = 34 \<or> e = 92 \<or> e = 47 then Some e
      else if e = 98 then Some 8 else if e = 116 then Some 9 else if e = 110 then Some 10
      else if e = 102 then Some 12 else if e = 114 then Some 13 else None)"

text \<open>The body of a string literal, from after its opening quote.\<close>

fun parse_string :: "ustr \<Rightarrow> (ustr \<times> ustr) option" where
  "parse_string [] = None"
| "parse_string (c # s) =
     (if c = 34 then Some ([], s)
      else if c = 92 then
        (case s of
           [] \<Rightarrow> None
         | e # t \<Rightarrow>
             if e = 117 then
               (case t of
                  h1 # h2 # h3 # h4 # u \<Rightarrow>
                    (case (hex_val h1, hex_val h2, hex_val h3, hex_val h4) of
                       (Some w, Some x, Some y, Some z) \<Rightarrow>
                         map_option (apfst (Cons (w * 4096 + x * 256 + y * 16 + z))) (parse_string u)
                     | _ \<Rightarrow> None)
                | _ \<Rightarrow> None)
             else (case unescape e of
                 None \<Rightarrow> None
               | Some x \<Rightarrow> map_option (apfst (Cons x)) (parse_string t)))
      else if c < 0x20 then None
      else map_option (apfst (Cons c)) (parse_string s))"

text \<open>Numbers are read up to the first character that is no digit.\<close>

definition parse_number :: "ustr \<Rightarrow> (json \<times> ustr) option" where
  "parse_number s =
     map_option (\<lambda>n. (JNumber (PosInt (word_of_nat n)), dropWhile is_ascii_digit s))
       (parse_uint (2 ^ 64 - 1) (takeWhile is_ascii_digit s))"

definition parse_negative :: "ustr \<Rightarrow> (json \<times> ustr) option" where
  "parse_negative s =
     map_option (\<lambda>n. (JNumber (NegInt (- int n)), dropWhile is_ascii_digit s))
       (parse_uint (2 ^ 63) (takeWhile is_ascii_digit s))"

definition parse_literal :: "ustr \<Rightarrow> json \<Rightarrow> ustr \<Rightarrow> (json \<times> ustr) option" where
  "parse_literal l v s = (if take (length l) s = l then Some (v, drop (length l) s) else None)"

text \<open>Recursive descent; the first argument bounds the number of nested calls.\<close>

fun parse_value :: "nat \<Rightarrow> ustr \<Rightarrow> (json \<times> ustr) option"
  and parse_elements :: "nat \<Rightarrow> ustr \<Rightarrow> (json list \<times> ustr) option"
  and parse_members :: "nat \<Rightarrow> ustr \<Rightarrow> ((ustr \<times> json) list \<times> ustr) option" where
  "parse_value (Suc n) (c # s) =
     (if c = 110 then parse_literal (str ''ull'') JNull s
      else if c = 116 then parse_literal (str ''rue'') (JBool True) s
      else if c = 102 then parse_literal (str ''alse'') (JBool False) s
      else if c = 34 then map_option (apfst JString) (parse_string s)
      else if c = 91 then
        (if s \<noteq> [] \<and> hd s = 93 then Some (JArray [], tl s)
         else map_option (apfst JArray) (parse_elements n s))
      else if c = 123 then
        (if s \<noteq> [] \<and> hd s = 125 then Some (JObject [], tl s)
         else map_option (apfst JObject) (parse_members n s))
      else if c = 45 then parse_negative s
      else if is_ascii_digit c then parse_number (c # s)
      else None)"
| "parse_value _ _ = None"
| "parse_elements (Suc n) s =
     (case parse_value n s of
        Some (v, c # t) \<Rightarrow>
          if c = 44 then map_option (apfst (Cons v)) (parse_elements n t)
          else if c = 93 then Some ([v], t) else None
      | _ \<Rightarrow> None)"
| "parse_elements 0 s = None"
| "parse_members (Suc n) (q # s) =
     (if q = 34 then
        (case parse_string s of
           Some (k, c # t) \<Rightarrow>
             if c = 58 then
               (case parse_value n t of
                  Some (v, d # u) \<Rightarrow>
                    if d = 44 then map_option (apfst (Cons (k, v))) (parse_members n u)
                    else if d = 125 then Some ([(k, v)], u) else None
                | _ \<Rightarrow> None)
             else None
         | _ \<Rightarrow> None)
      else None)"
| "parse_members _ _ = None"

definition parse_json :: "ustr \<Rightarrow> json option" where
  "parse_json s =
     (case parse_value (length s) s of
        Some (v, []) \<Rightarrow> if shallow nesting_limit v then Some (sort_members v) else None
      | _ \<Rightarrow> None)"

lemma hex_val_digit [simp]: "n < 16 \<Longrightarrow> hex_val (hex_digit n) = Some n"
  by (auto simp: hex_val_def hex_digit_def)

lemma hex_val_zero [simp]: "hex_val 48 = Some 0"
  by (simp add: hex_val_def)

lemma parse_escaped:
  "parse_string (escape_char c @ s) = map_option (apfst (Cons c)) (parse_string s)"
proof (cases "c < 0x20")
  case True
  then have "c div 16 < 16" and "c div 16 * 16 + c mod 16 = c" by auto
  with True show ?thesis by (auto simp: escape_char_def unescape_def)
qed (auto simp: escape_char_def unescape_def)

lemma parse_print_string: "parse_string (concat (map escape_char s) @ 34 # r) = Some (s, r)"
  by (induction s) (simp_all add: parse_escaped)

definition ends_number :: "ustr \<Rightarrow> bool" where
  "ends_number r \<longleftrightarrow> (r = [] \<or> \<not> is_ascii_digit (hd r))"

lemma digits_of_dec:
  "ends_number r \<Longrightarrow> takeWhile is_ascii_digit (dec n @ r) = dec n"
  "ends_number r \<Longrightarrow> dropWhile is_ascii_digit (dec n @ r) = r"
  using takeWhile_all_append [of "dec n" is_ascii_digit r] dec_digits
  by (auto simp: ends_number_def)

lemma ends_number_simps [simp]:
  "ends_number []"
  "ends_number (c # r) \<longleftrightarrow> \<not> is_ascii_digit c"
  by (auto simp: ends_number_def)

lemma punctuation_no_digit [simp]:
  "\<not> is_ascii_digit 44" "\<not> is_ascii_digit 93" "\<not> is_ascii_digit 125"
  by (simp_all add: is_ascii_digit_def)

lemma dec_first: "\<exists>c r. dec n = c # r \<and> is_ascii_digit c"
proof -
  obtain c r where "dec n = c # r" by (cases "dec n") auto
  with dec_digits [of c n] show ?thesis by auto
qed

lemma parse_value_dec:
  assumes "ends_number r"
  shows "parse_value (Suc n) (dec (unat (k :: u64)) @ r) = Some (JNumber (PosInt k), r)"
proof -
  obtain c t where d: "dec (unat k) = c # t" "is_ascii_digit c" using dec_first by blast
  have "parse_number (dec (unat k) @ r) = Some (JNumber (PosInt k), r)"
    using unat_le_max [of k] assms by (simp add: parse_number_def digits_of_dec)
  with d show ?thesis by (auto simp: is_ascii_digit_def)
qed

lemma parse_value_negative:
  assumes "ends_number r" and "- (2 ^ 63) \<le> i" and "i < 0"
  shows "parse_negative (dec (nat (- i)) @ r) = Some (JNumber (NegInt i), r)"
  using assms by (simp add: parse_negative_def digits_of_dec)

lemma print_json_first: "\<exists>c r. print_json v = c # r \<and> c \<noteq> 93"
proof (cases v)
  case (JNumber n)
  have "\<exists>c r. dec k = c # r \<and> c \<noteq> 93" for k
    using dec_first [of k] by (auto simp: is_ascii_digit_def)
  with JNumber show ?thesis by (cases n) auto
qed (auto simp: print_string_def)

lemma parse_elements_print:
  assumes "vs \<noteq> []"
    and "\<And>v n r. v \<in> set vs \<Longrightarrow> length (print_json v) \<le> n \<Longrightarrow> ends_number r \<Longrightarrow>
      parse_value n (print_json v @ r) = Some (v, r)"
    and "length (join_with 44 (map print_json vs)) < n"
  shows "parse_elements n (join_with 44 (map print_json vs) @ 93 # r) = Some (vs, r)"
  using assms
proof (induction vs arbitrary: n rule: list_nonempty_induct)
  case (single v)
  then obtain m where "n = Suc m" "length (print_json v) \<le> m" by (cases n) auto
  with single show ?case by simp
next
  case (cons v vs)
  from cons.hyps obtain w ws where vs: "vs = w # ws" by (cases vs) auto
  from cons.prems(2) vs obtain m where m: "n = Suc m" "length (print_json v) \<le> m"
      "length (join_with 44 (map print_json vs)) < m"
    by (cases n) auto
  from m cons.prems(1) [of v m] cons.IH [of m] cons.prems(1) vs show ?case by simp
qed

lemma parse_members_print:
  assumes "m \<noteq> []"
    and "\<And>k v n r. (k, v) \<in> set m \<Longrightarrow> length (print_json v) \<le> n \<Longrightarrow> ends_number r \<Longrightarrow>
      parse_value n (print_json v @ r) = Some (v, r)"
    and "length (join_with 44 (map (\<lambda>(k, v). print_string k @ 58 # print_json v) m)) < n"
  shows "parse_members n (join_with 44 (map (\<lambda>(k, v). print_string k @ 58 # print_json v) m) @ 125 # r)
    = Some (m, r)"
  using assms
proof (induction m arbitrary: n rule: list_nonempty_induct)
  case (single kv)
  obtain k v where kv: "kv = (k, v)" by (cases kv)
  with single.prems(2) obtain p where "n = Suc p" "length (print_json v) \<le> p" by (cases n) auto
  with single.prems(1) [of k v p] kv show ?case by (simp add: print_string_def parse_print_string)
next
  case (cons kv m)
  obtain k v where kv: "kv = (k, v)" by (cases kv)
  from cons.hyps obtain w ws where m: "m = w # ws" by (cases m) auto
  from cons.prems(2) m kv obtain p where p: "n = Suc p" "length (print_json v) \<le> p"
      "length (join_with 44 (map (\<lambda>(k, v). print_string k @ 58 # print_json v) m)) < p"
    by (cases n) auto
  have "parse_members p (join_with 44 (map (\<lambda>(k, v). print_string k @ 58 # print_json v) m) @ 125 # r)
      = Some (m, r)"
    by (rule cons.IH) (use cons.prems(1) p in auto)
  with p cons.prems(1) [of k v p] m kv show ?case
    by (simp add: print_string_def parse_print_string)
qed

lemma parse_value_print:
  "wf_json v \<Longrightarrow> length (print_json v) \<le> n \<Longrightarrow> ends_number r \<Longrightarrow>
     parse_value n (print_json v @ r) = Some (v, r)"
proof (induction v arbitrary: n r)
  case (JNumber k)
  then obtain p where "n = Suc p" using dec_first by (cases n; cases k) fastforce+
  with JNumber show ?case by (cases k) (auto simp: parse_value_dec parse_value_negative)
next
  case (JString s)
  then obtain p where "n = Suc p" by (cases n) (auto simp: print_string_def)
  then show ?case by (simp add: print_string_def parse_print_string)
next
  case (JArray vs)
  then obtain p where p: "n = Suc p" by (cases n) auto
  show ?case
  proof (cases "vs = []")
    case False
    obtain c t where "join_with 44 (map print_json vs) = c # t" "c \<noteq> 93"
      using False print_json_first [of "hd vs"] by (cases vs; cases "tl vs") auto
    moreover have "parse_elements p (join_with 44 (map print_json vs) @ 93 # r) = Some (vs, r)"
      by (rule parse_elements_print) (use False JArray p in \<open>auto simp: list_all_iff\<close>)
    ultimately show ?thesis using p by simp
  qed (use p in simp)
next
  case (JObject m)
  then obtain p where p: "n = Suc p" by (cases n) auto
  show ?case
  proof (cases "m = []")
    case False
    obtain t where "join_with 44 (map (\<lambda>(k, v). print_string k @ 58 # print_json v) m) = 34 # t"
      using False by (cases m; cases "tl m") (auto simp: print_string_def)
    moreover have "parse_members p
        (join_with 44 (map (\<lambda>(k, v). print_string k @ 58 # print_json v) m) @ 125 # r) = Some (m, r)"
      by (rule parse_members_print) (use False JObject p in \<open>fastforce simp: list_all_iff\<close>)+
    ultimately show ?thesis using p by simp
  qed (use p in simp)
next
  case JNull
  then obtain p where "n = Suc p" by (cases n) auto
  then show ?case by (simp add: parse_literal_def)
next
  case (JBool b)
  then obtain p where "n = Suc p" by (cases n) (auto split: if_splits)
  then show ?case by (simp add: parse_literal_def)
qed

lemma join_with_all:
  "P c \<Longrightarrow> list_all (list_all P) ws \<Longrightarrow> list_all P (join_with c ws)"
  by (induction c ws rule: join_with.induct) auto

text \<open>
  A character class that holds the printable ASCII range and, of a string, every
  character that is printed as it is, holds every character of the output.
\<close>

definition printable_class :: "(uchar \<Rightarrow> bool) \<Rightarrow> bool" where
  "printable_class P \<longleftrightarrow> (\<forall>c. 0x20 \<le> c \<and> c < 0x7F \<longrightarrow> P c)"

lemma print_string_class:
  assumes "printable_class P" and "list_all (\<lambda>c. 0x20 \<le> c \<longrightarrow> P c) s"
  shows "list_all P (print_string s)"
proof -
  have "list_all P (escape_char c)" if "0x20 \<le> c \<longrightarrow> P c" for c
    using that assms(1) by (auto simp: escape_char_def printable_class_def hex_digit_def)
  with assms(2) have "list_all P (concat (map escape_char s))"
    by (induction s) (auto simp: list_all_append)
  with assms(1) show ?thesis by (auto simp: print_string_def printable_class_def)
qed

lemma dec_class: "printable_class P \<Longrightarrow> list_all P (dec n)"
  using dec_digits [of _ n] by (fastforce simp: list_all_iff printable_class_def is_ascii_digit_def)

lemma print_json_class:
  assumes P: "printable_class P" and "\<And>c. scalar c \<Longrightarrow> 0x20 \<le> c \<Longrightarrow> P c" and "wf_json v"
  shows "list_all P (print_json v)"
  using assms(3)
proof (induction v)
  case (JNumber k)
  with P show ?case by (cases k) (auto simp: dec_class, auto simp: printable_class_def)
next
  case (JString s)
  with assms(2) have "list_all (\<lambda>c. 0x20 \<le> c \<longrightarrow> P c) s" by (auto simp: wf_str_def list_all_iff)
  then show ?case using print_string_class [OF P] by simp
next
  case (JArray vs)
  then have "list_all (list_all P) (map print_json vs)" by (auto simp: list_all_iff)
  with P show ?case by (auto simp: printable_class_def intro!: join_with_all)
next
  case (JObject m)
  have "list_all P (print_string k @ 58 # print_json v)" if "(k, v) \<in> set m" for k v
  proof -
    from that JObject.prems have k: "wf_str k" "wf_json v" by (auto simp: list_all_iff)
    with JObject.IH [OF that] have "list_all P (print_json v)" by (simp add: prod_set_simps)
    moreover from k(1) assms(2) have "list_all P (print_string k)"
      by (intro print_string_class [OF P]) (auto simp: wf_str_def list_all_iff)
    moreover from P have "P 58" by (simp add: printable_class_def)
    ultimately show ?thesis by simp
  qed
  then have "list_all (list_all P) (map (\<lambda>(k, v). print_string k @ 58 # print_json v) m)"
    by (auto simp: list_all_iff)
  with P show ?case by (auto simp: printable_class_def intro!: join_with_all)
qed (use P in \<open>auto simp: printable_class_def\<close>)

interpretation compact: serde_json print_json parse_json
proof unfold_locales
  fix v
  assume v: "wf_json v"
  then show "parse_json (print_json v) = Some (sort_members v)" if "shallow nesting_limit v"
    using that parse_value_print [of v "length (print_json v)" "[]"] by (simp add: parse_json_def)
  from v have "list_all (\<lambda>c. 0x20 \<le> c) (print_json v)"
    by (rule print_json_class [rotated 2]) (auto simp: printable_class_def)
  then show "0x20 \<le> c" if "c \<in> set (print_json v)" for c
    using that by (auto simp: list_all_iff)
  from v show "wf_str (print_json v)"
    unfolding wf_str_def by (rule print_json_class [rotated 2]) (auto simp: printable_class_def scalar_def)
qed (auto simp: parse_json_def)

end



