(* ===== verification/Sio_Packet.thy ===== *)
theory Sio_Packet
  imports Engine_Packet Json
begin

text \<open>
  Socket.IO packets (\<open>socketio/src/packet.rs\<close>, \<open>socketio/src/error.rs\<close>): packet types,
  the text form of a packet with its decoder, and the generator of acknowledgement ids.
  Printing and parsing of JSON documents are arguments.
\<close>

section \<open>Errors\<close>

text \<open>As in the Engine.IO crate, errors of other crates carry nothing.\<close>

datatype sio_error =
    SInvalidPacketType uchar
  | SIncompletePacket
  | SInvalidPacket
  | SInvalidUtf8
  | SInvalidBase64
  | SInvalidUrl
  | SInvalidUrlScheme ustr
  | SInvalidHandshake ustr
  | SIllegalActionBeforeOpen
  | SInvalidJson
  | SInvalidPoisonedLock
  | SIncompleteIo
  | SInvalidInteger
  | SIncompleteResponseFromEngineIo eio_error
  | SInvalidAttachmentPacketType u8
  | SInvalidReconnect ustr
  | SStoppedEngineIoSocket

section \<open>Packets\<close>

datatype sio_packet_type =
  Connect | Disconnect | Event | Ack | ConnectError | BinaryEvent | BinaryAck

record sio_packet =
  ptype :: sio_packet_type
  nsp :: ustr
  pdata :: "json option"
  pid :: "usize option"
  attachment_count :: u8
  attachments :: "bytes list option"

definition sio_packet_default :: sio_packet where
  "sio_packet_default =
     \<lparr>ptype = Event, nsp = str ''/'', pdata = None, pid = None,
      attachment_count = 0, attachments = None\<rparr>"

definition sio_packet_new ::
  "sio_packet_type \<Rightarrow> ustr \<Rightarrow> json option \<Rightarrow> usize option \<Rightarrow> u8 \<Rightarrow> bytes list option \<Rightarrow> sio_packet" where
  "sio_packet_new t n d i c a =
     \<lparr>ptype = t, nsp = n, pdata = d, pid = i, attachment_count = c, attachments = a\<rparr>"

fun sio_packet_type_as_u8 :: "sio_packet_type \<Rightarrow> u8" where
  "sio_packet_type_as_u8 Connect = 0"
| "sio_packet_type_as_u8 Disconnect = 1"
| "sio_packet_type_as_u8 Event = 2"
| "sio_packet_type_as_u8 Ack = 3"
| "sio_packet_type_as_u8 ConnectError = 4"
| "sio_packet_type_as_u8 BinaryEvent = 5"
| "sio_packet_type_as_u8 BinaryAck = 6"

definition sio_packet_type_from_char :: "uchar \<Rightarrow> sio_error + sio_packet_type" where
  "sio_packet_type_from_char c =
     (if c = 48 then Inr Connect
      else if c = 49 then Inr Disconnect
      else if c = 50 then Inr Event
      else if c = 51 then Inr Ack
      else if c = 52 then Inr ConnectError
      else if c = 53 then Inr BinaryEvent
      else if c = 54 then Inr BinaryAck
      else Inl (SInvalidPacketType c))"

definition sio_packet_type_from_u8 :: "u8 \<Rightarrow> sio_error + sio_packet_type" where
  "sio_packet_type_from_u8 b = sio_packet_type_from_char (unat b)"

section \<open>Encoding\<close>

definition has_attachment_count :: "sio_packet_type \<Rightarrow> bool" where
  "has_attachment_count t \<longleftrightarrow> t = BinaryAck \<or> t = BinaryEvent"

text \<open>The characters before the data: type, attachment count, namespace, id.\<close>

definition sio_packet_head :: "sio_packet \<Rightarrow> ustr" where
  "sio_packet_head p =
     dec (unat (sio_packet_type_as_u8 (ptype p)))
     @ (if has_attachment_count (ptype p) then dec (unat (attachment_count p)) @ str ''-'' else [])
     @ (if nsp p \<noteq> str ''/'' then nsp p @ str '','' else [])
     @ (case pid p of Some i \<Rightarrow> dec (unat i) | None \<Rightarrow> [])"

definition bytes_from_sio_packet :: "(json \<Rightarrow> ustr) \<Rightarrow> sio_packet \<Rightarrow> bytes" where
  "bytes_from_sio_packet to_string p =
     as_bytes (sio_packet_head p)
     @ (case pdata p of Some d \<Rightarrow> as_bytes (to_string d) | None \<Rightarrow> [])"

section \<open>Decoding\<close>

text \<open>
  The two scanning loops. Up to a delimiter, which is consumed: the end of the text is an
  error. Over digits: the end of the text ends the whole decoder, value \<open>None\<close>.
\<close>

fun read_until :: "uchar \<Rightarrow> ustr \<Rightarrow> ustr \<Rightarrow> sio_error + (ustr \<times> ustr)" where
  "read_until d [] char_buf = Inl SIncompletePacket"
| "read_until d (c # it) char_buf =
     (if c = d then Inr (char_buf, it) else read_until d it (char_buf @ [c]))"

fun read_digits :: "ustr \<Rightarrow> ustr \<Rightarrow> (ustr \<times> ustr) option" where
  "read_digits [] char_buf = None"
| "read_digits (c # it) char_buf =
     (if \<not> is_ascii_digit c then Some (char_buf, c # it) else read_digits it (char_buf @ [c]))"

definition read_data :: "(ustr \<Rightarrow> json option) \<Rightarrow> sio_packet \<Rightarrow> ustr \<Rightarrow> sio_error + sio_packet" where
  "read_data from_str packet it =
     (case from_str it of
        None \<Rightarrow> Inl SInvalidJson
      | Some json_data \<Rightarrow>
          Inr (packet\<lparr>pdata := (case json_data of JArray [] \<Rightarrow> None | _ \<Rightarrow> Some json_data)\<rparr>))"

definition read_id :: "(ustr \<Rightarrow> json option) \<Rightarrow> sio_packet \<Rightarrow> ustr \<Rightarrow> sio_error + sio_packet" where
  "read_id from_str packet it =
     (case read_digits it [] of
        None \<Rightarrow> Inr packet
      | Some (count_str, it) \<Rightarrow>
          read_data from_str
            (case parse_usize count_str of Some n \<Rightarrow> packet\<lparr>pid := Some n\<rparr> | None \<Rightarrow> packet) it)"

definition read_namespace :: "(ustr \<Rightarrow> json option) \<Rightarrow> sio_packet \<Rightarrow> ustr \<Rightarrow> sio_error + sio_packet" where
  "read_namespace from_str packet it =
     (case it of
        [] \<Rightarrow> Inr packet
      | c # rest \<Rightarrow>
          try_bind (if c = 47 then read_until 44 rest [c] else Inr ([], it)) (\<lambda>(char_buf, it).
          read_id from_str (if char_buf \<noteq> [] then packet\<lparr>nsp := char_buf\<rparr> else packet) it))"

definition sio_packet_try_from :: "(ustr \<Rightarrow> json option) \<Rightarrow> bytes \<Rightarrow> sio_error + sio_packet" where
  "sio_packet_try_from from_str payload =
     try_bind (ok_or (from_utf8 payload) SInvalidUtf8) (\<lambda>s.
     case s of
       [] \<Rightarrow> Inl SIncompletePacket
     | c # it \<Rightarrow>
         try_bind (sio_packet_type_from_char c) (\<lambda>t.
         try_bind (if has_attachment_count t then read_until 45 it [] else Inr ([], it)) (\<lambda>(count_str, it).
         let packet = sio_packet_default\<lparr>ptype := t\<rparr>;
             packet = (case parse_u8 count_str of
                         Some count \<Rightarrow> packet\<lparr>attachment_count := count\<rparr>
                       | None \<Rightarrow> packet)
         in read_namespace from_str packet it)))"

section \<open>Acknowledgement ids\<close>

text \<open>The atomic counter: \<open>fetch_add\<close> returns the old value and wraps around.\<close>

definition ack_id_generate :: "usize \<Rightarrow> usize \<times> usize" where
  "ack_id_generate seq = (seq, seq + 1)"

fun ack_ids :: "nat \<Rightarrow> usize \<Rightarrow> usize list" where
  "ack_ids 0 seq = []"
| "ack_ids (Suc n) seq = (let (i, seq') = ack_id_generate seq in i # ack_ids n seq')"

section \<open>Lemmas on the decoder\<close>

lemma read_until_found: "d \<notin> set w \<Longrightarrow> read_until d (w @ d # it) buf = Inr (buf @ w, it)"
  by (induction w arbitrary: buf) auto

lemma read_count: "read_until 45 (dec n @ 45 # it) [] = Inr (dec n, it)"
proof -
  have "45 \<notin> set (dec n)" using dec_digits [of 45 n] by (auto simp: is_ascii_digit_def)
  then show ?thesis by (simp add: read_until_found)
qed

lemma read_digits_all:
  "(\<And>c. c \<in> set w \<Longrightarrow> is_ascii_digit c) \<Longrightarrow>
     read_digits (w @ it) buf = read_digits it (buf @ w)"
  by (induction w arbitrary: buf) auto

lemma read_digits_dec: "read_digits (dec n @ it) buf = read_digits it (buf @ dec n)"
  by (rule read_digits_all) (rule dec_digits)

lemma sio_packet_type_char: "sio_packet_type_from_char (48 + unat (sio_packet_type_as_u8 t)) = Inr t"
  by (cases t) (simp_all add: sio_packet_type_from_char_def)

lemma sio_packet_type_dec: "dec (unat (sio_packet_type_as_u8 t)) = [48 + unat (sio_packet_type_as_u8 t)]"
  by (cases t) (simp_all add: dec.simps)

text \<open>What follows the id: nothing, or a document that starts with a bracket.\<close>

definition data_text :: "(json \<Rightarrow> ustr) \<Rightarrow> json option \<Rightarrow> ustr" where
  "data_text to_string d = (case d of Some v \<Rightarrow> to_string v | None \<Rightarrow> [])"

fun is_container :: "json \<Rightarrow> bool" where
  "is_container (JArray vs) = True"
| "is_container (JObject m) = True"
| "is_container v = False"

definition stored_data :: "json option \<Rightarrow> json option" where
  "stored_data d = (if d = Some (JArray []) then None else d)"

lemma stored_data_case: "(case v of JArray [] \<Rightarrow> None | _ \<Rightarrow> Some v) = stored_data (Some v)"
  by (auto simp: stored_data_def split: json.splits list.splits)

text \<open>
  The packets that the encoder writes unambiguously: the namespace is the default one or
  starts with a slash and has no comma, the data is an array or object, and a count of
  attachments is given for the binary types only.
\<close>

definition wf_nsp :: "ustr \<Rightarrow> bool" where
  "wf_nsp n \<longleftrightarrow> n \<noteq> [] \<and> hd n = 47 \<and> 44 \<notin> set n \<and> wf_str n"

definition wf_sio_packet :: "sio_packet \<Rightarrow> bool" where
  "wf_sio_packet p \<longleftrightarrow>
     wf_nsp (nsp p)
     \<and> (case pdata p of Some v \<Rightarrow> is_container v \<and> json_value nesting_limit v | None \<Rightarrow> True)
     \<and> (has_attachment_count (ptype p) \<or> attachment_count p = 0)"

text \<open>What a decoder gets back of an encoded packet.\<close>

definition received :: "sio_packet \<Rightarrow> sio_packet" where
  "received p = p\<lparr>pid := (if pdata p = None then None else pid p),
                  pdata := stored_data (pdata p), attachments := None\<rparr>"

definition id_text :: "usize option \<Rightarrow> ustr" where
  "id_text i = (case i of Some n \<Rightarrow> dec (unat n) | None \<Rightarrow> [])"

context serde_json
begin

lemma container_first:
  assumes "is_container v"
  obtains c r where "to_string v = c # r" and "\<not> is_ascii_digit c" and "c \<noteq> 47"
proof -
  from assms consider vs where "v = JArray vs" | m where "v = JObject m" by (cases v) auto
  then have "\<exists>c r. to_string v = c # r \<and> (c = 91 \<or> c = 123)"
    by cases (use to_string_array to_string_object in blast)+
  with that show ?thesis by (auto simp: is_ascii_digit_def)
qed

lemma read_id_data:
  assumes "d = Some v" and "is_container v" and "json_value nesting_limit v" and "pid q = None"
  shows "read_id from_str q ((case i of Some n \<Rightarrow> dec (unat n) | None \<Rightarrow> []) @ data_text to_string d) =
    Inr (q\<lparr>pid := i, pdata := stored_data d\<rparr>)"
proof -
  obtain c r where c: "to_string v = c # r" "\<not> is_ascii_digit c" using container_first [OF assms(2)] .
  with value_read_back [OF assms(3)]
  have data: "read_data from_str q' (c # r) = Inr (q'\<lparr>pdata := stored_data (Some v)\<rparr>)" for q'
    by (simp add: read_data_def stored_data_case)
  show ?thesis
    by (cases i) (use assms c in \<open>auto simp: read_id_def data_text_def read_digits_dec data\<close>)
qed

lemma read_id_end:
  "read_id from_str q (case i of Some n \<Rightarrow> dec (unat n) | None \<Rightarrow> []) = Inr q"
  using read_digits_dec [of _ "[]"] by (cases i) (simp_all add: read_id_def)

lemma read_id_text:
  assumes "case d of Some v \<Rightarrow> is_container v \<and> json_value nesting_limit v | None \<Rightarrow> True"
    and "pid q = None" and "pdata q = None"
  shows "read_id from_str q (id_text i @ data_text to_string d) =
    Inr (q\<lparr>pid := (if d = None then None else i), pdata := stored_data d\<rparr>)"
proof (cases d)
  case None
  with assms(2,3) read_id_end [of q i] show ?thesis
    by (simp add: id_text_def data_text_def stored_data_def)
next
  case (Some v)
  with assms read_id_data [OF Some] show ?thesis by (simp add: id_text_def)
qed

lemma read_namespace_text:
  assumes "wf_nsp n" and "case d of Some v \<Rightarrow> is_container v \<and> json_value nesting_limit v | None \<Rightarrow> True"
    and "pid q = None" and "pdata q = None" and "nsp q = str ''/''"
  shows "read_namespace from_str q
      ((if n \<noteq> str ''/'' then n @ str '','' else []) @ id_text i @ data_text to_string d) =
    Inr (q\<lparr>nsp := n, pid := (if d = None then None else i), pdata := stored_data d\<rparr>)"
proof (cases "n = str ''/''")
  case False
  from assms(1) obtain r where r: "n = 47 # r" "44 \<notin> set r" by (cases n) (auto simp: wf_nsp_def)
  with False read_until_found [of 44 r _ "[47]"] read_id_text [OF assms(2), of "q\<lparr>nsp := n\<rparr>"] assms(3,4)
  show ?thesis by (simp add: read_namespace_def)
next
  case True
  let ?t = "id_text i @ data_text to_string d"
  have hd: "hd ?t \<noteq> 47" if "?t \<noteq> []"
  proof (cases i)
    case None
    with that assms(2) obtain v where v: "d = Some v" "is_container v"
      by (auto simp: id_text_def data_text_def split: option.splits)
    from container_first [OF v(2)] None v(1) show ?thesis
      by (metis append_Nil data_text_def id_text_def list.sel(1) option.simps(4,5))
  next
    case (Some k)
    with dec_digits [of "hd (dec (unat k))" "unat k"] show ?thesis
      by (auto simp: id_text_def is_ascii_digit_def)
  qed
  have "read_namespace from_str q ?t = read_id from_str q ?t"
    using hd by (cases ?t) (auto simp: read_namespace_def read_id_def)
  with read_id_text [OF assms(2-4)] True assms(5) show ?thesis by simp
qed

text \<open>What the decoder reads of an encoded packet after the type and the attachment count.\<close>

lemma sio_packet_decode_tail:
  assumes "wf_str (nsp p)" and "case pdata p of Some v \<Rightarrow> is_container v \<and> json_value nesting_limit v | None \<Rightarrow> True"
    and "has_attachment_count (ptype p) \<or> attachment_count p = 0"
  shows "sio_packet_try_from from_str (bytes_from_sio_packet to_string p) =
    read_namespace from_str (sio_packet_default\<lparr>ptype := ptype p, attachment_count := attachment_count p\<rparr>)
      ((if nsp p \<noteq> str ''/'' then nsp p @ str '','' else []) @ id_text (pid p) @ data_text to_string (pdata p))"
proof -
  define tail where "tail = (if nsp p \<noteq> str ''/'' then nsp p @ str '','' else [])
    @ id_text (pid p) @ data_text to_string (pdata p)"
  define count where "count = (if has_attachment_count (ptype p) then dec (unat (attachment_count p)) @ str ''-'' else [])"
  let ?text = "(48 + unat (sio_packet_type_as_u8 (ptype p))) # count @ tail"
  have "bytes_from_sio_packet to_string p = as_bytes ?text"
    by (simp add: bytes_from_sio_packet_def sio_packet_head_def sio_packet_type_dec id_text_def data_text_def
        tail_def count_def split: option.splits)
  moreover have "wf_str ?text"
    using assms(1,2) value_text(1)
    by (cases "ptype p"; cases "pdata p"; cases "pid p")
      (auto simp: id_text_def data_text_def ascii_wf_str scalar_def tail_def count_def)
  ultimately have utf8: "from_utf8 (bytes_from_sio_packet to_string p) = Some ?text"
    by (simp only: from_utf8_as_bytes)
  show ?thesis unfolding tail_def [symmetric]
    using assms(3) by (auto simp: sio_packet_try_from_def utf8 sio_packet_type_char count_def read_count
        Let_def sio_packet_default_def)
qed

lemma sio_packet_encode_decode:
  assumes "wf_sio_packet p"
  shows "sio_packet_try_from from_str (bytes_from_sio_packet to_string p) = Inr (received p)"
proof -
  from assms have wf: "wf_nsp (nsp p)" "case pdata p of Some v \<Rightarrow> is_container v \<and> json_value nesting_limit v | None \<Rightarrow> True"
      "has_attachment_count (ptype p) \<or> attachment_count p = 0"
    by (simp_all add: wf_sio_packet_def)
  let ?q = "sio_packet_default\<lparr>ptype := ptype p, attachment_count := attachment_count p\<rparr>"
  have "wf_str (nsp p)" using wf(1) by (simp add: wf_nsp_def)
  from sio_packet_decode_tail [OF this wf(2,3)] read_namespace_text [OF wf(1,2), of ?q] show ?thesis
    by (simp add: sio_packet_default_def received_def)
qed

text \<open>A comma in a namespace ends it for the decoder.\<close>

lemma sio_packet_comma:
  assumes "wf_str (nsp p)" and "nsp p \<noteq> []" and "hd (nsp p) = 47" and "44 \<in> set (nsp p)"
    and "case pdata p of Some v \<Rightarrow> is_container v \<and> json_value nesting_limit v | None \<Rightarrow> True"
    and "has_attachment_count (ptype p) \<or> attachment_count p = 0"
    and "sio_packet_try_from from_str (bytes_from_sio_packet to_string p) = Inr q"
  shows "nsp q = takeWhile (\<lambda>c. c \<noteq> 44) (nsp p)"
proof -
  let ?q = "sio_packet_default\<lparr>ptype := ptype p, attachment_count := attachment_count p\<rparr>"
  from assms(2,3) obtain r where r: "nsp p = 47 # r" by (cases "nsp p") auto
  with assms(4) obtain w t where w: "r = w @ 44 # t" "44 \<notin> set w" using split_list_first [of 44 r] by auto
  have "nsp p \<noteq> str ''/''" using assms(4) by auto
  with sio_packet_decode_tail [OF assms(1,5,6)] r w read_until_found [OF w(2), of "t @ 44 # id_text (pid p) @ data_text to_string (pdata p)" "[47]"]
  have "read_id from_str (?q\<lparr>nsp := 47 # w\<rparr>) (t @ 44 # id_text (pid p) @ data_text to_string (pdata p)) = Inr q"
    using assms(7) by (simp add: read_namespace_def)
  then have "nsp q = 47 # w" by (auto simp: read_id_def read_data_def split: option.splits)
  moreover have "takeWhile (\<lambda>c. c \<noteq> 44) (w @ 44 # t) = w" using w(2) by (subst takeWhile_append2) auto
  ultimately show ?thesis using r w(1) by simp
qed

lemma sio_packet_no_separator:
  assumes "wf_sio_packet p" and "0x1e \<notin> set (nsp p)"
  shows "SEPARATOR \<notin> set (bytes_from_sio_packet to_string p)"
proof -
  have dec: "0x1e \<notin> set (as_bytes (dec n))" for n
    using dec_digits [of "0x1e" n] by (auto simp: ascii_byte_in_as_bytes ascii_wf_str is_ascii_digit_def)
  have nsp: "0x1e \<notin> set (as_bytes (nsp p))"
    using assms by (auto simp: ascii_byte_in_as_bytes wf_sio_packet_def wf_nsp_def)
  have data: "0x1e \<notin> set (as_bytes (to_string v))" if "pdata p = Some v" for v
    using that assms(1) value_text(1) [of nesting_limit v] value_text(2) [of nesting_limit v "0x1e"]
    by (auto simp: ascii_byte_in_as_bytes wf_sio_packet_def)
  show ?thesis
    using dec nsp data
    by (auto simp: SEPARATOR_def bytes_from_sio_packet_def sio_packet_head_def split: option.splits)
qed

end

section \<open>Lemmas on ids\<close>

lemma ack_ids_eq: "ack_ids n seq = map (\<lambda>k. seq + word_of_nat k) [0..<n]"
proof (induction n arbitrary: seq)
  case (Suc n)
  have "map (\<lambda>k. seq + word_of_nat k) [0..<Suc n] = seq # map (\<lambda>k. seq + 1 + word_of_nat k) [0..<n]"
    by (subst upt_conv_Cons) (simp_all add: map_Suc_upt [symmetric] add.assoc del: upt_Suc map_Suc_upt)
  with Suc show ?case by (simp add: ack_id_generate_def del: upt_Suc)
qed simp

lemma ack_ids_inj: "n \<le> 2 ^ 64 \<Longrightarrow> inj_on (\<lambda>k. seq + word_of_nat k :: usize) {0..<n}"
proof (rule inj_onI)
  fix x y assume n: "n \<le> 2 ^ 64" and xy: "x \<in> {0..<n}" "y \<in> {0..<n}"
    and eq: "seq + word_of_nat x = (seq + word_of_nat y :: usize)"
  then have "x mod 2 ^ 64 = y mod 2 ^ 64" by (simp add: of_nat_inverse word_of_nat_eq_iff take_bit_eq_mod)
  with n xy show "x = y" by simp
qed

section \<open>Properties\<close>

text \<open>
  C8: A packet with a proper namespace and container data, encoded and decoded again, has
  the same type, namespace, attachment count and data. Attachments travel separately, an
  empty array is received as no data, and the id is received only if the packet has data.
\<close>

theorem sio_packet_roundtrip:
  assumes "serde_json to_string from_str" and "wf_sio_packet p"
  shows "sio_packet_try_from from_str (bytes_from_sio_packet to_string p) = Inr (received p)"
  using serde_json.sio_packet_encode_decode [OF assms] .

theorem sio_packet_roundtrip_witness:
  "sio_packet_try_from parse_json (bytes_from_sio_packet print_json
      (sio_packet_new BinaryEvent (str ''/admin'') (Some (JArray [JString (str ''hi'')])) (Some 456) 1 None)) =
    Inr (sio_packet_new BinaryEvent (str ''/admin'') (Some (JArray [JString (str ''hi'')])) (Some 456) 1 None)"
proof -
  let ?p = "sio_packet_new BinaryEvent (str ''/admin'') (Some (JArray [JString (str ''hi'')])) (Some 456) 1 None"
  have "wf_sio_packet ?p"
    by (simp add: wf_sio_packet_def wf_nsp_def sio_packet_new_def has_attachment_count_def scalar_def)
  from sio_packet_roundtrip [OF compact.serde_json_axioms this] show ?thesis
    by (simp add: received_def sio_packet_new_def stored_data_def)
qed

text \<open>
  An acknowledgement (or any packet) that carries an id but no data loses its id in
  transit: the decoder returns as soon as the text ends within the digits of the id.
\<close>

theorem sio_packet_id_lost:
  assumes "serde_json to_string from_str" and "wf_sio_packet p" and "pdata p = None"
  shows "\<exists>q. sio_packet_try_from from_str (bytes_from_sio_packet to_string p) = Inr q \<and> pid q = None"
  using serde_json.sio_packet_encode_decode [OF assms(1,2)] assms(3) by (simp add: received_def)

theorem sio_packet_id_lost_witness:
  "\<exists>q. sio_packet_try_from parse_json (bytes_from_sio_packet print_json
      (sio_packet_new Ack (str ''/'') None (Some 456) 0 None)) = Inr q \<and> pid q = None"
  by (rule sio_packet_id_lost [OF compact.serde_json_axioms])
    (simp_all add: wf_sio_packet_def wf_nsp_def sio_packet_new_def scalar_def)

text \<open>
  Decoding fails only with the four documented errors: bytes that are not UTF-8, a text
  that ends too early, an unknown type character, or data that is not JSON.
\<close>

theorem sio_packet_decode_errors:
  assumes "sio_packet_try_from from_str bs = Inl e"
  shows "e \<in> {SInvalidUtf8, SIncompletePacket, SInvalidJson} \<union> range SInvalidPacketType"
proof -
  have until: "read_until d it buf = Inl e \<Longrightarrow> e = SIncompletePacket" for d it buf
    by (induction it arbitrary: buf) (auto split: if_splits)
  have ns: "read_namespace from_str q it = Inl e \<Longrightarrow> e \<in> {SIncompletePacket, SInvalidJson}" for q it
    by (auto simp: read_namespace_def read_id_def read_data_def try_bind_Inl_iff
        split: list.splits option.splits if_splits dest: until)
  have char: "sio_packet_type_from_char c = Inl e \<Longrightarrow> e \<in> range SInvalidPacketType" for c
    by (auto simp: sio_packet_type_from_char_def split: if_splits)
  show ?thesis
  proof (cases "from_utf8 bs")
    case (Some s)
    with assms char show ?thesis
      by (cases s) (auto simp: sio_packet_try_from_def try_bind_Inl_iff Let_def
          split: if_splits dest: until ns)
  qed (use assms in \<open>auto simp: sio_packet_try_from_def\<close>)
qed

theorem sio_packet_decode_errors_witness:
  "SInvalidPacketType 55 \<in> {SInvalidUtf8, SIncompletePacket, SInvalidJson} \<union> range SInvalidPacketType"
proof (rule sio_packet_decode_errors)
  have "from_utf8 [55] = Some [55]" by (simp add: from_utf8_Some_iff scalar_def)
  then show "sio_packet_try_from parse_json [55] = Inl (SInvalidPacketType 55)"
    by (simp add: sio_packet_try_from_def sio_packet_type_from_char_def)
qed

text \<open>
  The ids that one generator hands out are distinct for up to \<open>2 ^ 64\<close> calls, from any
  value of its counter, wrap-around included.
\<close>

theorem ack_ids_distinct:
  assumes "n \<le> 2 ^ 64"
  shows "distinct (ack_ids n seq) \<and> length (ack_ids n seq) = n"
  using ack_ids_inj [OF assms, of seq] by (simp add: ack_ids_eq distinct_map)

theorem ack_ids_distinct_witness:
  "distinct (ack_ids 3 (- 1)) \<and> length (ack_ids 3 (- 1)) = 3"
  by (rule ack_ids_distinct) simp

end
