(* ===== verification/Sio_Payload.thy ===== *)
theory Sio_Payload
  imports Sio_Packet
begin

text \<open>
  Events and payloads (\<open>socketio/src/event.rs\<close>, \<open>socketio/src/payload.rs\<close>) and the pure
  part of the Socket.IO socket (\<open>socketio/src/socket.rs\<close>): how a payload becomes the data
  and attachments of a packet, and how the event and the payload are read from a received
  packet.
\<close>

section \<open>Events\<close>

datatype sio_event = EvMessage | EvError | EvCustom ustr | EvConnect | EvClose

definition event_from_string :: "ustr \<Rightarrow> sio_event" where
  "event_from_string s =
     (let l = to_lowercase s in
      if l = str ''message'' then EvMessage
      else if l = str ''error'' then EvError
      else if l = str ''open'' then EvConnect
      else if l = str ''close'' then EvClose
      else EvCustom s)"

fun string_from_event :: "sio_event \<Rightarrow> ustr" where
  "string_from_event EvMessage = str ''message''"
| "string_from_event EvConnect = str ''open''"
| "string_from_event EvClose = str ''close''"
| "string_from_event EvError = str ''error''"
| "string_from_event (EvCustom s) = s"

section \<open>Payloads\<close>

datatype raw_payload = RBinary bytes | RJson json
datatype sio_payload = PBinary bytes | PJson json | PMulti "raw_payload list"

definition payload_from_value :: "json \<Rightarrow> sio_payload" where
  "payload_from_value v = PJson v"

fun payload_from_option :: "json option \<Rightarrow> sio_payload" where
  "payload_from_option None = PJson JNull"
| "payload_from_option (Some v) = PJson v"

definition raw_from_value :: "json \<Rightarrow> raw_payload" where
  "raw_from_value v = RJson v"

definition raw_from_bytes :: "bytes \<Rightarrow> raw_payload" where
  "raw_from_bytes b = RBinary b"

definition payload_from_values :: "json list \<Rightarrow> sio_payload" where
  "payload_from_values vs =
     (if length vs = 1 then PJson (hd vs) else PMulti (map raw_from_value vs))"

definition payload_from_bytes :: "bytes \<Rightarrow> sio_payload" where
  "payload_from_bytes b = PBinary b"

fun payload_from_raw :: "raw_payload \<Rightarrow> sio_payload" where
  "payload_from_raw (RJson v) = PJson v"
| "payload_from_raw (RBinary b) = PBinary b"

section \<open>From a payload to a packet\<close>

text \<open>The document that stands for the attachment of the given number.\<close>

definition binary_place_holder :: "usize \<Rightarrow> json" where
  "binary_place_holder num =
     JObject [(str ''_placeholder'', JBool True), (str ''num'', JNumber (PosInt num))]"

type_synonym payload_acc = "json list \<times> bytes list"

definition process_binary :: "payload_acc \<Rightarrow> bytes \<Rightarrow> payload_acc" where
  "process_binary = (\<lambda>(data, atts) bin_data.
     (data @ [binary_place_holder (word_of_nat (length atts))], atts @ [bin_data]))"

definition process_raw :: "payload_acc \<Rightarrow> raw_payload \<Rightarrow> payload_acc" where
  "process_raw acc r =
     (case r of
        RBinary bin \<Rightarrow> process_binary acc bin
      | RJson value \<Rightarrow> (fst acc @ [value], snd acc))"

fun process_payload :: "payload_acc \<Rightarrow> sio_payload \<Rightarrow> payload_acc" where
  "process_payload acc (PBinary bin_data) = process_binary acc bin_data"
| "process_payload acc (PJson value) = (fst acc @ [value], snd acc)"
| "process_payload acc (PMulti payloads) = foldl process_raw acc payloads"

definition encode_data :: "sio_event option \<Rightarrow> sio_payload \<Rightarrow> json \<times> bytes list" where
  "encode_data event payload =
     (let data = (case event of Some e \<Rightarrow> [JString (string_from_event e)] | None \<Rightarrow> []);
          (data, atts) = process_payload (data, []) payload
      in (JArray data, atts))"

text \<open>The count of attachments is the length cast to a byte.\<close>

definition build_packet_for_payload ::
  "sio_payload \<Rightarrow> sio_event option \<Rightarrow> ustr \<Rightarrow> usize option \<Rightarrow> bool \<Rightarrow> sio_packet" where
  "build_packet_for_payload payload event ns i is_ack =
     (let (data, atts) = encode_data event payload;
          packet_type =
            (if atts = [] then (if is_ack then Ack else Event)
             else (if is_ack then BinaryAck else BinaryEvent))
      in sio_packet_new packet_type ns (Some data) i (word_of_nat (length atts)) (Some atts))"

section \<open>From a packet to an event and a payload\<close>

fun decode_binary_loop ::
  "bytes list option \<Rightarrow> bool \<Rightarrow> nat \<Rightarrow> json list \<Rightarrow> raw_payload list \<Rightarrow> sio_error + raw_payload list" where
  "decode_binary_loop atts skip_event index [] vec = Inr vec"
| "decode_binary_loop atts skip_event index (value # values) vec =
     (if skip_event \<and> index = 0 then decode_binary_loop atts skip_event (index + 1) values vec
      else if json_get value (str ''_placeholder'') \<noteq> None then
        try_bind (ok_or (json_get value (str ''num'')) SInvalidPacket) (\<lambda>n.
        try_bind (ok_or (json_as_u64 n) SInvalidPacket) (\<lambda>num.
        case atts of
          None \<Rightarrow> Inl SInvalidPacket
        | Some as \<Rightarrow>
            if unat num < length as
            then decode_binary_loop atts skip_event (index + 1) values (vec @ [RBinary (as ! unat num)])
            else Inl SInvalidPacket))
      else decode_binary_loop atts skip_event (index + 1) values (vec @ [RJson value]))"

definition decode_binary :: "json list \<Rightarrow> bytes list option \<Rightarrow> bool \<Rightarrow> sio_error + sio_payload" where
  "decode_binary vec atts skip_event =
     try_bind (decode_binary_loop atts skip_event 0 vec []) (\<lambda>vec_payload.
     if length vec_payload = 1 then Inr (payload_from_raw (last vec_payload))
     else Inr (PMulti vec_payload))"

text \<open>An error of \<open>decode_binary\<close> is logged and the payload is absent.\<close>

definition decode_binary_payload ::
  "json option \<Rightarrow> bytes list option \<Rightarrow> bool \<Rightarrow> sio_payload option" where
  "decode_binary_payload data atts skip_event =
     (case data of
        Some (JArray vec) \<Rightarrow>
          (case decode_binary vec atts skip_event of Inr payload \<Rightarrow> Some payload | Inl e \<Rightarrow> None)
      | _ \<Rightarrow> None)"

definition decode_event_payload :: "sio_packet \<Rightarrow> bool \<Rightarrow> sio_payload option" where
  "decode_event_payload packet skip_event =
     (case pdata packet of
        Some (JArray contents) \<Rightarrow>
          if contents = [] then None
          else if length contents = 1 then Some (PJson (contents ! 0))
          else if length contents = 2 then
            if skip_event then Some (PJson (contents ! 1))
            else Some (PMulti (map raw_from_value contents))
          else if skip_event then Some (PMulti (map raw_from_value (drop 1 contents)))
          else Some (PMulti (map raw_from_value contents))
      | _ \<Rightarrow> None)"

text \<open>The event named by the first element, as \<open>handle_binary_event\<close> reads it.\<close>

definition binary_event_name :: "json option \<Rightarrow> sio_event" where
  "binary_event_name data =
     (case data of
        Some (JString e) \<Rightarrow> event_from_string e
      | Some (JArray (JString e # _)) \<Rightarrow> event_from_string e
      | _ \<Rightarrow> EvMessage)"

text \<open>The same for text events, as \<open>handle_event\<close> does: only with more than one element.\<close>

definition event_name :: "json list \<Rightarrow> sio_event" where
  "event_name contents =
     (if length contents > 1 then
        (case contents of
           JString ev # _ \<Rightarrow> event_from_string ev
         | _ \<Rightarrow> event_from_string (str ''message''))
      else EvMessage)"

section \<open>Lemmas on events\<close>

text \<open>The events whose name is read back as the same event.\<close>

definition reserved_name :: "ustr \<Rightarrow> bool" where
  "reserved_name s \<longleftrightarrow>
     to_lowercase s \<in> {str ''message'', str ''error'', str ''open'', str ''close''}"

fun proper_event :: "sio_event \<Rightarrow> bool" where
  "proper_event (EvCustom s) = (\<not> reserved_name s)"
| "proper_event e = True"

lemma event_read_back: "event_from_string (string_from_event e) = e \<longleftrightarrow> proper_event e"
proof (cases e)
  case (EvCustom s)
  then show ?thesis
    by (auto simp: event_from_string_def reserved_name_def Let_def simp del: str_simps)
qed (simp_all add: event_from_string_def lower_char_def Let_def)

lemma event_from_proper [simp]: "proper_event e \<Longrightarrow> event_from_string (string_from_event e) = e"
  by (simp add: event_read_back)

section \<open>Lemmas on payloads\<close>

text \<open>A payload as the sequence of its parts, their documents and their binaries.\<close>

fun payload_raws :: "sio_payload \<Rightarrow> raw_payload list" where
  "payload_raws (PBinary b) = [RBinary b]"
| "payload_raws (PJson v) = [RJson v]"
| "payload_raws (PMulti rs) = rs"

fun raw_docs :: "nat \<Rightarrow> raw_payload list \<Rightarrow> json list" where
  "raw_docs k [] = []"
| "raw_docs k (RJson v # rs) = v # raw_docs k rs"
| "raw_docs k (RBinary b # rs) = binary_place_holder (word_of_nat k) # raw_docs (Suc k) rs"

fun raw_binaries :: "raw_payload list \<Rightarrow> bytes list" where
  "raw_binaries [] = []"
| "raw_binaries (RJson v # rs) = raw_binaries rs"
| "raw_binaries (RBinary b # rs) = b # raw_binaries rs"

lemma process_raws:
  "foldl process_raw (data, atts) rs = (data @ raw_docs (length atts) rs, atts @ raw_binaries rs)"
  by (induction rs arbitrary: data atts rule: raw_binaries.induct)
    (simp_all add: process_raw_def process_binary_def)

lemma process_payload_eq:
  "process_payload (data, atts) p =
     (data @ raw_docs (length atts) (payload_raws p), atts @ raw_binaries (payload_raws p))"
  by (cases p) (simp_all add: process_raws process_binary_def)

definition event_docs :: "sio_event option \<Rightarrow> json list" where
  "event_docs e = (case e of Some e \<Rightarrow> [JString (string_from_event e)] | None \<Rightarrow> [])"

lemma encode_data_eq:
  "encode_data e p = (JArray (event_docs e @ raw_docs 0 (payload_raws p)), raw_binaries (payload_raws p))"
  by (simp add: encode_data_def event_docs_def process_payload_eq Let_def)

lemma build_packet_eq:
  "build_packet_for_payload p e ns i is_ack =
     \<lparr>ptype = (if raw_binaries (payload_raws p) = [] then (if is_ack then Ack else Event)
              else (if is_ack then BinaryAck else BinaryEvent)),
      nsp = ns, pdata = Some (JArray (event_docs e @ raw_docs 0 (payload_raws p))), pid = i,
      attachment_count = word_of_nat (length (raw_binaries (payload_raws p))),
      attachments = Some (raw_binaries (payload_raws p))\<rparr>"
  by (simp add: build_packet_for_payload_def encode_data_eq sio_packet_new_def)

text \<open>Documents that cannot be taken for a placeholder.\<close>

fun plain_raw :: "raw_payload \<Rightarrow> bool" where
  "plain_raw (RJson v) = (json_get v (str ''_placeholder'') = None)"
| "plain_raw (RBinary b) = True"

lemma place_holder_get [simp]:
  "json_get (binary_place_holder n) (str ''_placeholder'') = Some (JBool True)"
  "json_get (binary_place_holder n) (str ''num'') = Some (JNumber (PosInt n))"
  by (simp_all add: binary_place_holder_def)

lemma decode_binary_raws:
  assumes "list_all plain_raw rs" and "\<not> skip \<or> 0 < index" and "length pre + length (raw_binaries rs) < 2 ^ 64"
  shows "decode_binary_loop (Some (pre @ raw_binaries rs)) skip index (raw_docs (length pre) rs) vec =
    Inr (vec @ rs)"
  using assms
proof (induction rs arbitrary: pre index vec rule: raw_binaries.induct)
  case (3 b rs)
  then have "unat (word_of_nat (length pre) :: usize) = length pre"
    by (simp add: unat_of_nat)
  with 3 "3.IH" [of "index + 1" "pre @ [b]" "vec @ [RBinary b]"] show ?case
    by (auto simp del: str_simps)
qed (auto simp del: str_simps)

text \<open>What the receiver gets: a single part is not wrapped.\<close>

definition payload_of_raws :: "raw_payload list \<Rightarrow> sio_payload" where
  "payload_of_raws rs = (if length rs = 1 then payload_from_raw (last rs) else PMulti rs)"

lemma payload_of_raws_single [simp]:
  "payload_of_raws [RJson v] = PJson v" "payload_of_raws [RBinary b] = PBinary b"
  by (simp_all add: payload_of_raws_def)

lemma payload_raws_of_raws: "payload_raws (payload_of_raws rs) = rs"
proof (cases rs)
  case (Cons r rs')
  then show ?thesis by (cases rs'; cases r) (simp_all add: payload_of_raws_def)
qed (simp add: payload_of_raws_def)

lemma decode_binary_built:
  assumes "list_all plain_raw rs" and "length (raw_binaries rs) < 2 ^ 64" and "skip = (e \<noteq> None)"
  shows "decode_binary_payload (Some (JArray (event_docs e @ raw_docs 0 rs))) (Some (raw_binaries rs)) skip
    = Some (payload_of_raws rs)"
proof -
  have "decode_binary_loop (Some (raw_binaries rs)) skip 0 (event_docs e @ raw_docs 0 rs) [] = Inr rs"
    using decode_binary_raws [OF assms(1), of skip 1 "[]" "[]"]
      decode_binary_raws [OF assms(1), of skip 0 "[]" "[]"] assms(2,3)
    by (cases e) (simp_all add: event_docs_def)
  then show ?thesis by (simp add: decode_binary_payload_def decode_binary_def payload_of_raws_def)
qed

lemma raw_docs_text: "raw_binaries rs = [] \<Longrightarrow> map raw_from_value (raw_docs k rs) = rs"
  by (induction k rs rule: raw_docs.induct) (simp_all add: raw_from_value_def)

lemma length_raw_docs [simp]: "length (raw_docs k rs) = length rs"
  by (induction k rs rule: raw_docs.induct) simp_all

lemma raw_docs_single:
  "raw_binaries rs = [] \<Longrightarrow> length rs = 1 \<Longrightarrow> payload_from_raw (last rs) = PJson (raw_docs k rs ! 0)"
  by (induction k rs rule: raw_docs.induct) auto

lemma decode_event_built:
  assumes "raw_binaries rs = []" and "pdata q = Some (JArray (event_docs (Some e) @ raw_docs 0 rs))" and "rs \<noteq> []"
  shows "decode_event_payload q True = Some (payload_of_raws rs)"
  using assms raw_docs_text [OF assms(1)] raw_docs_single [OF assms(1), of 0]
  by (cases rs; cases "tl rs") (auto simp: decode_event_payload_def event_docs_def payload_of_raws_def)

lemma decode_ack_built:
  assumes "raw_binaries rs = []" and "pdata q = Some (JArray (raw_docs 0 rs))" and "rs \<noteq> []"
  shows "decode_event_payload q False = Some (payload_of_raws rs)"
proof -
  have "raw_docs 0 rs \<noteq> []" using assms(3) by (metis length_0_conv length_raw_docs)
  with assms raw_docs_text [OF assms(1)] raw_docs_single [OF assms(1), of 0] show ?thesis
    by (auto simp: decode_event_payload_def payload_of_raws_def)
qed

section \<open>Properties\<close>

text \<open>
  The name of an event is read back as the same event exactly for the built-in events
  and for custom events whose name, in lower case, is not one of the four built-in names.
\<close>

theorem event_name_roundtrip:
  "(event_from_string (string_from_event e) = e) = proper_event e"
  by (rule event_read_back)

text \<open>
  C33: The packet built for a payload carries the binaries of the payload in order as its
  attachments and has a binary type exactly when there are any; but its count of
  attachments is their number modulo 256, so that 256 attachments are announced as none.
\<close>

theorem attachment_count_wraps:
  "attachments (build_packet_for_payload p e ns i is_ack) = Some (raw_binaries (payload_raws p))
   \<and> unat (attachment_count (build_packet_for_payload p e ns i is_ack)) =
       length (raw_binaries (payload_raws p)) mod 256
   \<and> has_attachment_count (ptype (build_packet_for_payload p e ns i is_ack)) =
       (raw_binaries (payload_raws p) \<noteq> [])"
  by (simp add: build_packet_eq has_attachment_count_def unat_of_nat)

end
