(* ===== verification/Engine_Transport.thy ===== *)
theory Engine_Transport
  imports Engine_Packet
begin

text \<open>
  The transports of Engine.IO (\<open>engineio/src/transports\<close>): what a polling client posts, a
  polling server queues and a websocket sends for the data of one packet, and the byte
  strings that the receiving sides hand to the payload decoder. The networks, the HTTP
  client, the websocket library and the clock are not part of the repository: the outcome
  of each output is an argument that may depend on everything sent before, and the input
  is the finite list of items received until the stream ends.
\<close>

section \<open>Outgoing data\<close>

datatype data = Text bytes | Binary bytes

text \<open>
  The websocket messages the sources tell apart; a control message carries the bytes that
  \<open>into_data\<close> gives for it.
\<close>

datatype ws_message = WsText ustr | WsBinary bytes | WsOther bytes

definition message_try_from :: "data \<Rightarrow> eio_error + ws_message" where
  "message_try_from payload =
     (case payload of
        Text d \<Rightarrow> try_bind (ok_or (from_utf8 d) Utf8Error) (\<lambda>s. Inr (WsText s))
      | Binary d \<Rightarrow> Inr (WsBinary d))"

datatype transport_type = ClientPolling | ServerPolling | Websocket

text \<open>What a transport puts out: an HTTP post, an entry of the send queue, a message.\<close>

datatype wire = Post bytes | Queue bytes | Ws ws_message

text \<open>
  The outcome of an output: an HTTP status or a failed request, a queue whose receiver
  has gone, a failed websocket; \<open>Inr 200\<close> stands for success of the last two as well.
\<close>

type_synonym network = "wire list \<Rightarrow> wire \<Rightarrow> unit + u16"

definition polling_body :: "(bytes \<Rightarrow> ustr) \<Rightarrow> data \<Rightarrow> bytes" where
  "polling_body encode payload =
     (case payload of
        Text d \<Rightarrow> d
      | Binary d \<Rightarrow> 98 # as_bytes (encode d))"

definition client_polling_emit ::
  "(bytes \<Rightarrow> ustr) \<Rightarrow> network \<Rightarrow> wire list \<Rightarrow> data \<Rightarrow> wire list \<times> (eio_error + unit)" where
  "client_polling_emit encode net out payload =
     (let w = Post (polling_body encode payload) in
      case net out w of
        Inl _ \<Rightarrow> (out, Inl HttpError)
      | Inr status \<Rightarrow>
          (out @ [w], if status = 200 then Inr () else Inl (InvalidHttpResponseStatus status)))"

definition server_polling_emit ::
  "(bytes \<Rightarrow> ustr) \<Rightarrow> network \<Rightarrow> wire list \<Rightarrow> data \<Rightarrow> wire list \<times> (eio_error + unit)" where
  "server_polling_emit encode net out payload =
     (let w = Queue (polling_body encode payload) in
      case net out w of
        Inl _ \<Rightarrow> (out, Inl SendError)
      | Inr _ \<Rightarrow> (out @ [w], Inr ()))"

definition websocket_emit ::
  "network \<Rightarrow> wire list \<Rightarrow> data \<Rightarrow> wire list \<times> (eio_error + unit)" where
  "websocket_emit net out payload =
     (case message_try_from payload of
        Inl e \<Rightarrow> (out, Inl e)
      | Inr m \<Rightarrow>
          (case net out (Ws m) of
             Inl _ \<Rightarrow> (out, Inl WsError)
           | Inr _ \<Rightarrow> (out @ [Ws m], Inr ())))"

text \<open>\<open>as_transport().emit\<close>: the transport in use decides.\<close>

definition transport_emit ::
  "(bytes \<Rightarrow> ustr) \<Rightarrow> network \<Rightarrow> transport_type \<Rightarrow> wire list \<Rightarrow> data \<Rightarrow> wire list \<times> (eio_error + unit)" where
  "transport_emit encode net t out payload =
     (case t of
        ClientPolling \<Rightarrow> client_polling_emit encode net out payload
      | ServerPolling \<Rightarrow> server_polling_emit encode net out payload
      | Websocket \<Rightarrow> websocket_emit net out payload)"

section \<open>Incoming data\<close>

text \<open>
  One poll of the websocket stream: messages other than text and binary are skipped. A
  binary message gets the number of the message type as its first byte.
\<close>

fun websocket_next ::
  "(unit + ws_message) list \<Rightarrow> (eio_error + bytes) option \<times> (unit + ws_message) list" where
  "websocket_next [] = (None, [])"
| "websocket_next (Inl _ # ms) = (Some (Inl WsError), ms)"
| "websocket_next (Inr (WsText s) # ms) = (Some (Inr (as_bytes s)), ms)"
| "websocket_next (Inr (WsBinary d) # ms) = (Some (Inr (packet_type_discriminant Message # d)), ms)"
| "websocket_next (Inr (WsOther _) # ms) = websocket_next ms"

text \<open>
  The stream of a polling client: the chunks of each response body in turn. A failed
  request or a failed chunk is yielded and ends the stream.
\<close>

fun response_chunks :: "(unit + bytes) list \<Rightarrow> (eio_error + bytes) list \<times> bool" where
  "response_chunks [] = ([], True)"
| "response_chunks (Inl _ # cs) = ([Inl HttpError], False)"
| "response_chunks (Inr b # cs) = (let (items, more) = response_chunks cs in (Inr b # items, more))"

fun client_polling_stream :: "(unit + (unit + bytes) list) list \<Rightarrow> (eio_error + bytes) list" where
  "client_polling_stream [] = []"
| "client_polling_stream (Inl _ # rs) = [Inl HttpError]"
| "client_polling_stream (Inr chunks # rs) =
     (let (items, more) = response_chunks chunks in
      if more then items @ client_polling_stream rs else items)"

text \<open>One poll of a polling server's stream: the next queued request body.\<close>

fun server_polling_next :: "bytes list \<Rightarrow> (eio_error + bytes) option \<times> bytes list" where
  "server_polling_next [] = (None, [])"
| "server_polling_next (b # q) = (Some (Inr b), q)"

text \<open>All items that repeated polls yield.\<close>

lemma websocket_next_shrinks: "websocket_next ms = (Some item, ms') \<Longrightarrow> length ms' < length ms"
  by (induction ms rule: websocket_next.induct) auto

function websocket_stream :: "(unit + ws_message) list \<Rightarrow> (eio_error + bytes) list" where
  "websocket_stream ms =
     (case websocket_next ms of
        (None, _) \<Rightarrow> []
      | (Some item, ms') \<Rightarrow> item # websocket_stream ms')"
  by pat_completeness auto
termination
  by (relation "measure length") (auto dest: websocket_next_shrinks [OF sym])

declare websocket_stream.simps [simp del]

lemma server_polling_next_shrinks: "server_polling_next q = (Some item, q') \<Longrightarrow> length q' < length q"
  by (induction q rule: server_polling_next.induct) auto

function server_polling_stream :: "bytes list \<Rightarrow> (eio_error + bytes) list" where
  "server_polling_stream q =
     (case server_polling_next q of
        (None, _) \<Rightarrow> []
      | (Some item, q') \<Rightarrow> item # server_polling_stream q')"
  by pat_completeness auto
termination
  by (relation "measure length") (auto dest: server_polling_next_shrinks [OF sym])

declare server_polling_stream.simps [simp del]

section \<open>The upgrade of a polling client\<close>

text \<open>
  A ping with the text probe, which the server must answer with the same pong; then the
  upgrade packet. The argument \<open>answer\<close> is the message received after the ping.
\<close>

definition ws_message_data :: "ws_message \<Rightarrow> bytes" where
  "ws_message_data m = (case m of WsText s \<Rightarrow> as_bytes s | WsBinary d \<Rightarrow> d | WsOther d \<Rightarrow> d)"

definition probe :: bytes where
  "probe = as_bytes (str ''probe'')"

definition websocket_send_packet ::
  "(bytes \<Rightarrow> ustr) \<Rightarrow> network \<Rightarrow> wire list \<Rightarrow> eio_packet \<Rightarrow> wire list \<times> (eio_error + unit)" where
  "websocket_send_packet encode net out p =
     (case from_utf8 (bytes_from_packet encode p) of
        None \<Rightarrow> (out, Inl Utf8Error)
      | Some s \<Rightarrow>
          (case net out (Ws (WsText s)) of
             Inl _ \<Rightarrow> (out, Inl WsError)
           | Inr _ \<Rightarrow> (out @ [Ws (WsText s)], Inr ())))"

definition websocket_upgrade ::
  "(bytes \<Rightarrow> ustr) \<Rightarrow> network \<Rightarrow> (unit + ws_message) option \<Rightarrow> wire list \<Rightarrow> wire list \<times> (eio_error + unit)" where
  "websocket_upgrade encode net answer out =
     (case websocket_send_packet encode net out (packet_new Ping probe) of
        (out, Inl e) \<Rightarrow> (out, Inl e)
      | (out, Inr _) \<Rightarrow>
          (case answer of
             None \<Rightarrow> (out, Inl IllegalWebsocketUpgrade)
           | Some (Inl _) \<Rightarrow> (out, Inl WsError)
           | Some (Inr msg) \<Rightarrow>
               if ws_message_data msg \<noteq> bytes_from_packet encode (packet_new Pong probe)
               then (out, Inl InvalidPacket)
               else websocket_send_packet encode net out (packet_new Upgrade [])))"

section \<open>Lemmas on streams\<close>

lemma websocket_stream_simps [simp]:
  "websocket_stream [] = []"
  "websocket_stream (Inl u # ms) = Inl WsError # websocket_stream ms"
  "websocket_stream (Inr (WsText s) # ms) = Inr (as_bytes s) # websocket_stream ms"
  "websocket_stream (Inr (WsBinary d) # ms) = Inr (4 # d) # websocket_stream ms"
  "websocket_stream (Inr (WsOther d) # ms) = websocket_stream ms"
  by (simp_all add: websocket_stream.simps [of "[]"] websocket_stream.simps [of "_ # _"])
    (subst websocket_stream.simps, simp)

lemma server_polling_stream_eq [simp]: "server_polling_stream q = map Inr q"
  by (induction q) (simp_all add: server_polling_stream.simps)

lemma response_chunks_ok [simp]: "response_chunks (map Inr cs) = (map Inr cs, True)"
  by (induction cs) auto

section \<open>The wire form of a packet\<close>

text \<open>
  What a transport of a given kind puts out for a piece of data, apart from the outcome.
\<close>

definition transport_wire :: "(bytes \<Rightarrow> ustr) \<Rightarrow> transport_type \<Rightarrow> data \<Rightarrow> eio_error + wire" where
  "transport_wire encode t payload =
     (case t of
        ClientPolling \<Rightarrow> Inr (Post (polling_body encode payload))
      | ServerPolling \<Rightarrow> Inr (Queue (polling_body encode payload))
      | Websocket \<Rightarrow> try_bind (message_try_from payload) (\<lambda>m. Inr (Ws m)))"

definition transport_outcome :: "transport_type \<Rightarrow> unit + u16 \<Rightarrow> eio_error + unit" where
  "transport_outcome t r =
     (case r of
        Inl _ \<Rightarrow> Inl (case t of ClientPolling \<Rightarrow> HttpError | ServerPolling \<Rightarrow> SendError | Websocket \<Rightarrow> WsError)
      | Inr status \<Rightarrow>
          if t = ClientPolling \<and> status \<noteq> 200 then Inl (InvalidHttpResponseStatus status) else Inr ())"

lemma transport_emit_wire:
  "transport_emit encode net t out payload =
     (case transport_wire encode t payload of
        Inl e \<Rightarrow> (out, Inl e)
      | Inr w \<Rightarrow>
          (case net out w of Inl _ \<Rightarrow> out | Inr _ \<Rightarrow> out @ [w], transport_outcome t (net out w)))"
  by (auto simp: transport_emit_def transport_wire_def transport_outcome_def client_polling_emit_def
      server_polling_emit_def websocket_emit_def Let_def split: transport_type.splits sum.splits)

lemma transport_emit_prefix:
  assumes "transport_emit encode net t out payload = (out', r)"
  shows "out' = out \<or> (\<exists>w. out' = out @ [w])"
  using assms by (auto simp: transport_emit_wire split: sum.splits)

section \<open>Properties\<close>

text \<open>
  The upgrade of a polling client succeeds exactly when both messages are accepted by
  the network and the answer to the probe ping is the probe pong; then the ping with the
  text probe and the upgrade packet, in this order, are all that was sent.
\<close>

theorem upgrade_success:
  "websocket_upgrade encode net answer out = (out', Inr ()) \<longleftrightarrow>
     (let ping = Ws (WsText (str ''2probe'')); up = Ws (WsText (str ''5'')) in
      (\<exists>s. net out ping = Inr s) \<and>
      (\<exists>m. answer = Some (Inr m) \<and> ws_message_data m = as_bytes (str ''3probe'')) \<and>
      (\<exists>s. net (out @ [ping]) up = Inr s) \<and>
      out' = out @ [ping, up])"
proof -
  have texts: "bytes_from_packet encode (packet_new Ping probe) = as_bytes (str ''2probe'')"
    "bytes_from_packet encode (packet_new Pong probe) = as_bytes (str ''3probe'')"
    "bytes_from_packet encode (packet_new Upgrade []) = as_bytes (str ''5'')"
    by (simp_all add: codec_simps probe_def)
  have utf8: "from_utf8 (as_bytes (str ''2probe'')) = Some (str ''2probe'')"
    "from_utf8 (as_bytes (str ''5'')) = Some (str ''5'')"
    by (rule from_utf8_as_bytes; simp add: scalar_def)+
  define ping up pong where "ping = str ''2probe''" and "up = str ''5''" and "pong = as_bytes (str ''3probe'')"
  show ?thesis
    unfolding websocket_upgrade_def websocket_send_packet_def texts utf8 Let_def
    unfolding ping_def [symmetric] up_def [symmetric] pong_def [symmetric]
    by (auto split: sum.splits option.splits if_splits)
qed

end
