(* ===== verification/Engine_Socket.thy ===== *)
theory Engine_Socket
  imports Engine_Transport
begin

text \<open>
  The Engine.IO socket (\<open>engineio/src/socket/socket.rs\<close>), which clients and servers share:
  its flags and clocks, the events it reports, what it puts out and the packets it yields.
  The clones of a socket share these fields, so the state is one record. The sending end of
  an event channel is the list of the events sent and a flag that tells whether the
  receiver is alive; waiting for room in a channel is not modelled. The current instant is
  an argument.
\<close>

section \<open>Data\<close>

type_synonym instant = nat
type_synonym sid = ustr

text \<open>An error event carries the text of an error; the error itself stands for its text.\<close>

datatype eio_event =
    OnOpen sid
  | OnClose sid
  | OnData sid bytes
  | OnPacket sid eio_packet
  | OnError sid eio_error

record event_sender =
  receiver_alive :: bool
  events_sent :: "eio_event list"

record eio_socket =
  transport :: transport_type
  event_tx :: "event_sender option"
  connected :: bool
  last_ping :: instant
  last_pong :: instant
  connection_data :: handshake_packet
  generator :: "(eio_error + eio_packet) list"
  server_end :: bool
  should_pong :: bool
  wire_out :: "wire list"

section \<open>Incoming packets\<close>

definition parse_payload :: "(bytes \<Rightarrow> bytes option) \<Rightarrow> bytes \<Rightarrow> (eio_error + eio_packet) list" where
  "parse_payload decode bs =
     (case payload_try_from decode bs of
        Inl e \<Rightarrow> [Inl e]
      | Inr ps \<Rightarrow> map Inr ps)"

text \<open>
  The stream of packets: the packets of every payload in turn. An error of the transport or
  of a payload is yielded and ends the stream.
\<close>

fun socket_stream :: "(bytes \<Rightarrow> bytes option) \<Rightarrow> (eio_error + bytes) list \<Rightarrow> (eio_error + eio_packet) list" where
  "socket_stream decode [] = []"
| "socket_stream decode (Inl e # payloads) = [Inl e]"
| "socket_stream decode (Inr bs # payloads) =
     (case payload_try_from decode bs of
        Inl e \<Rightarrow> parse_payload decode bs
      | Inr ps \<Rightarrow> parse_payload decode bs @ socket_stream decode payloads)"

section \<open>Operations\<close>

definition socket_new ::
  "instant \<Rightarrow> transport_type \<Rightarrow> (eio_error + eio_packet) list \<Rightarrow> handshake_packet \<Rightarrow> event_sender option \<Rightarrow>
     bool \<Rightarrow> bool \<Rightarrow> eio_socket" where
  "socket_new now t stream hs tx pong server =
     \<lparr>transport = t, event_tx = tx, connected = False, last_ping = now, last_pong = now,
      connection_data = hs, generator = stream, server_end = server, should_pong = pong,
      wire_out = []\<rparr>"

definition socket_sid :: "eio_socket \<Rightarrow> sid" where
  "socket_sid s = hs_sid (connection_data s)"

definition is_connected :: "eio_socket \<Rightarrow> bool" where
  "is_connected s = connected s"

definition socket_last_pong :: "eio_socket \<Rightarrow> instant" where
  "socket_last_pong s = last_pong s"

text \<open>Sending an event fails when the receiver is gone; without a channel nothing is sent.\<close>

definition send_event :: "eio_event \<Rightarrow> eio_socket \<Rightarrow> eio_socket \<times> (eio_error + unit)" where
  "send_event ev s =
     (case event_tx s of
        None \<Rightarrow> (s, Inr ())
      | Some tx \<Rightarrow>
          if receiver_alive tx
          then (s\<lparr>event_tx := Some (tx\<lparr>events_sent := events_sent tx @ [ev]\<rparr>)\<rparr>, Inr ())
          else (s, Inl EventSendError))"

definition on_error :: "eio_error \<Rightarrow> eio_socket \<Rightarrow> eio_socket" where
  "on_error e s = fst (send_event (OnError (socket_sid s) e) s)"

definition pinged :: "instant \<Rightarrow> eio_socket \<Rightarrow> eio_socket" where
  "pinged now s = s\<lparr>last_ping := now\<rparr>"

definition ponged :: "instant \<Rightarrow> eio_socket \<Rightarrow> eio_socket" where
  "ponged now s = s\<lparr>last_pong := now\<rparr>"

definition handle_packet :: "eio_packet \<Rightarrow> eio_socket \<Rightarrow> eio_socket" where
  "handle_packet p s = fst (send_event (OnPacket (socket_sid s) p) s)"

definition handle_data :: "bytes \<Rightarrow> eio_socket \<Rightarrow> eio_socket" where
  "handle_data d s = fst (send_event (OnData (socket_sid s) d) s)"

definition handle_close :: "eio_socket \<Rightarrow> eio_socket" where
  "handle_close s =
     (if \<not> is_connected s then s
      else (fst (send_event (OnClose (socket_sid s)) s))\<lparr>connected := False\<rparr>)"

text \<open>The data a packet becomes: binary messages stay raw, the others are encoded.\<close>

definition packet_data :: "(bytes \<Rightarrow> ustr) \<Rightarrow> eio_packet \<Rightarrow> data" where
  "packet_data encode p =
     (case eptype p of
        MessageBinary \<Rightarrow> Binary (edata p)
      | _ \<Rightarrow> Text (bytes_from_packet encode p))"

definition socket_emit ::
  "(bytes \<Rightarrow> ustr) \<Rightarrow> network \<Rightarrow> eio_packet \<Rightarrow> eio_socket \<Rightarrow> eio_socket \<times> (eio_error + unit)" where
  "socket_emit encode net p s =
     (if \<not> connected s then (on_error IllegalActionBeforeOpen s, Inl IllegalActionBeforeOpen)
      else
        case transport_emit encode net (transport s) (wire_out s) (packet_data encode p) of
          (out, Inl e) \<Rightarrow> (on_error e (s\<lparr>wire_out := out\<rparr>), Inl e)
        | (out, Inr _) \<Rightarrow> (s\<lparr>wire_out := out\<rparr>, Inr ()))"

fun emit_multi_loop ::
  "(bytes \<Rightarrow> ustr) \<Rightarrow> network \<Rightarrow> eio_packet list \<Rightarrow> eio_socket \<Rightarrow> eio_socket \<times> (eio_error + unit)" where
  "emit_multi_loop encode net [] s = (s, Inr ())"
| "emit_multi_loop encode net (p # ps) s =
     (case transport_emit encode net (transport s) (wire_out s) (packet_data encode p) of
        (out, Inl e) \<Rightarrow> (on_error e (s\<lparr>wire_out := out\<rparr>), Inl e)
      | (out, Inr _) \<Rightarrow> emit_multi_loop encode net ps (s\<lparr>wire_out := out\<rparr>))"

definition socket_emit_multi ::
  "(bytes \<Rightarrow> ustr) \<Rightarrow> network \<Rightarrow> eio_packet list \<Rightarrow> eio_socket \<Rightarrow> eio_socket \<times> (eio_error + unit)" where
  "socket_emit_multi encode net ps s =
     (if \<not> connected s then (on_error IllegalActionBeforeOpen s, Inl IllegalActionBeforeOpen)
      else emit_multi_loop encode net ps s)"

definition socket_connect ::
  "(bytes \<Rightarrow> ustr) \<Rightarrow> network \<Rightarrow> instant \<Rightarrow> eio_socket \<Rightarrow> eio_socket \<times> (eio_error + unit)" where
  "socket_connect encode net now s =
     (case send_event (OnOpen (socket_sid s)) (s\<lparr>connected := True\<rparr>) of
        (s, Inl e) \<Rightarrow> (s, Inl e)
      | (s, Inr _) \<Rightarrow>
          let s = s\<lparr>last_ping := now\<rparr> in
          if \<not> server_end s then socket_emit encode net (packet_new Pong []) s
          else (s, Inr ()))"

definition socket_disconnect ::
  "(bytes \<Rightarrow> ustr) \<Rightarrow> network \<Rightarrow> eio_socket \<Rightarrow> eio_socket \<times> (eio_error + unit)" where
  "socket_disconnect encode net s =
     (if \<not> is_connected s then (s, Inr ())
      else
        case send_event (OnClose (socket_sid s)) s of
          (s, Inl e) \<Rightarrow> (s, Inl e)
        | (s, Inr _) \<Rightarrow>
            (case socket_emit encode net (packet_new Close []) s of
               (s, Inl e) \<Rightarrow> (s, Inl e)
             | (s, Inr _) \<Rightarrow> (s\<lparr>connected := False\<rparr>, Inr ())))"

definition handle_incoming_packet ::
  "(bytes \<Rightarrow> ustr) \<Rightarrow> network \<Rightarrow> instant \<Rightarrow> eio_packet \<Rightarrow> eio_socket \<Rightarrow> eio_socket" where
  "handle_incoming_packet encode net now p s =
     (let s = handle_packet p (ponged now s) in
      case eptype p of
        MessageBinary \<Rightarrow> handle_data (edata p) s
      | Message \<Rightarrow> handle_data (edata p) s
      | Close \<Rightarrow> handle_close s
      | Upgrade \<Rightarrow> s
      | Ping \<Rightarrow>
          (let s = pinged now s in
           if should_pong s then fst (socket_emit encode net (packet_new Pong (edata p)) s) else s)
      | Pong \<Rightarrow> s
      | Open \<Rightarrow> s
      | Noop \<Rightarrow> s)"

text \<open>The new transport brings its own stream of incoming data.\<close>

definition socket_upgrade ::
  "(bytes \<Rightarrow> bytes option) \<Rightarrow> transport_type \<Rightarrow> (eio_error + bytes) list \<Rightarrow> eio_socket \<Rightarrow> eio_socket" where
  "socket_upgrade decode t incoming s =
     (let s = s\<lparr>transport := t\<rparr> in s\<lparr>generator := socket_stream decode incoming\<rparr>)"

definition socket_poll_next ::
  "(bytes \<Rightarrow> ustr) \<Rightarrow> network \<Rightarrow> instant \<Rightarrow> eio_socket \<Rightarrow> eio_socket \<times> (eio_error + eio_packet) option" where
  "socket_poll_next encode net now s =
     (case generator s of
        [] \<Rightarrow> (s, None)
      | item # rest \<Rightarrow>
          let s = s\<lparr>generator := rest\<rparr> in
          (case item of
             Inr p \<Rightarrow> (handle_incoming_packet encode net now p s, Some item)
           | Inl _ \<Rightarrow> (s, Some item)))"

section \<open>Steps of a socket\<close>

text \<open>
  The calls that clones of a socket may make in any order, and the loss of the receiver of
  the events. Each is one step; a socket is reachable by steps from a new one.
\<close>

datatype socket_op =
    OpConnect instant
  | OpDisconnect
  | OpEmit eio_packet
  | OpEmitMulti "eio_packet list"
  | OpPoll instant
  | OpUpgrade transport_type "(eio_error + bytes) list"
  | OpDropReceiver

definition drop_receiver :: "eio_socket \<Rightarrow> eio_socket" where
  "drop_receiver s = s\<lparr>event_tx := map_option (\<lambda>tx. tx\<lparr>receiver_alive := False\<rparr>) (event_tx s)\<rparr>"

fun socket_apply ::
  "(bytes \<Rightarrow> ustr) \<Rightarrow> (bytes \<Rightarrow> bytes option) \<Rightarrow> network \<Rightarrow> socket_op \<Rightarrow> eio_socket \<Rightarrow> eio_socket" where
  "socket_apply encode decode net (OpConnect now) s = fst (socket_connect encode net now s)"
| "socket_apply encode decode net OpDisconnect s = fst (socket_disconnect encode net s)"
| "socket_apply encode decode net (OpEmit p) s = fst (socket_emit encode net p s)"
| "socket_apply encode decode net (OpEmitMulti ps) s = fst (socket_emit_multi encode net ps s)"
| "socket_apply encode decode net (OpPoll now) s = fst (socket_poll_next encode net now s)"
| "socket_apply encode decode net (OpUpgrade t incoming) s = socket_upgrade decode t incoming s"
| "socket_apply encode decode net OpDropReceiver s = drop_receiver s"

text \<open>The states that whole operations reach, each of which runs without interruption.\<close>

inductive socket_reach ::
  "(bytes \<Rightarrow> ustr) \<Rightarrow> (bytes \<Rightarrow> bytes option) \<Rightarrow> network \<Rightarrow> eio_socket \<Rightarrow> eio_socket \<Rightarrow> bool"
  for encode decode net where
  reach_start: "socket_reach encode decode net s s"
| reach_step: "socket_reach encode decode net s s' \<Longrightarrow> socket_reach encode decode net s (socket_apply encode decode net op s')"

section \<open>Lemmas on events\<close>

definition events :: "eio_socket \<Rightarrow> eio_event list" where
  "events s = (case event_tx s of None \<Rightarrow> [] | Some tx \<Rightarrow> events_sent tx)"

definition listening :: "eio_socket \<Rightarrow> bool" where
  "listening s = (case event_tx s of None \<Rightarrow> False | Some tx \<Rightarrow> receiver_alive tx)"

definition logged :: "eio_socket \<Rightarrow> eio_event list \<Rightarrow> eio_event list" where
  "logged s evs = (if listening s then evs else [])"

lemma send_event_fields [simp]:
  "transport (fst (send_event ev s)) = transport s"
  "connected (fst (send_event ev s)) = connected s"
  "last_ping (fst (send_event ev s)) = last_ping s"
  "last_pong (fst (send_event ev s)) = last_pong s"
  "connection_data (fst (send_event ev s)) = connection_data s"
  "generator (fst (send_event ev s)) = generator s"
  "server_end (fst (send_event ev s)) = server_end s"
  "should_pong (fst (send_event ev s)) = should_pong s"
  "wire_out (fst (send_event ev s)) = wire_out s"
  "socket_sid (fst (send_event ev s)) = socket_sid s"
  by (simp_all add: send_event_def socket_sid_def split: option.splits)

lemma send_event_events [simp]:
  "events (fst (send_event ev s)) = events s @ logged s [ev]"
  "listening (fst (send_event ev s)) = listening s"
  by (auto simp: send_event_def events_def listening_def logged_def split: option.splits)

lemma events_update [simp]:
  "events (s\<lparr>transport := t\<rparr>) = events s" "listening (s\<lparr>transport := t\<rparr>) = listening s"
  "events (s\<lparr>connected := b\<rparr>) = events s" "listening (s\<lparr>connected := b\<rparr>) = listening s"
  "events (s\<lparr>last_ping := n\<rparr>) = events s" "listening (s\<lparr>last_ping := n\<rparr>) = listening s"
  "events (s\<lparr>last_pong := n\<rparr>) = events s" "listening (s\<lparr>last_pong := n\<rparr>) = listening s"
  "events (s\<lparr>generator := g\<rparr>) = events s" "listening (s\<lparr>generator := g\<rparr>) = listening s"
  "events (s\<lparr>wire_out := w\<rparr>) = events s" "listening (s\<lparr>wire_out := w\<rparr>) = listening s"
  "socket_sid (s\<lparr>transport := t\<rparr>) = socket_sid s" "socket_sid (s\<lparr>connected := b\<rparr>) = socket_sid s"
  "socket_sid (s\<lparr>last_ping := n\<rparr>) = socket_sid s" "socket_sid (s\<lparr>last_pong := n\<rparr>) = socket_sid s"
  "socket_sid (s\<lparr>generator := g\<rparr>) = socket_sid s" "socket_sid (s\<lparr>wire_out := w\<rparr>) = socket_sid s"
  by (simp_all add: events_def listening_def socket_sid_def)

lemma logged_simps [simp]: "logged s [] = []"
  "logged (fst (send_event ev s)) evs = logged s evs"
  "logged (s\<lparr>connected := b\<rparr>) evs = logged s evs" "logged (s\<lparr>wire_out := w\<rparr>) evs = logged s evs"
  "logged (s\<lparr>last_ping := n\<rparr>) evs = logged s evs" "logged (s\<lparr>last_pong := n\<rparr>) evs = logged s evs"
  "logged (s\<lparr>generator := g\<rparr>) evs = logged s evs"
  by (simp_all add: logged_def)

lemma drop_receiver_simps [simp]:
  "events (drop_receiver s) = events s" "\<not> listening (drop_receiver s)"
  "connected (drop_receiver s) = connected s" "wire_out (drop_receiver s) = wire_out s"
  "socket_sid (drop_receiver s) = socket_sid s"
  "server_end (drop_receiver s) = server_end s" "should_pong (drop_receiver s) = should_pong s"
  by (auto simp: drop_receiver_def events_def listening_def socket_sid_def split: option.splits)

lemmas socket_defs = on_error_def handle_packet_def handle_data_def pinged_def ponged_def is_connected_def

section \<open>Lemmas on operations\<close>

text \<open>
  What every emission leaves alone: the flags and the identity; it may add to what was
  sent, only while connected, and reports nothing but errors.
\<close>

definition emit_frame :: "eio_socket \<Rightarrow> eio_socket \<Rightarrow> bool" where
  "emit_frame s s' \<longleftrightarrow>
     connected s' = connected s \<and> listening s' = listening s \<and>
     socket_sid s' = socket_sid s \<and> server_end s' = server_end s \<and> should_pong s' = should_pong s \<and>
     last_pong s' = last_pong s \<and>
     (\<exists>ws. wire_out s' = wire_out s @ ws \<and> (connected s \<or> ws = [])) \<and>
     (\<exists>es. events s' = events s @ map (OnError (socket_sid s)) es)"

lemma emit_frame_refl [simp]: "emit_frame s s"
  by (auto simp: emit_frame_def intro: exI [of _ "[]"])

lemma emit_frame_trans: "emit_frame s s' \<Longrightarrow> emit_frame s' s'' \<Longrightarrow> emit_frame s s''"
  unfolding emit_frame_def by (auto simp: map_append [symmetric] simp del: map_append)

lemma emit_frame_on_error:
  assumes "connected s \<or> ws = []"
  shows "emit_frame s (on_error e (s\<lparr>wire_out := wire_out s @ ws\<rparr>))"
  using assms unfolding emit_frame_def
  by (auto simp: on_error_def logged_def intro: exI [of _ "[]"] exI [of _ "[e]"])

lemma emit_frame_sent: "connected s \<Longrightarrow> emit_frame s (s\<lparr>wire_out := wire_out s @ ws\<rparr>)"
  by (auto simp: emit_frame_def intro: exI [of _ "[]"])

lemma transport_emit_extends:
  "transport_emit encode net t out d = (out', r) \<Longrightarrow> \<exists>ws. out' = out @ ws"
  using transport_emit_prefix by fastforce

lemma emit_multi_loop_frame:
  assumes "connected s"
  shows "emit_frame s (fst (emit_multi_loop encode net ps s))"
  using assms
proof (induction ps arbitrary: s)
  case (Cons p ps)
  obtain out r where t: "transport_emit encode net (transport s) (wire_out s) (packet_data encode p) = (out, r)"
    by fastforce
  then obtain ws where out: "out = wire_out s @ ws" using transport_emit_extends by blast
  show ?case
  proof (cases r)
    case Inl
    with t out emit_frame_on_error [of s ws] Cons.prems show ?thesis by simp
  next
    case Inr
    with t out Cons.IH [of "s\<lparr>wire_out := out\<rparr>"] emit_frame_sent [of s ws] Cons.prems show ?thesis
      by (auto intro: emit_frame_trans)
  qed
qed simp

lemma socket_emit_multi_frame: "emit_frame s (fst (socket_emit_multi encode net ps s))"
  using emit_frame_on_error [of s "[]"] by (auto simp: socket_emit_multi_def emit_multi_loop_frame)

text \<open>Emitting one packet is emitting a list of one.\<close>

lemma socket_emit_eq_multi: "socket_emit encode net p s = socket_emit_multi encode net [p] s"
  by (auto simp: socket_emit_def socket_emit_multi_def split: prod.splits sum.splits)

lemma socket_emit_frame: "emit_frame s (fst (socket_emit encode net p s))"
  by (simp add: socket_emit_eq_multi socket_emit_multi_frame)

lemma socket_emit_fields [simp]:
  "connected (fst (socket_emit encode net p s)) = connected s"
  "listening (fst (socket_emit encode net p s)) = listening s"
  "socket_sid (fst (socket_emit encode net p s)) = socket_sid s"
  "last_pong (fst (socket_emit encode net p s)) = last_pong s"
  using socket_emit_frame [of s encode net p] by (simp_all add: emit_frame_def)

lemma socket_emit_closed:
  "\<not> connected s \<Longrightarrow> wire_out (fst (socket_emit encode net p s)) = wire_out s"
  using socket_emit_frame [of s encode net p] by (auto simp: emit_frame_def)

text \<open>
  The effect of one step on a socket: the identity stays, what was sent and reported only
  grows, a lost receiver does not come back.
\<close>

definition step_frame :: "eio_socket \<Rightarrow> eio_socket \<Rightarrow> bool" where
  "step_frame s s' \<longleftrightarrow>
     socket_sid s' = socket_sid s \<and> (listening s' \<longrightarrow> listening s) \<and>
     server_end s' = server_end s \<and> should_pong s' = should_pong s \<and>
     (\<exists>ws. wire_out s' = wire_out s @ ws) \<and> (\<exists>evs. events s' = events s @ evs)"

lemma emit_step_frame: "emit_frame s s' \<Longrightarrow> step_frame s s'"
  by (auto simp: emit_frame_def step_frame_def)

lemma step_frame_trans: "step_frame s s' \<Longrightarrow> step_frame s' s'' \<Longrightarrow> step_frame s s''"
  by (auto simp: step_frame_def)

lemma step_frame_refl [simp]: "step_frame s s"
  by (simp add: step_frame_def)

lemma step_frame_intros:
  assumes "step_frame s s'"
  shows "step_frame s (fst (send_event ev s'))"
    and "step_frame s (s'\<lparr>connected := b\<rparr>)" and "step_frame s (s'\<lparr>last_ping := n\<rparr>)"
    and "step_frame s (s'\<lparr>last_pong := n\<rparr>)" and "step_frame s (s'\<lparr>generator := g\<rparr>)"
    and "step_frame s (s'\<lparr>transport := t\<rparr>)" and "step_frame s (drop_receiver s')"
  using assms by (auto simp: step_frame_def)

lemma step_frame_emits:
  assumes "step_frame s s'"
  shows "step_frame s (fst (socket_emit encode net p s'))"
    and "step_frame s (fst (socket_emit_multi encode net ps s'))"
  using step_frame_trans [OF assms emit_step_frame] socket_emit_frame socket_emit_multi_frame by blast+

lemma handle_close_fields [simp]:
  "wire_out (handle_close s) = wire_out s" "listening (handle_close s) = listening s"
  "socket_sid (handle_close s) = socket_sid s" "connected (handle_close s) = False"
  "events (handle_close s) = events s @ (if connected s then logged s [OnClose (socket_sid s)] else [])"
  by (simp_all add: handle_close_def is_connected_def)

text \<open>The calls of an operation in sequence, for a result that is known.\<close>

lemma send_event_result:
  "send_event ev s = (s', r) \<longleftrightarrow>
     s' = fst (send_event ev s) \<and> r = (if event_tx s \<noteq> None \<and> \<not> listening s then Inl EventSendError else Inr ())"
  by (auto simp: send_event_def listening_def split: option.splits)

lemma socket_connect_eq:
  "socket_connect encode net now s =
     (let s1 = fst (send_event (OnOpen (socket_sid s)) (s\<lparr>connected := True\<rparr>)) in
      if event_tx s \<noteq> None \<and> \<not> listening s then (s1, Inl EventSendError)
      else if server_end s then (s1\<lparr>last_ping := now\<rparr>, Inr ())
      else socket_emit encode net (packet_new Pong []) (s1\<lparr>last_ping := now\<rparr>))"
  by (auto simp: socket_connect_def Let_def send_event_result split: prod.splits sum.splits if_splits)

lemma socket_disconnect_eq:
  "socket_disconnect encode net s =
     (if \<not> connected s then (s, Inr ())
      else let s1 = fst (send_event (OnClose (socket_sid s)) s) in
      if event_tx s \<noteq> None \<and> \<not> listening s then (s1, Inl EventSendError)
      else let r = socket_emit encode net (packet_new Close []) s1 in
      if is_ok (snd r) then ((fst r)\<lparr>connected := False\<rparr>, Inr ()) else r)"
  by (auto simp: socket_disconnect_def Let_def is_connected_def send_event_result split: prod.splits sum.splits if_splits)

lemma connect_listening [simp]:
  "listening (fst (socket_connect encode net now s)) = listening s"
  "listening (fst (socket_disconnect encode net s)) = listening s"
  by (simp_all add: socket_connect_eq socket_disconnect_eq Let_def)

lemma wire_out_same: "wire_out s = w \<Longrightarrow> s\<lparr>wire_out := w\<rparr> = s"
  by (cases s) simp

lemma step_frame_handle:
  "step_frame s s' \<Longrightarrow> step_frame s (handle_incoming_packet encode net now p s')"
  by (cases "eptype p") (auto simp: handle_incoming_packet_def Let_def socket_defs handle_close_def
      intro!: step_frame_intros step_frame_emits)

lemma step_frame_apply: "step_frame s (socket_apply encode decode net op s)"
  by (cases op) (auto simp: socket_connect_eq socket_disconnect_eq socket_poll_next_def socket_upgrade_def Let_def
      split: list.splits sum.splits intro!: step_frame_intros step_frame_emits step_frame_handle)

text \<open>Emissions report neither the opening nor the closing of the socket.\<close>

definition opens :: "eio_socket \<Rightarrow> nat" where
  "opens s = count_list (events s) (OnOpen (socket_sid s))"

definition closes :: "eio_socket \<Rightarrow> nat" where
  "closes s = count_list (events s) (OnClose (socket_sid s))"

lemma count_map_error [simp]:
  "count_list (map (OnError i) es) (OnOpen j) = 0" "count_list (map (OnError i) es) (OnClose j) = 0"
  by (induction es) auto

lemma emit_frame_counts: "emit_frame s s' \<Longrightarrow> opens s' = opens s \<and> closes s' = closes s"
  by (auto simp: emit_frame_def opens_def closes_def)

lemma emit_counts [simp]:
  "opens (fst (socket_emit encode net p s)) = opens s" "closes (fst (socket_emit encode net p s)) = closes s"
  "opens (fst (socket_emit_multi encode net ps s)) = opens s"
  "closes (fst (socket_emit_multi encode net ps s)) = closes s"
  using emit_frame_counts [OF socket_emit_frame] emit_frame_counts [OF socket_emit_multi_frame] by blast+

lemma send_event_counts [simp]:
  "opens (fst (send_event ev s)) = opens s + of_bool (listening s \<and> ev = OnOpen (socket_sid s))"
  "closes (fst (send_event ev s)) = closes s + of_bool (listening s \<and> ev = OnClose (socket_sid s))"
  by (simp_all add: opens_def closes_def logged_def)

lemma update_counts [simp]:
  "opens (s\<lparr>connected := b\<rparr>) = opens s" "closes (s\<lparr>connected := b\<rparr>) = closes s"
  "opens (s\<lparr>last_ping := n\<rparr>) = opens s" "closes (s\<lparr>last_ping := n\<rparr>) = closes s"
  "opens (s\<lparr>last_pong := n\<rparr>) = opens s" "closes (s\<lparr>last_pong := n\<rparr>) = closes s"
  "opens (s\<lparr>generator := g\<rparr>) = opens s" "closes (s\<lparr>generator := g\<rparr>) = closes s"
  "opens (s\<lparr>transport := t\<rparr>) = opens s" "closes (s\<lparr>transport := t\<rparr>) = closes s"
  "opens (drop_receiver s) = opens s" "closes (drop_receiver s) = closes s"
  by (simp_all add: opens_def closes_def)

lemma emit_multi_fields [simp]:
  "connected (fst (socket_emit_multi encode net ps s)) = connected s"
  "listening (fst (socket_emit_multi encode net ps s)) = listening s"
  using socket_emit_multi_frame [of s encode net ps] by (simp_all add: emit_frame_def)

lemma handle_incoming_counts:
  "opens (handle_incoming_packet encode net now p s) = opens s"
  "closes (handle_incoming_packet encode net now p s) =
     closes s + of_bool (listening s \<and> connected s \<and> eptype p = Close)"
  "connected (handle_incoming_packet encode net now p s) \<longleftrightarrow> connected s \<and> eptype p \<noteq> Close"
  "listening (handle_incoming_packet encode net now p s) = listening s"
  by (cases "eptype p"; simp add: handle_incoming_packet_def Let_def socket_defs handle_close_def)+

text \<open>A network on which every output succeeds.\<close>

definition reliable :: "network \<Rightarrow> bool" where
  "reliable net \<longleftrightarrow> (\<forall>out w. net out w = Inr 200)"

lemma reliable_transport_emit:
  "reliable net \<Longrightarrow> transport_wire encode t d = Inr w \<Longrightarrow> transport_emit encode net t out d = (out @ [w], Inr ())"
  by (simp add: transport_emit_wire reliable_def transport_outcome_def)

lemma reliable_emit:
  assumes "reliable net" and "connected s" and "transport_wire encode (transport s) (packet_data encode p) = Inr w"
  shows "socket_emit encode net p s = (s\<lparr>wire_out := wire_out s @ [w]\<rparr>, Inr ())"
  using assms by (simp add: socket_emit_def reliable_transport_emit)

lemma packet_data_text: "text_packet p \<Longrightarrow> packet_data encode p = Text (as_bytes (packet_text p))"
  using packet_text_bytes [of p encode]
  by (cases "eptype p") (auto simp: packet_data_def text_packet_def)

lemma transport_wire_text:
  assumes "text_packet p"
  shows "transport_wire encode t (packet_data encode p) =
    Inr (case t of ClientPolling \<Rightarrow> Post (as_bytes (packet_text p))
         | ServerPolling \<Rightarrow> Queue (as_bytes (packet_text p))
         | Websocket \<Rightarrow> Ws (WsText (packet_text p)))"
  using packet_text_wf [OF assms] packet_data_text [OF assms]
  by (cases t) (simp_all add: transport_wire_def polling_body_def message_try_from_def)

lemma text_packet_control [simp]:
  "t \<noteq> MessageBinary \<Longrightarrow> t \<noteq> Message \<Longrightarrow> text_packet (packet_new t [])"
  using from_utf8_as_bytes [of "[]"] by (simp add: text_packet_def payload_packet_def)

lemma reliable_close:
  assumes "reliable net" and "connected s"
  shows "is_ok (snd (socket_emit encode net (packet_new Close []) s))"
  using reliable_emit [OF assms transport_wire_text] by simp

section \<open>Text channels\<close>

text \<open>
  What a socket relies on in a transport: text packets put out in order can be put back
  together by the other side. The function \<open>receive\<close> takes what went over the wire to
  the byte strings that the receiving transport yields.
\<close>

locale text_channel =
  fixes encode :: "bytes \<Rightarrow> ustr" and decode :: "bytes \<Rightarrow> bytes option"
    and kind :: transport_type and receive :: "wire list \<Rightarrow> (eio_error + bytes) list"
  assumes delivery: "ps \<noteq> [] \<Longrightarrow> list_all text_packet ps \<Longrightarrow>
    try_map (transport_wire encode kind) (map (packet_data encode) ps) = Inr ws \<Longrightarrow>
    socket_stream decode (receive ws) = map Inr ps"
begin

lemma channel_delivery:
  assumes "reliable net" and "connected s" and "transport s = kind"
    and "ps \<noteq> []" and "list_all text_packet ps"
  obtains ws where "socket_emit_multi encode net ps s = (s\<lparr>wire_out := wire_out s @ ws\<rparr>, Inr ())"
    and "socket_stream decode (receive ws) = map Inr ps"
proof -
  have loop: "list_all text_packet ps \<Longrightarrow> transport s = kind \<Longrightarrow>
      \<exists>ws. try_map (transport_wire encode kind) (map (packet_data encode) ps) = Inr ws \<and>
        emit_multi_loop encode net ps s = (s\<lparr>wire_out := wire_out s @ ws\<rparr>, Inr ())" for ps s
  proof (induction ps arbitrary: s)
    case (Cons p ps)
    then have p: "text_packet p" by simp
    obtain w where w: "transport_wire encode kind (packet_data encode p) = Inr w"
      using transport_wire_text [OF p] by blast
    obtain ws where ws: "try_map (transport_wire encode kind) (map (packet_data encode) ps) = Inr ws"
      "emit_multi_loop encode net ps (s\<lparr>wire_out := wire_out s @ [w]\<rparr>) =
        (s\<lparr>wire_out := wire_out s @ w # ws\<rparr>, Inr ())"
      using Cons.IH [of "s\<lparr>wire_out := wire_out s @ [w]\<rparr>"] Cons.prems by auto
    then show ?case using reliable_transport_emit [OF assms(1) w] Cons.prems(2) w by simp
  qed simp
  from loop [OF assms(5,3)] delivery [OF assms(4,5)] that assms(2) show thesis
    by (auto simp: socket_emit_multi_def)
qed

end

text \<open>
  The three transports: the bodies of posts go to the server's queue one by one, the
  messages of a websocket arrive as they are, the server's queue is drained into one
  response body.
\<close>

definition post_receive :: "wire list \<Rightarrow> (eio_error + bytes) list" where
  "post_receive ws = server_polling_stream (concat (map (\<lambda>w. case w of Post b \<Rightarrow> [b] | _ \<Rightarrow> []) ws))"

definition ws_receive :: "wire list \<Rightarrow> (eio_error + bytes) list" where
  "ws_receive ws = websocket_stream (concat (map (\<lambda>w. case w of Ws m \<Rightarrow> [Inr m] | _ \<Rightarrow> []) ws))"

definition queue_receive :: "(bytes \<Rightarrow> ustr) \<Rightarrow> wire list \<Rightarrow> (eio_error + bytes) list" where
  "queue_receive encode ws =
     (case build_polling_payload encode (concat (map (\<lambda>w. case w of Queue b \<Rightarrow> [b] | _ \<Rightarrow> []) ws)) of
        None \<Rightarrow> []
      | Some body \<Rightarrow> client_polling_stream [Inr [Inr (as_bytes body)]])"

text \<open>Posts carry packets of every type that fits into a payload.\<close>

lemma post_wire:
  "transport_wire encode ClientPolling (packet_data encode p) = Inr (Post (bytes_from_packet encode p))"
  by (cases "eptype p") (simp_all add: transport_wire_def packet_data_def polling_body_def bytes_from_packet_def)

lemma try_map_text:
  "list_all text_packet ps \<Longrightarrow>
   try_map (transport_wire encode t) (map (packet_data encode) ps) =
     Inr (map (\<lambda>p. case t of ClientPolling \<Rightarrow> Post (as_bytes (packet_text p))
         | ServerPolling \<Rightarrow> Queue (as_bytes (packet_text p))
         | Websocket \<Rightarrow> Ws (WsText (packet_text p))) ps)"
  by (induction ps) (simp_all add: transport_wire_text)

context base64
begin

lemma payload_single: "text_packet p \<Longrightarrow> payload_try_from decode (as_bytes (packet_text p)) = Inr [p]"
  using payload_pieces_decode [of "[p]"] by (simp add: packet_text_bytes text_packet_def)

lemma socket_stream_singles:
  "list_all text_packet ps \<Longrightarrow>
   socket_stream decode (map (\<lambda>p. Inr (as_bytes (packet_text p))) ps) = map Inr ps"
  by (induction ps) (simp_all add: payload_single parse_payload_def)

end

sublocale base64 \<subseteq> upstream: text_channel encode decode ClientPolling post_receive
proof
  fix ps ws
  assume tp: "list_all text_packet ps"
    and ws: "try_map (transport_wire encode ClientPolling) (map (packet_data encode) ps) = Inr ws"
  then have "ws = map (\<lambda>p. Post (as_bytes (packet_text p))) ps" by (simp add: try_map_text)
  then have "post_receive ws = map (\<lambda>p. Inr (as_bytes (packet_text p))) ps"
    by (induction ps arbitrary: ws) (simp_all add: post_receive_def)
  with tp show "socket_stream decode (post_receive ws) = map Inr ps" by (simp add: socket_stream_singles)
qed

sublocale base64 \<subseteq> duplex: text_channel encode decode Websocket ws_receive
proof
  fix ps ws
  assume tp: "list_all text_packet ps"
    and ws: "try_map (transport_wire encode Websocket) (map (packet_data encode) ps) = Inr ws"
  then have "ws = map (\<lambda>p. Ws (WsText (packet_text p))) ps" by (simp add: try_map_text)
  then have "ws_receive ws = map (\<lambda>p. Inr (as_bytes (packet_text p))) ps"
    by (induction ps arbitrary: ws) (simp_all add: ws_receive_def)
  with tp show "socket_stream decode (ws_receive ws) = map Inr ps" by (simp add: socket_stream_singles)
qed

sublocale base64 \<subseteq> downstream: text_channel encode decode ServerPolling "queue_receive encode"
proof
  fix ps ws
  assume ps: "ps \<noteq> []" and tp: "list_all text_packet ps"
    and ws: "try_map (transport_wire encode ServerPolling) (map (packet_data encode) ps) = Inr ws"
  then have "ws = map (\<lambda>p. Queue (as_bytes (packet_text p))) ps" by (simp add: try_map_text)
  then have "concat (map (\<lambda>w. case w of Queue b \<Rightarrow> [b] | _ \<Rightarrow> []) ws) = map (bytes_from_packet encode) ps"
    using tp by (induction ps arbitrary: ws) (simp_all add: packet_text_bytes)
  with polling_queue_body [OF ps tp]
  have "queue_receive encode ws = [Inr (as_bytes (join_with (unat SEPARATOR) (map packet_text ps)))]"
    by (simp add: queue_receive_def)
  with polling_body_decode [OF ps tp] show "socket_stream decode (queue_receive encode ws) = map Inr ps"
    by (simp add: parse_payload_def)
qed

context base64
begin

lemma socket_text_delivery:
  assumes "reliable net" and "connected s" and "ps \<noteq> []" and "list_all text_packet ps"
  shows "\<exists>ws. socket_emit_multi encode net ps s = (s\<lparr>wire_out := wire_out s @ ws\<rparr>, Inr ()) \<and>
    socket_stream decode
      (case transport s of
         ClientPolling \<Rightarrow> post_receive ws
       | Websocket \<Rightarrow> ws_receive ws
       | ServerPolling \<Rightarrow> queue_receive encode ws) = map Inr ps"
proof (cases "transport s")
  case ClientPolling
  with upstream.channel_delivery [OF assms(1,2) _ assms(3,4)] show ?thesis by fastforce
next
  case ServerPolling
  with downstream.channel_delivery [OF assms(1,2) _ assms(3,4)] show ?thesis by fastforce
next
  case Websocket
  with duplex.channel_delivery [OF assms(1,2) _ assms(3,4)] show ?thesis by fastforce
qed

lemma post_stream:
  "list_all payload_packet ps \<Longrightarrow>
   socket_stream decode (post_receive (map (\<lambda>p. Post (bytes_from_packet encode p)) ps)) = map Inr ps"
proof (induction ps)
  case (Cons p ps)
  have "payload_try_from decode (bytes_from_packet encode p) = Inr [p]"
    using payload_pieces_decode [of "[p]"] Cons.prems by simp
  with Cons show ?case by (simp add: post_receive_def parse_payload_def)
qed (simp add: post_receive_def)

lemma post_delivery:
  assumes "reliable net" and "connected s" and "transport s = ClientPolling" and "list_all payload_packet ps"
  shows "\<exists>ws. socket_emit_multi encode net ps s = (s\<lparr>wire_out := wire_out s @ ws\<rparr>, Inr ()) \<and>
    socket_stream decode (post_receive ws) = map Inr ps"
proof -
  have "emit_multi_loop encode net ps s = (s\<lparr>wire_out := wire_out s @ map (\<lambda>p. Post (bytes_from_packet encode p)) ps\<rparr>, Inr ())"
    if "transport s = ClientPolling" for s
    using that by (induction ps arbitrary: s) (simp_all add: reliable_transport_emit [OF assms(1) post_wire])
  with post_stream [OF assms(4)] assms(2,3) show ?thesis by (auto simp: socket_emit_multi_def)
qed

end

section \<open>Properties\<close>

text \<open>
  C14: Text packets emitted in one call on an open socket arrive: over polling posts, over a
  websocket and through the polling queue of a server, the receiving stream yields exactly
  these packets in this order, when the network accepts every output.
\<close>

theorem emit_multi_delivery:
  assumes "base64 encode decode" and "reliable net" and "connected s"
    and "ps \<noteq> []" and "list_all text_packet ps"
  shows "\<exists>ws. socket_emit_multi encode net ps s = (s\<lparr>wire_out := wire_out s @ ws\<rparr>, Inr ()) \<and>
    socket_stream decode
      (case transport s of
         ClientPolling \<Rightarrow> post_receive ws
       | Websocket \<Rightarrow> ws_receive ws
       | ServerPolling \<Rightarrow> queue_receive encode ws) = map Inr ps"
  by (rule base64.socket_text_delivery [OF assms])

definition example_socket :: "transport_type \<Rightarrow> eio_socket" where
  "example_socket t =
     (socket_new 0 t [] \<lparr>hs_sid = str ''1'', hs_upgrades = [], hs_ping_interval = 25, hs_ping_timeout = 20,
        hs_max_payload = 1000\<rparr> (Some \<lparr>receiver_alive = True, events_sent = []\<rparr>) True False)\<lparr>connected := True\<rparr>"

lemma example_socket_simps [simp]:
  "connected (example_socket t)" "transport (example_socket t) = t" "wire_out (example_socket t) = []"
  "should_pong (example_socket t)" "listening (example_socket t)" "events (example_socket t) = []"
  "event_tx (example_socket t) = Some \<lparr>receiver_alive = True, events_sent = []\<rparr>"
  by (simp_all add: example_socket_def socket_new_def listening_def events_def)

theorem emit_multi_delivery_witness:
  "\<exists>ws. socket_emit_multi rfc_encode (\<lambda>_ _. Inr 200) [packet_new Ping [], packet_new Close []] (example_socket Websocket) =
      ((example_socket Websocket)\<lparr>wire_out := wire_out (example_socket Websocket) @ ws\<rparr>, Inr ()) \<and>
    socket_stream rfc_decode
      (case transport (example_socket Websocket) of
         ClientPolling \<Rightarrow> post_receive ws
       | Websocket \<Rightarrow> ws_receive ws
       | ServerPolling \<Rightarrow> queue_receive rfc_encode ws) = map Inr [packet_new Ping [], packet_new Close []]"
  by (rule emit_multi_delivery [OF rfc4648.base64_axioms]) (simp_all add: reliable_def)

text \<open>
  C39: A binary message sent over a websocket reaches the other side's packets unchanged, as
  one message, exactly when its data is not empty and has no separator byte: the receiving
  transport puts a type byte in front of the raw data and hands it to the payload decoder,
  which cuts at separators and refuses empty messages.
\<close>

theorem ws_binary_delivery:
  "socket_stream decode (ws_receive [Ws (WsBinary d)]) = [Inr (packet_new Message d)] \<longleftrightarrow>
     d \<noteq> [] \<and> SEPARATOR \<notin> set d"
proof (cases "SEPARATOR \<in> set d")
  case True
  have "payload_try_from decode (4 # d) \<noteq> Inr [p]" for p
  proof
    assume "payload_try_from decode (4 # d) = Inr [p]"
    from try_map_length [OF this [unfolded payload_try_from_eq]]
    have "count_list (4 # d) SEPARATOR = 0" by (simp add: length_split_on del: split_on.simps)
    with True show False by (simp add: count_list_0_iff split: if_splits)
  qed
  then show ?thesis using True
    by (auto simp: ws_receive_def parse_payload_def split: sum.splits)
next
  case False
  then have "split_on SEPARATOR (4 # d) = [4 # d]"
    by (intro split_on_none) (auto simp: SEPARATOR_def)
  then have "payload_try_from decode (4 # d) = (if d = [] then Inl IncompletePacket else Inr [packet_new Message d])"
    by (simp add: payload_try_from_eq packet_try_from_def packet_type_try_from_def packet_new_def Let_def del: split_on.simps)
  with False show ?thesis by (cases "d = []") (simp_all add: ws_receive_def parse_payload_def)
qed

text \<open>
  Emitting a list of packets is emitting the packets one after the other until the
  first failure: the same packets go out, the same error is reported once and returned.
  The open flag is read once, before the first packet.
\<close>

theorem emit_multi_sequential:
  "connected s \<Longrightarrow>
   socket_emit_multi encode net (p # ps) s =
     (case socket_emit encode net p s of
        (s', Inl e) \<Rightarrow> (s', Inl e)
      | (s', Inr _) \<Rightarrow> socket_emit_multi encode net ps s')"
  by (auto simp: socket_emit_def socket_emit_multi_def split: prod.splits sum.splits)

theorem emit_multi_sequential_witness:
  "socket_emit_multi rfc_encode (\<lambda>_ _. Inl ()) [packet_new Ping [], packet_new Close []] (example_socket Websocket) =
     (case socket_emit rfc_encode (\<lambda>_ _. Inl ()) (packet_new Ping []) (example_socket Websocket) of
        (s', Inl e) \<Rightarrow> (s', Inl e)
      | (s', Inr _) \<Rightarrow> socket_emit_multi rfc_encode (\<lambda>_ _. Inl ()) [packet_new Close []] s')"
  by (rule emit_multi_sequential) simp

text \<open>
  A socket that is not open stays silent. No call other than connecting opens it, and
  none of them sends anything; emissions return an illegal-action error and report it.
\<close>

theorem closed_socket_silent:
  assumes "\<not> connected s" and "\<forall>now. op \<noteq> OpConnect now"
  shows "snd (socket_emit_multi encode net ps s) = Inl IllegalActionBeforeOpen \<and>
    events (fst (socket_emit_multi encode net ps s)) =
      events s @ logged s [OnError (socket_sid s) IllegalActionBeforeOpen] \<and>
    wire_out (socket_apply encode decode net op s) = wire_out s \<and>
    \<not> connected (socket_apply encode decode net op s)"
proof -
  have "wire_out (handle_incoming_packet encode net now p s') = wire_out s'" if "\<not> connected s'" for now p s'
    using that by (cases "eptype p")
      (simp_all add: handle_incoming_packet_def Let_def socket_defs handle_close_def socket_emit_closed)
  with assms socket_emit_multi_frame [of s encode net]
  have "wire_out (socket_apply encode decode net op s) = wire_out s \<and> \<not> connected (socket_apply encode decode net op s)"
    by (cases op) (auto simp: socket_emit_closed socket_disconnect_eq emit_frame_def socket_upgrade_def
        socket_poll_next_def Let_def handle_incoming_counts split: list.splits sum.splits)
  with assms show ?thesis by (simp add: socket_emit_multi_def on_error_def)
qed

theorem closed_socket_silent_witness:
  "let s = (example_socket Websocket)\<lparr>connected := False\<rparr> in
   snd (socket_emit_multi rfc_encode (\<lambda>_ _. Inr 200) [packet_new Ping []] s) = Inl IllegalActionBeforeOpen \<and>
    events (fst (socket_emit_multi rfc_encode (\<lambda>_ _. Inr 200) [packet_new Ping []] s)) =
      events s @ logged s [OnError (socket_sid s) IllegalActionBeforeOpen] \<and>
    wire_out (socket_apply rfc_encode rfc_decode (\<lambda>_ _. Inr 200) OpDisconnect s) = wire_out s \<and>
    \<not> connected (socket_apply rfc_encode rfc_decode (\<lambda>_ _. Inr 200) OpDisconnect s)"
  unfolding Let_def by (rule closed_socket_silent) simp_all

text \<open>
  On a network that accepts every output, and as long as the calls on a socket do not overlap,
  every closing that is reported had its own opening: in every state that a new socket can
  reach by whole operations, while the receiver of its events is alive, the reported closings
  and the open flag together never exceed the reported openings. (\<open>Engine_Tasks\<close> has what
  happens when disconnecting and the handling of a close packet overlap.)
\<close>

theorem closings_balanced:
  assumes "reliable net"
    and "socket_reach encode decode net (socket_new now t stream hs (Some \<lparr>receiver_alive = True, events_sent = []\<rparr>) pong server) s"
    and "listening s"
  shows "closes s + of_bool (connected s) \<le> opens s"
  using assms(2,3)
proof (induction "socket_new now t stream hs (Some \<lparr>receiver_alive = True, events_sent = []\<rparr>) pong server" s
    rule: socket_reach.induct)
  case (reach_step s op)
  have l: "listening s" using reach_step.prems step_frame_apply [of s encode decode net op] by (simp add: step_frame_def)
  have tx: "event_tx s \<noteq> None" using l by (auto simp: listening_def split: option.splits)
  show ?case
  proof (cases op)
    case OpDisconnect
    then show ?thesis using l tx reach_step.hyps(2) reliable_close [OF assms(1)]
      by (auto simp: socket_disconnect_eq Let_def)
  next
    case (OpPoll n)
    then show ?thesis using l reach_step.hyps(2)
      by (auto simp: socket_poll_next_def Let_def handle_incoming_counts split: list.splits sum.splits)
  qed (use l tx reach_step.hyps(2) reach_step.prems in \<open>auto simp: socket_connect_eq socket_upgrade_def Let_def\<close>)
qed (simp add: socket_new_def opens_def closes_def events_def)

theorem closings_balanced_witness:
  "let s0 = socket_new 0 Websocket [] (connection_data (example_socket Websocket))
        (Some \<lparr>receiver_alive = True, events_sent = []\<rparr>) True True;
       s = socket_apply rfc_encode rfc_decode (\<lambda>_ _. Inr 200) OpDisconnect
         (socket_apply rfc_encode rfc_decode (\<lambda>_ _. Inr 200) (OpConnect 7) s0)
   in closes s + of_bool (connected s) \<le> opens s"
proof -
  let ?net = "\<lambda>(_ :: wire list) (_ :: wire). Inr 200 :: unit + u16"
  let ?init = "socket_new 0 Websocket [] (connection_data (example_socket Websocket))
        (Some \<lparr>receiver_alive = True, events_sent = []\<rparr>) True True"
  let ?s = "socket_apply rfc_encode rfc_decode ?net OpDisconnect (socket_apply rfc_encode rfc_decode ?net (OpConnect 7) ?init)"
  have "listening ?init" by (simp add: socket_new_def listening_def)
  then have "listening ?s" by simp
  then show ?thesis unfolding Let_def
    by (intro closings_balanced [where net = ?net and encode = rfc_encode and decode = rfc_decode and now = 0
          and t = Websocket and stream = "[]" and hs = "connection_data (example_socket Websocket)"
          and pong = True and server = True])
      (simp_all only: reliable_def socket_reach.intros simp_thms)
qed

text \<open>
  When the network refuses the close packet, disconnecting an open socket returns the
  error and leaves the socket open although its closing has been reported; calling it
  again reports the closing again.
\<close>

theorem disconnect_failure:
  assumes "connected s" and "listening s" and "transport s = Websocket" and "\<forall>out w. net out w = Inl ()"
  shows "snd (socket_disconnect encode net s) = Inl WsError \<and>
    connected (fst (socket_disconnect encode net s)) \<and>
    closes (fst (socket_disconnect encode net s)) = closes s + 1 \<and>
    closes (fst (socket_disconnect encode net (fst (socket_disconnect encode net s)))) = closes s + 2"
proof -
  have one: "snd (socket_disconnect encode net s) = Inl WsError \<and>
      connected (fst (socket_disconnect encode net s)) \<and> listening (fst (socket_disconnect encode net s)) \<and>
      transport (fst (socket_disconnect encode net s)) = Websocket \<and>
      closes (fst (socket_disconnect encode net s)) = closes s + 1"
    if s: "connected s" "listening s" "transport s = Websocket" for s
  proof -
    have wire: "transport_wire encode Websocket (packet_data encode (packet_new Close [])) =
        Inr (Ws (WsText (packet_text (packet_new Close []))))"
      by (simp add: transport_wire_text)
    have out: "transport_emit encode net Websocket out (packet_data encode (packet_new Close [])) = (out, Inl WsError)" for out
      using assms(4) by (simp add: transport_emit_wire wire transport_outcome_def)
    let ?s1 = "fst (send_event (OnClose (socket_sid s)) s)"
    have "socket_emit encode net (packet_new Close []) ?s1 = (on_error WsError ?s1, Inl WsError)"
      using s out by (simp add: socket_emit_def wire_out_same)
    then show ?thesis using s by (simp add: socket_disconnect_eq Let_def on_error_def)
  qed
  from one [OF assms(1-3)] one [of "fst (socket_disconnect encode net s)"] show ?thesis by simp
qed

theorem disconnect_failure_witness:
  "closes (fst (socket_disconnect rfc_encode (\<lambda>_ _. Inl ())
     (fst (socket_disconnect rfc_encode (\<lambda>_ _. Inl ()) (example_socket Websocket))))) = closes (example_socket Websocket) + 2"
  using disconnect_failure [of "example_socket Websocket" "\<lambda>_ _. Inl ()" rfc_encode] by simp

text \<open>
  A ping is answered at once: polling an open socket that answers pings yields the ping,
  refreshes both clocks, reports the packet and sends one pong with the data of the ping.
  A socket that does not answer pings, which is the server's end, sends nothing.
\<close>

theorem ping_answered:
  assumes "generator s = Inr (packet_new Ping d) # rest" and "connected s" and "reliable net"
    and "from_utf8 d \<noteq> None" and "SEPARATOR \<notin> set d"
  shows "\<exists>w. transport_wire encode (transport s) (packet_data encode (packet_new Pong d)) = Inr w \<and>
    (let (s', item) = socket_poll_next encode net now s in
     item = Some (Inr (packet_new Ping d)) \<and> generator s' = rest \<and>
     last_ping s' = now \<and> last_pong s' = now \<and> connected s' \<and>
     events s' = events s @ logged s [OnPacket (socket_sid s) (packet_new Ping d)] \<and>
     wire_out s' = wire_out s @ (if should_pong s then [w] else []))"
proof -
  have "text_packet (packet_new Pong d)" using assms(4,5) by (simp add: text_packet_def payload_packet_def)
  then obtain w where w: "transport_wire encode (transport s) (packet_data encode (packet_new Pong d)) = Inr w"
    using transport_wire_text by blast
  have "socket_emit encode net (packet_new Pong d) s' = (s'\<lparr>wire_out := wire_out s' @ [w]\<rparr>, Inr ())"
    if "transport s' = transport s" "connected s'" for s'
    using reliable_emit [OF assms(3) that(2)] w that(1) by simp
  with assms(1,2) w show ?thesis
    by (auto simp: socket_poll_next_def handle_incoming_packet_def Let_def socket_defs)
qed

theorem ping_answered_witness:
  "\<exists>w. transport_wire rfc_encode Websocket (packet_data rfc_encode (packet_new Pong [])) = Inr w \<and>
     wire_out (fst (socket_poll_next rfc_encode (\<lambda>_ _. Inr 200) 9
       ((example_socket Websocket)\<lparr>generator := [Inr (packet_new Ping [])]\<rparr>))) = [w]"
  using ping_answered [of "(example_socket Websocket)\<lparr>generator := [Inr (packet_new Ping [])]\<rparr>" "[]" "[]"
      "\<lambda>_ _. Inr 200" rfc_encode 9] from_utf8_as_bytes [of "[]"]
  by (auto simp: reliable_def case_prod_unfold Let_def)

end
