(* ===== verification/Sio_Socket.thy ===== *)
theory Sio_Socket
  imports Sio_Payload Engine_Socket
begin

text \<open>
  The Socket.IO socket (\<open>socketio/src/socket.rs\<close>, \<open>socketio/src/ack.rs\<close>), which clients and
  servers share: a raw socket that puts packets with their attachments onto an Engine.IO
  socket and reads them back, and the socket of one namespace with its callbacks and
  outstanding acknowledgements. The clones of a socket share their fields, so the state is
  one record. Callbacks are the user's code: the model records which callback is called
  with which arguments, in the order in which the calls are started.
\<close>

section \<open>The environment\<close>

text \<open>
  Functions that are not part of the repository: base64, the network, JSON, and the texts
  of errors and documents that error callbacks receive.
\<close>

record sio_env =
  env_encode :: "bytes \<Rightarrow> ustr"
  env_net :: network
  env_to_string :: "json \<Rightarrow> ustr"
  env_from_str :: "ustr \<Rightarrow> json option"
  env_error_text :: "sio_error \<Rightarrow> ustr"
  env_debug :: "json option \<Rightarrow> ustr"

section \<open>The raw socket\<close>

text \<open>Engine errors are wrapped by the operator \<open>?\<close>.\<close>

definition lift_engine :: "eio_error + 'a \<Rightarrow> sio_error + 'a" where
  "lift_engine r = map_err SIncompleteResponseFromEngineIo r"

definition is_engineio_connected :: "eio_socket \<Rightarrow> bool" where
  "is_engineio_connected s = is_connected s"

definition raw_connect :: "sio_env \<Rightarrow> instant \<Rightarrow> bool \<Rightarrow> eio_socket \<Rightarrow> eio_socket \<times> (sio_error + unit)" where
  "raw_connect env now is_server s =
     (if \<not> is_server then apsnd lift_engine (socket_connect (env_encode env) (env_net env) now s)
      else (s, Inr ()))"

definition raw_disconnect :: "sio_env \<Rightarrow> eio_socket \<Rightarrow> eio_socket \<times> (sio_error + unit)" where
  "raw_disconnect env s =
     (if is_engineio_connected s
      then apsnd lift_engine (socket_disconnect (env_encode env) (env_net env) s)
      else (s, Inr ()))"

definition raw_send :: "sio_env \<Rightarrow> sio_packet \<Rightarrow> eio_socket \<Rightarrow> eio_socket \<times> (sio_error + unit)" where
  "raw_send env packet s =
     (if \<not> is_engineio_connected s then (s, Inl SIllegalActionBeforeOpen)
      else
        let engine_packet = packet_new Message (bytes_from_sio_packet (env_to_string env) packet) in
        (case attachments packet of
           None \<Rightarrow> apsnd lift_engine (socket_emit (env_encode env) (env_net env) engine_packet s)
         | Some atts \<Rightarrow>
             if atts = [] then apsnd lift_engine (socket_emit (env_encode env) (env_net env) engine_packet s)
             else apsnd lift_engine
               (socket_emit_multi (env_encode env) (env_net env)
                  (engine_packet # map (packet_new MessageBinary) atts) s)))"

definition raw_ack :: "sio_env \<Rightarrow> ustr \<Rightarrow> usize \<Rightarrow> sio_payload \<Rightarrow> eio_socket \<Rightarrow> eio_socket \<times> (sio_error + unit)" where
  "raw_ack env ns i d s = raw_send env (build_packet_for_payload d None ns (Some i) True) s"

definition raw_emit :: "sio_env \<Rightarrow> ustr \<Rightarrow> sio_event \<Rightarrow> sio_payload \<Rightarrow> eio_socket \<Rightarrow> eio_socket \<times> (sio_error + unit)" where
  "raw_emit env ns event d s = raw_send env (build_packet_for_payload d (Some event) ns None False) s"

definition raw_handshake :: "sio_env \<Rightarrow> ustr \<Rightarrow> json \<Rightarrow> eio_socket \<Rightarrow> eio_socket \<times> (sio_error + unit)" where
  "raw_handshake env ns d s = raw_send env (sio_packet_new Connect ns (Some d) None 0 None) s"

text \<open>
  The attachments of a packet are the next packets of the engine's stream. The end of the
  stream panics, which is the value \<open>None\<close>.
\<close>

fun read_attachments ::
  "sio_env \<Rightarrow> instant \<Rightarrow> nat \<Rightarrow> bytes list \<Rightarrow> eio_socket \<Rightarrow> eio_socket \<times> (sio_error + bytes list) option" where
  "read_attachments env now 0 atts s = (s, Some (Inr atts))"
| "read_attachments env now (Suc attachments_left) atts s =
     (case socket_poll_next (env_encode env) (env_net env) now s of
        (s, None) \<Rightarrow> (s, None)
      | (s, Some (Inl e)) \<Rightarrow> (s, Some (Inl (SIncompleteResponseFromEngineIo e)))
      | (s, Some (Inr p)) \<Rightarrow>
          if eptype p = MessageBinary \<or> eptype p = Message
          then read_attachments env now attachments_left (atts @ [edata p]) s
          else (s, Some (Inl (SInvalidAttachmentPacketType (packet_type_to_u8 (eptype p))))))"

definition handle_engineio_packet ::
  "sio_env \<Rightarrow> instant \<Rightarrow> eio_packet \<Rightarrow> eio_socket \<Rightarrow> eio_socket \<times> (sio_error + sio_packet) option" where
  "handle_engineio_packet env now p s =
     (case sio_packet_try_from (env_from_str env) (edata p) of
        Inl e \<Rightarrow> (s, Some (Inl e))
      | Inr packet \<Rightarrow>
          if attachment_count packet > 0 then
            (case read_attachments env now (unat (attachment_count packet)) [] s of
               (s, None) \<Rightarrow> (s, None)
             | (s, Some (Inl e)) \<Rightarrow> (s, Some (Inl e))
             | (s, Some (Inr atts)) \<Rightarrow> (s, Some (Inr (packet\<lparr>attachments := Some atts\<rparr>))))
          else (s, Some (Inr packet)))"

text \<open>
  One item of the raw stream: engine packets other than messages are passed over. The
  stream ends after an error; the flag \<open>ended\<close> of the socket below keeps that.
\<close>

datatype raw_item = RawEnd | RawPanic | RawItem "sio_error + sio_packet"

lemma handle_incoming_generator [simp]:
  "generator (handle_incoming_packet encode net now p s) = generator s"
proof -
  have "generator (fst (socket_emit encode net q s)) = generator s" for q s
    by (auto simp: socket_emit_def on_error_def split: prod.splits sum.splits)
  then show ?thesis
    by (cases "eptype p") (simp_all add: handle_incoming_packet_def Let_def socket_defs handle_close_def)
qed

lemma socket_poll_next_shrinks:
  "socket_poll_next encode net now s = (s', Some item) \<Longrightarrow> length (generator s') < length (generator s)"
  by (auto simp: socket_poll_next_def Let_def split: list.splits sum.splits)

function raw_stream_next :: "sio_env \<Rightarrow> instant \<Rightarrow> eio_socket \<Rightarrow> eio_socket \<times> raw_item" where
  "raw_stream_next env now s =
     (case socket_poll_next (env_encode env) (env_net env) now s of
        (s', None) \<Rightarrow> (s', RawEnd)
      | (s', Some (Inl e)) \<Rightarrow> (s', RawItem (Inl (SIncompleteResponseFromEngineIo e)))
      | (s', Some (Inr p)) \<Rightarrow>
          if eptype p = Message \<or> eptype p = MessageBinary then
            (case handle_engineio_packet env now p s' of
               (s', None) \<Rightarrow> (s', RawPanic)
             | (s', Some r) \<Rightarrow> (s', RawItem r))
          else raw_stream_next env now s')"
  by pat_completeness auto
termination
  by (relation "measure (\<lambda>(env, now, s). length (generator s))")
    (auto dest: socket_poll_next_shrinks [OF sym])

declare raw_stream_next.simps [simp del]

section \<open>The socket of a namespace\<close>

text \<open>An acknowledgement waited for; its callback is identified by the id.\<close>

record ack =
  ack_id :: usize
  ack_timeout :: nat
  time_started :: instant

datatype sio_call =
    EventCall sio_event "sio_payload option" "usize option"
  | AckCall usize "sio_payload option"

record sio_socket =
  sk_nsp :: ustr
  engine :: eio_socket
  is_server :: bool
  ended :: bool
  on :: "sio_event set"
  outstanding_acks :: "ack list"
  sk_connected :: bool
  ack_id_gen :: usize
  calls :: "sio_call list"

definition sio_socket_new :: "eio_socket \<Rightarrow> bool \<Rightarrow> ustr \<Rightarrow> sio_event set \<Rightarrow> sio_socket" where
  "sio_socket_new s server ns handlers =
     \<lparr>sk_nsp = ns, engine = s, is_server = server, ended = False, on = handlers,
      outstanding_acks = [], sk_connected = True, ack_id_gen = 0, calls = []\<rparr>"

text \<open>Running an operation of the raw socket on the engine of a socket.\<close>

definition with_engine :: "(eio_socket \<Rightarrow> eio_socket \<times> 'a) \<Rightarrow> sio_socket \<Rightarrow> sio_socket \<times> 'a" where
  "with_engine f sk = (let (s, r) = f (engine sk) in (sk\<lparr>engine := s\<rparr>, r))"

definition sio_connect :: "sio_env \<Rightarrow> instant \<Rightarrow> sio_socket \<Rightarrow> sio_socket \<times> (sio_error + unit)" where
  "sio_connect env now sk =
     (case with_engine (raw_connect env now (is_server sk)) sk of
        (sk, Inl e) \<Rightarrow> (sk, Inl e)
      | (sk, Inr _) \<Rightarrow>
          with_engine (raw_send env (sio_packet_new Connect (sk_nsp sk) None None 0 None)) sk)"

definition sio_emit :: "sio_env \<Rightarrow> sio_event \<Rightarrow> sio_payload \<Rightarrow> sio_socket \<Rightarrow> sio_socket \<times> (sio_error + unit)" where
  "sio_emit env event d sk =
     (if \<not> sk_connected sk then (sk, Inl SIllegalActionBeforeOpen)
      else with_engine (raw_emit env (sk_nsp sk) event d) sk)"

definition sio_ack :: "sio_env \<Rightarrow> usize \<Rightarrow> sio_payload \<Rightarrow> sio_socket \<Rightarrow> sio_socket \<times> (sio_error + unit)" where
  "sio_ack env i d sk =
     (if \<not> sk_connected sk then (sk, Inl SIllegalActionBeforeOpen)
      else with_engine (raw_ack env (sk_nsp sk) i d) sk)"

definition sio_handshake :: "sio_env \<Rightarrow> json \<Rightarrow> sio_socket \<Rightarrow> sio_socket \<times> (sio_error + unit)" where
  "sio_handshake env d sk =
     (if \<not> sk_connected sk then (sk, Inl SIllegalActionBeforeOpen)
      else with_engine (raw_handshake env (sk_nsp sk) d) sk)"

definition sio_disconnect :: "sio_env \<Rightarrow> sio_socket \<Rightarrow> sio_socket \<times> (sio_error + unit)" where
  "sio_disconnect env sk =
     (let sk = (if sk_connected sk then sk\<lparr>sk_connected := False\<rparr> else sk) in
      case with_engine (raw_send env (sio_packet_new Disconnect (sk_nsp sk) None None 0 None)) sk of
        (sk, Inl e) \<Rightarrow> (sk, Inl e)
      | (sk, Inr _) \<Rightarrow> with_engine (raw_disconnect env) sk)"

definition sio_emit_with_ack ::
  "sio_env \<Rightarrow> instant \<Rightarrow> sio_event \<Rightarrow> sio_payload \<Rightarrow> nat \<Rightarrow> sio_socket \<Rightarrow> sio_socket \<times> (sio_error + unit)" where
  "sio_emit_with_ack env now event d timeout sk =
     (if \<not> sk_connected sk then (sk, Inl SIllegalActionBeforeOpen)
      else
        let (i, gen) = ack_id_generate (ack_id_gen sk);
            sk = sk\<lparr>ack_id_gen := gen\<rparr>;
            packet = build_packet_for_payload d (Some event) (sk_nsp sk) (Some i) False;
            a = \<lparr>ack_id = i, ack_timeout = timeout, time_started = now\<rparr>;
            sk = sk\<lparr>outstanding_acks := outstanding_acks sk @ [a]\<rparr>
        in with_engine (raw_send env packet) sk)"

section \<open>Incoming packets\<close>

text \<open>An event without a registered callback is dropped.\<close>

definition sio_callback :: "sio_event \<Rightarrow> sio_payload option \<Rightarrow> usize option \<Rightarrow> sio_socket \<Rightarrow> sio_socket" where
  "sio_callback event payload need_ack sk =
     (if event \<in> on sk then sk\<lparr>calls := calls sk @ [EventCall event payload need_ack]\<rparr> else sk)"

text \<open>
  Acknowledgements: the loop collects the indexes of the acknowledgements with the id of
  the packet and calls those within their time; then the indexes are removed one after the
  other, each from the list left by the one before. A missing index panics.
\<close>

fun ack_loop ::
  "instant \<Rightarrow> usize \<Rightarrow> sio_payload option \<Rightarrow> nat \<Rightarrow> ack list \<Rightarrow> nat list \<times> sio_call list" where
  "ack_loop now i payload index [] = ([], [])"
| "ack_loop now i payload index (a # acks) =
     (let (removed, cs) = ack_loop now i payload (index + 1) acks in
      if ack_id a = i then
        (index # removed, if now - time_started a < ack_timeout a then AckCall (ack_id a) payload # cs else cs)
      else (removed, cs))"

fun remove_indexes :: "nat list \<Rightarrow> 'a list \<Rightarrow> 'a list option" where
  "remove_indexes [] xs = Some xs"
| "remove_indexes (index # is) xs =
     (if index < length xs then remove_indexes is (take index xs @ drop (Suc index) xs) else None)"

definition handle_ack :: "instant \<Rightarrow> sio_packet \<Rightarrow> bool \<Rightarrow> sio_socket \<Rightarrow> sio_socket option" where
  "handle_ack now packet is_binary sk =
     (case pid packet of
        None \<Rightarrow> Some sk
      | Some i \<Rightarrow>
          let payload = (if is_binary then decode_binary_payload (pdata packet) (attachments packet) False
                         else decode_event_payload packet False);
              (to_be_removed, cs) = ack_loop now i payload 0 (outstanding_acks sk)
          in (case remove_indexes to_be_removed (outstanding_acks sk) of
                None \<Rightarrow> None
              | Some acks \<Rightarrow> Some (sk\<lparr>outstanding_acks := acks, calls := calls sk @ cs\<rparr>)))"

definition handle_binary_event :: "sio_packet \<Rightarrow> sio_socket \<Rightarrow> sio_socket" where
  "handle_binary_event packet sk =
     sio_callback (binary_event_name (pdata packet))
       (decode_binary_payload (pdata packet) (attachments packet) True) (pid packet) sk"

definition handle_event :: "sio_packet \<Rightarrow> sio_socket \<Rightarrow> sio_socket" where
  "handle_event packet sk =
     (case pdata packet of
        Some (JArray contents) \<Rightarrow>
          sio_callback (event_name contents) (decode_event_payload packet True) (pid packet) sk
      | _ \<Rightarrow> sk)"

definition handle_connect :: "sio_packet option \<Rightarrow> sio_socket \<Rightarrow> sio_socket" where
  "handle_connect packet sk =
     sio_callback EvConnect (map_option (\<lambda>p. payload_from_option (pdata p)) packet) None (sk\<lparr>sk_connected := True\<rparr>)"

text \<open>The handlers return no error, so the error branches of the caller are never taken.\<close>

definition handle_socketio_packet :: "sio_env \<Rightarrow> instant \<Rightarrow> sio_packet \<Rightarrow> sio_socket \<Rightarrow> sio_socket option" where
  "handle_socketio_packet env now packet sk =
     (if nsp packet = sk_nsp sk then
        (case ptype packet of
           Ack \<Rightarrow> handle_ack now packet False sk
         | BinaryAck \<Rightarrow> handle_ack now packet True sk
         | Event \<Rightarrow> Some (handle_event packet sk)
         | BinaryEvent \<Rightarrow> Some (handle_binary_event packet sk)
         | Connect \<Rightarrow> Some (handle_connect (Some packet) sk)
         | Disconnect \<Rightarrow> Some (sio_callback EvClose None None (sk\<lparr>sk_connected := False\<rparr>))
         | ConnectError \<Rightarrow>
             Some (sio_callback EvError
               (Some (PJson (JString (str ''Received an ConnectError frame: '' @ env_debug env (pdata packet)))))
               None (sk\<lparr>sk_connected := False\<rparr>)))
      else Some sk)"

declare handle_socketio_packet_def [step_simps] handle_event_def [step_simps]
  handle_binary_event_def [step_simps] handle_connect_def [step_simps]

text \<open>One item of the raw stream of a socket, which stays ended after its end or an error.\<close>

definition raw_poll_packet :: "sio_env \<Rightarrow> instant \<Rightarrow> sio_socket \<Rightarrow> sio_socket \<times> raw_item" where
  "raw_poll_packet env now sk =
     (if ended sk then (sk, RawEnd)
      else
        let (s, item) = raw_stream_next env now (engine sk);
            sk = sk\<lparr>engine := s\<rparr>
        in (case item of
              RawItem (Inr p) \<Rightarrow> (sk, item)
            | _ \<Rightarrow> (sk\<lparr>ended := True\<rparr>, item)))"

text \<open>Packets of other namespaces are passed over.\<close>

lemma read_attachments_shrinks:
  "read_attachments env now n atts s = (s', r) \<Longrightarrow> length (generator s') \<le> length (generator s)"
proof (induction n arbitrary: atts s)
  case (Suc n)
  obtain s1 it where p: "socket_poll_next (env_encode env) (env_net env) now s = (s1, it)" by fastforce
  show ?case
  proof (cases it)
    case None
    with p Suc.prems show ?thesis by (auto simp: socket_poll_next_def Let_def split: list.splits sum.splits)
  next
    case (Some item)
    with p have "length (generator s1) < length (generator s)" using socket_poll_next_shrinks by blast
    with p Some Suc show ?thesis by (force split: sum.splits if_splits)
  qed
qed simp

lemma handle_engineio_shrinks:
  "handle_engineio_packet env now p s = (s', r) \<Longrightarrow> length (generator s') \<le> length (generator s)"
  by (auto simp: handle_engineio_packet_def dest: read_attachments_shrinks
      split: sum.splits prod.splits option.splits if_splits)

lemma raw_stream_next_shrinks:
  "raw_stream_next env now s = (s', RawItem r) \<Longrightarrow> length (generator s') < length (generator s)"
proof (induction env now s arbitrary: s' rule: raw_stream_next.induct)
  case (1 env now s)
  obtain s1 it where p: "socket_poll_next (env_encode env) (env_net env) now s = (s1, it)" by fastforce
  show ?case
  proof (cases it)
    case (Some item)
    with p have l: "length (generator s1) < length (generator s)" using socket_poll_next_shrinks by blast
    show ?thesis
    proof (cases item)
      case (Inr q)
      show ?thesis
      proof (cases "eptype q = Message \<or> eptype q = MessageBinary")
        case True
        with "1.prems" p Some Inr have "\<exists>r'. handle_engineio_packet env now q s1 = (s', r')"
          by (auto simp: raw_stream_next.simps [of env now s] split: prod.splits option.splits)
        with l handle_engineio_shrinks show ?thesis by fastforce
      next
        case False
        with "1.prems" p Some Inr have "raw_stream_next env now s1 = (s', RawItem r)"
          by (simp add: raw_stream_next.simps [of env now s])
        with "1.IH" [OF p [symmetric] Some Inr False] l show ?thesis by fastforce
      qed
    qed (use "1.prems" p Some l in \<open>simp add: raw_stream_next.simps [of env now s]\<close>)
  qed (use "1.prems" p in \<open>simp add: raw_stream_next.simps [of env now s]\<close>)
qed

function sio_poll_packet :: "sio_env \<Rightarrow> instant \<Rightarrow> sio_socket \<Rightarrow> sio_socket \<times> raw_item" where
  "sio_poll_packet env now sk =
     (case raw_poll_packet env now sk of
        (sk', RawEnd) \<Rightarrow> (sk', RawEnd)
      | (sk', RawPanic) \<Rightarrow> (sk', RawPanic)
      | (sk', RawItem (Inl e)) \<Rightarrow>
          (sio_callback EvError (Some (PJson (JString (env_error_text env e)))) None sk', RawItem (Inl e))
      | (sk', RawItem (Inr packet)) \<Rightarrow>
          if nsp packet = sk_nsp sk' then
            (case handle_socketio_packet env now packet sk' of
               None \<Rightarrow> (sk', RawPanic)
             | Some sk'' \<Rightarrow> (sk'', RawItem (Inr packet)))
          else sio_poll_packet env now sk')"
  by pat_completeness auto
termination
  by (relation "measure (\<lambda>(env, now, sk). length (generator (engine sk)))")
    (auto simp: raw_poll_packet_def Let_def dest!: raw_stream_next_shrinks
      split: if_splits prod.splits raw_item.splits sum.splits)

declare sio_poll_packet.simps [simp del]

section \<open>Lemmas on delivery\<close>

text \<open>The engine packets of a packet, and the packet that the receiver puts together.\<close>

definition engine_packets :: "(json \<Rightarrow> ustr) \<Rightarrow> sio_packet \<Rightarrow> eio_packet list" where
  "engine_packets to_string p =
     packet_new Message (bytes_from_sio_packet to_string p) #
     map (packet_new MessageBinary) (case attachments p of None \<Rightarrow> [] | Some atts \<Rightarrow> atts)"

lemma raw_send_packets:
  "raw_send env p s =
     (if connected s
      then apsnd lift_engine (socket_emit_multi (env_encode env) (env_net env) (engine_packets (env_to_string env) p) s)
      else (s, Inl SIllegalActionBeforeOpen))"
  by (simp add: raw_send_def engine_packets_def is_engineio_connected_def is_connected_def socket_emit_eq_multi Let_def
      split: option.splits)

definition message_packet :: "eio_packet \<Rightarrow> bool" where
  "message_packet p \<longleftrightarrow> eptype p = MessageBinary \<or> eptype p = Message"

lemma read_attachments_messages:
  assumes "generator s = map Inr ps @ rest" and "list_all message_packet ps"
  shows "\<exists>s'. read_attachments env now (length ps) atts s = (s', Some (Inr (atts @ map edata ps))) \<and> generator s' = rest"
  using assms
proof (induction ps arbitrary: s atts)
  case (Cons p ps)
  let ?s1 = "handle_incoming_packet (env_encode env) (env_net env) now p (s\<lparr>generator := map Inr ps @ rest\<rparr>)"
  have "socket_poll_next (env_encode env) (env_net env) now s = (?s1, Some (Inr p))"
    using Cons.prems(1) by (simp add: socket_poll_next_def)
  with Cons.IH [of ?s1 "atts @ [edata p]"] Cons.prems(2) show ?case by (auto simp: message_packet_def)
qed simp

definition arrived :: "sio_packet \<Rightarrow> bytes list \<Rightarrow> sio_packet" where
  "arrived p atts = (received p)\<lparr>attachments := (if attachment_count p = 0 then None else Some atts)\<rparr>"

lemma raw_stream_arrived:
  assumes "serde_json (env_to_string env) (env_from_str env)" and "wf_sio_packet p"
    and "unat (attachment_count p) = length ps" and "list_all message_packet ps" and "eptype m = Message"
    and "edata m = bytes_from_sio_packet (env_to_string env) p"
    and "generator s = Inr m # map Inr ps @ rest"
  shows "\<exists>s'. raw_stream_next env now s = (s', RawItem (Inr (arrived p (map edata ps)))) \<and> generator s' = rest"
proof -
  let ?s1 = "handle_incoming_packet (env_encode env) (env_net env) now m (s\<lparr>generator := map Inr ps @ rest\<rparr>)"
  have poll: "socket_poll_next (env_encode env) (env_net env) now s = (?s1, Some (Inr m))"
    using assms(7) by (simp add: socket_poll_next_def)
  obtain s' where s': "read_attachments env now (length ps) [] ?s1 = (s', Some (Inr (map edata ps)))" "generator s' = rest"
    using read_attachments_messages [of ?s1 ps rest env now "[]"] assms(4) by auto
  have try_from: "sio_packet_try_from (env_from_str env) (edata m) = Inr (received p)"
    using serde_json.sio_packet_encode_decode [OF assms(1,2)] assms(6) by simp
  have count: "attachment_count (received p) = attachment_count p" "attachments (received p) = None"
    by (simp_all add: received_def)
  show ?thesis
  proof (cases "attachment_count p = 0")
    case True
    then have "ps = []" using assms(3) by simp
    with True poll try_from count assms(5) show ?thesis
      by (simp add: raw_stream_next.simps [of env now s] handle_engineio_packet_def arrived_def received_def)
  next
    case False
    then have "0 < attachment_count p" by (simp add: word_gt_0)
    with False poll try_from count assms(3,5) s' show ?thesis
      by (simp add: raw_stream_next.simps [of env now s] handle_engineio_packet_def arrived_def)
  qed
qed

text \<open>The packet built for a payload, and the parts of a payload that JSON can carry.\<close>

definition proper_payload :: "sio_payload \<Rightarrow> bool" where
  "proper_payload d \<longleftrightarrow>
     payload_raws d \<noteq> [] \<and> length (raw_binaries (payload_raws d)) < 256 \<and>
     list_all (\<lambda>r. plain_raw r \<and> (case r of RJson v \<Rightarrow> json_value (nesting_limit - 1) v | RBinary b \<Rightarrow> True)) (payload_raws d)"

lemma wf_raw_docs:
  "list_all (\<lambda>r. plain_raw r \<and> (case r of RJson v \<Rightarrow> json_value (nesting_limit - 1) v | RBinary b \<Rightarrow> True)) rs \<Longrightarrow> list_all (json_value (nesting_limit - 1)) (raw_docs k rs)"
  by (induction k rs rule: raw_docs.induct) (auto simp: binary_place_holder_def scalar_def)

lemma wf_built:
  assumes "wf_nsp ns" and "proper_payload d" and "case e of Some ev \<Rightarrow> wf_str (string_from_event ev) | None \<Rightarrow> True"
  shows "wf_sio_packet (build_packet_for_payload d e ns i is_ack)"
  using assms wf_raw_docs [of "payload_raws d" 0]
  by (auto simp: wf_sio_packet_def build_packet_eq has_attachment_count_def proper_payload_def event_docs_def split: option.splits)

lemma built_engine_packets:
  assumes "serde_json to_string from_str" and "wf_sio_packet p" and "0x1e \<notin> set (nsp p)"
  shows "list_all payload_packet (engine_packets to_string p)"
proof -
  have "bytes_from_sio_packet to_string p \<noteq> []"
    by (simp add: bytes_from_sio_packet_def sio_packet_head_def)
  then show ?thesis using serde_json.sio_packet_no_separator [OF assms]
    by (auto simp: engine_packets_def payload_packet_def list_all_iff)
qed

text \<open>
  A packet sent over polling posts: what goes out, and what a socket of the same namespace
  does that receives it.
\<close>

definition posts_received :: "(bytes \<Rightarrow> bytes option) \<Rightarrow> wire list \<Rightarrow> sio_socket \<Rightarrow> bool" where
  "posts_received decode ws rk \<longleftrightarrow>
     \<not> ended rk \<and> generator (engine rk) = socket_stream decode (post_receive ws)"

lemma sio_poll_arrived:
  assumes "raw_stream_next env now (engine rk) = (s', RawItem (Inr q))" and "\<not> ended rk" and "nsp q = sk_nsp rk"
  shows "sio_poll_packet env now rk =
    (case handle_socketio_packet env now q (rk\<lparr>engine := s'\<rparr>) of
       None \<Rightarrow> (rk\<lparr>engine := s'\<rparr>, RawPanic) | Some rk' \<Rightarrow> (rk', RawItem (Inr q)))"
  using assms by (simp add: sio_poll_packet.simps [of env now rk] raw_poll_packet_def)

lemma packet_delivery:
  assumes b64: "base64 (env_encode env) decode" and json: "serde_json (env_to_string env) (env_from_str env)"
    and net: "reliable (env_net env)" and s: "connected s" "transport s = ClientPolling"
    and p: "wf_sio_packet p" "0x1e \<notin> set (nsp p)" "attachments p = Some atts" "unat (attachment_count p) = length atts"
  obtains ws where "raw_send env p s = (s\<lparr>wire_out := wire_out s @ ws\<rparr>, Inr ())"
    and "\<And>(env' :: sio_env) now rk. env_from_str env' = env_from_str env \<Longrightarrow> env_to_string env' = env_to_string env \<Longrightarrow>
      posts_received decode ws rk \<Longrightarrow>
      \<exists>s'. raw_stream_next env' now (engine rk) = (s', RawItem (Inr (arrived p atts)))"
proof -
  let ?ps = "engine_packets (env_to_string env) p"
  obtain ws where ws: "socket_emit_multi (env_encode env) (env_net env) ?ps s = (s\<lparr>wire_out := wire_out s @ ws\<rparr>, Inr ())"
    "socket_stream decode (post_receive ws) = map Inr ?ps"
    using base64.post_delivery [OF b64 net s built_engine_packets [OF json p(1,2)]] by blast
  show thesis
  proof (rule that)
    show "raw_send env p s = (s\<lparr>wire_out := wire_out s @ ws\<rparr>, Inr ())"
      using s(1) ws(1) by (simp add: raw_send_packets lift_engine_def)
  next
    fix env' :: sio_env and now rk
    assume env': "env_from_str env' = env_from_str env" "env_to_string env' = env_to_string env"
      and rk: "posts_received decode ws rk"
    have "generator (engine rk) = Inr (packet_new Message (bytes_from_sio_packet (env_to_string env') p)) #
        map Inr (map (packet_new MessageBinary) atts) @ []"
      using rk ws(2) p(3) env' by (simp add: posts_received_def engine_packets_def)
    moreover have "list_all message_packet (map (packet_new MessageBinary) atts)"
      by (simp add: list_all_iff message_packet_def)
    ultimately have "\<exists>s'. raw_stream_next env' now (engine rk) =
        (s', RawItem (Inr (arrived p (map edata (map (packet_new MessageBinary) atts))))) \<and> generator s' = []"
      using json p(1,4) env' by (intro raw_stream_arrived) simp_all
    then show "\<exists>s'. raw_stream_next env' now (engine rk) = (s', RawItem (Inr (arrived p atts)))"
      by (auto simp: comp_def)
  qed
qed

text \<open>How a receiver handles a built packet that has arrived.\<close>

lemma arrived_built:
  assumes "proper_payload d"
  shows "arrived (build_packet_for_payload d e ns i is_ack) (raw_binaries (payload_raws d)) =
    (build_packet_for_payload d e ns i is_ack)\<lparr>attachments :=
      (if raw_binaries (payload_raws d) = [] then None else Some (raw_binaries (payload_raws d)))\<rparr>"
proof -
  let ?rs = "payload_raws d"
  have "event_docs e @ raw_docs 0 ?rs \<noteq> []"
    using assms by (metis append_is_Nil_conv length_0_conv length_raw_docs proper_payload_def)
  moreover have "(word_of_nat (length (raw_binaries ?rs)) :: u8) = 0 \<longleftrightarrow> raw_binaries ?rs = []"
  proof -
    have "unat (word_of_nat (length (raw_binaries ?rs)) :: u8) = length (raw_binaries ?rs)"
      using assms by (simp add: proper_payload_def unat_of_nat)
    then show ?thesis by (metis length_0_conv unat_eq_zero)
  qed
  ultimately show ?thesis by (simp add: arrived_def received_def build_packet_eq stored_data_def)
qed

lemma handle_built_event:
  assumes "proper_payload d" and "proper_event e" and "sk_nsp rk = ns" and "e \<in> on rk"
  shows "handle_socketio_packet env now
      (arrived (build_packet_for_payload d (Some e) ns i False) (raw_binaries (payload_raws d))) rk =
    Some (rk\<lparr>calls := calls rk @ [EventCall e (Some (payload_of_raws (payload_raws d))) i]\<rparr>)"
proof -
  let ?rs = "payload_raws d"
  have rs: "?rs \<noteq> []" "list_all plain_raw ?rs" "length (raw_binaries ?rs) < 2 ^ 64"
    using assms(1) by (auto simp: proper_payload_def list_all_iff)
  show ?thesis
  proof (cases "raw_binaries ?rs = []")
    case True
    have "event_name (JString (string_from_event e) # raw_docs 0 ?rs) = e"
      using rs(1) assms(2) by (simp add: event_name_def)
    moreover have "decode_event_payload q True = Some (payload_of_raws ?rs)"
      if "pdata q = Some (JArray (JString (string_from_event e) # raw_docs 0 ?rs))" for q
      using decode_event_built [OF True, of q e] that rs(1) by (simp add: event_docs_def)
    ultimately show ?thesis using True assms unfolding arrived_built [OF assms(1)]
      by (simp add: handle_socketio_packet_def build_packet_eq handle_event_def event_docs_def sio_callback_def)
  next
    case False
    have "binary_event_name (Some (JArray (JString (string_from_event e) # raw_docs 0 ?rs))) = e"
      using assms(2) by (simp add: binary_event_name_def)
    moreover have "decode_binary_payload (Some (JArray (JString (string_from_event e) # raw_docs 0 ?rs)))
        (Some (raw_binaries ?rs)) True = Some (payload_of_raws ?rs)"
      using decode_binary_built [OF rs(2,3), of True "Some e"] by (simp add: event_docs_def)
    ultimately show ?thesis using False assms unfolding arrived_built [OF assms(1)]
      by (simp add: handle_socketio_packet_def build_packet_eq handle_binary_event_def event_docs_def sio_callback_def)
  qed
qed

section \<open>Lemmas on acknowledgements\<close>

lemma ack_loop_none: "i \<notin> ack_id ` set acks \<Longrightarrow> ack_loop now i d k acks = ([], [])"
  by (induction acks arbitrary: k) (auto simp: Let_def)

lemma ack_loop_one:
  assumes "i \<notin> ack_id ` set pre" and "i \<notin> ack_id ` set post" and "ack_id a = i"
  shows "ack_loop now i d k (pre @ a # post) =
    ([k + length pre], if now - time_started a < ack_timeout a then [AckCall i d] else [])"
  using assms by (induction pre arbitrary: k) (auto simp: ack_loop_none)

text \<open>The decoded payload of an acknowledgement.\<close>

definition ack_payload :: "sio_packet \<Rightarrow> bool \<Rightarrow> sio_payload option" where
  "ack_payload packet is_binary =
     (if is_binary then decode_binary_payload (pdata packet) (attachments packet) False
      else decode_event_payload packet False)"

lemma handle_ack_unknown:
  assumes "pid packet = Some i" and "i \<notin> ack_id ` set (outstanding_acks sk)"
  shows "handle_ack now packet b sk = Some sk"
  using assms by (simp add: handle_ack_def ack_loop_none)

lemma handle_ack_known:
  assumes "pid packet = Some i" and "outstanding_acks sk = pre @ a # post" and "ack_id a = i"
    and "i \<notin> ack_id ` set pre" and "i \<notin> ack_id ` set post"
  shows "handle_ack now packet b sk = Some (sk\<lparr>outstanding_acks := pre @ post,
    calls := calls sk @ (if now - time_started a < ack_timeout a then [AckCall i (ack_payload packet b)] else [])\<rparr>)"
  using assms by (simp add: handle_ack_def ack_loop_one ack_payload_def Let_def)

lemma handle_built_ack:
  assumes "proper_payload d" and "sk_nsp rk = ns" and "outstanding_acks rk = pre @ a # post" and "ack_id a = i"
    and "i \<notin> ack_id ` set pre" and "i \<notin> ack_id ` set post" and "now - time_started a < ack_timeout a"
  shows "handle_socketio_packet env now
      (arrived (build_packet_for_payload d None ns (Some i) True) (raw_binaries (payload_raws d))) rk =
    Some (rk\<lparr>outstanding_acks := pre @ post,
      calls := calls rk @ [AckCall i (Some (payload_of_raws (payload_raws d)))]\<rparr>)"
proof -
  let ?rs = "payload_raws d"
  have rs: "?rs \<noteq> []" "list_all plain_raw ?rs" "length (raw_binaries ?rs) < 2 ^ 64"
    using assms(1) by (auto simp: proper_payload_def list_all_iff)
  have plain: "decode_event_payload q False = Some (payload_of_raws ?rs)"
    if "raw_binaries ?rs = []" "pdata q = Some (JArray (raw_docs 0 ?rs))" for q
    using decode_ack_built [OF that rs(1)] .
  have bin: "decode_binary_payload (Some (JArray (raw_docs 0 ?rs))) (Some (raw_binaries ?rs)) False =
      Some (payload_of_raws ?rs)"
    using decode_binary_built [OF rs(2,3), of False None] by (simp add: event_docs_def)
  show ?thesis using assms unfolding arrived_built [OF assms(1)]
    by (simp add: handle_socketio_packet_def build_packet_eq handle_ack_known ack_payload_def plain bin event_docs_def)
qed

text \<open>
  The invariant of the acknowledgements: after \<open>k\<close> ids have been handed out, those waited
  for and those whose callback has been called are distinct and among the first \<open>k\<close>.
\<close>

definition ack_calls :: "sio_socket \<Rightarrow> usize list" where
  "ack_calls sk = concat (map (\<lambda>c. case c of AckCall i _ \<Rightarrow> [i] | _ \<Rightarrow> []) (calls sk))"

definition acks_wf :: "nat \<Rightarrow> sio_socket \<Rightarrow> bool" where
  "acks_wf k sk \<longleftrightarrow>
     ack_id_gen sk = word_of_nat k \<and>
     distinct (map ack_id (outstanding_acks sk) @ ack_calls sk) \<and>
     set (map ack_id (outstanding_acks sk) @ ack_calls sk) \<subseteq> word_of_nat ` {..<k}"

text \<open>
  The calls on a socket in any order. The engine may change in any way between them: data
  arrives, the connection is lost.
\<close>

datatype sio_op =
    SioConnect instant
  | SioEmit sio_event sio_payload
  | SioAck usize sio_payload
  | SioEmitWithAck instant sio_event sio_payload nat
  | SioHandshake json
  | SioDisconnect
  | SioPoll instant
  | SioEngine eio_socket

fun sio_apply :: "sio_env \<Rightarrow> sio_op \<Rightarrow> sio_socket \<Rightarrow> sio_socket" where
  "sio_apply env (SioConnect now) sk = fst (sio_connect env now sk)"
| "sio_apply env (SioEmit e d) sk = fst (sio_emit env e d sk)"
| "sio_apply env (SioAck i d) sk = fst (sio_ack env i d sk)"
| "sio_apply env (SioEmitWithAck now e d t) sk = fst (sio_emit_with_ack env now e d t sk)"
| "sio_apply env (SioHandshake d) sk = fst (sio_handshake env d sk)"
| "sio_apply env SioDisconnect sk = fst (sio_disconnect env sk)"
| "sio_apply env (SioPoll now) sk = fst (sio_poll_packet env now sk)"
| "sio_apply env (SioEngine s) sk = sk\<lparr>engine := s\<rparr>"

lemma acks_wf_update [simp]:
  "acks_wf k (sk\<lparr>engine := s\<rparr>) = acks_wf k sk" "acks_wf k (sk\<lparr>ended := b\<rparr>) = acks_wf k sk"
  "acks_wf k (sk\<lparr>sk_connected := b\<rparr>) = acks_wf k sk" "acks_wf k (sio_callback e d i sk) = acks_wf k sk"
  by (simp_all add: acks_wf_def ack_calls_def sio_callback_def)

lemma acks_wf_engine [simp]: "acks_wf k (fst (with_engine f sk)) = acks_wf k sk"
  by (simp add: with_engine_def Let_def case_prod_unfold)

lemma acks_wf_engineD: "with_engine f sk = (sk', r) \<Longrightarrow> acks_wf k sk' = acks_wf k sk"
  using acks_wf_engine [of k f sk] by simp

lemma acks_wf_handle_ack:
  assumes "acks_wf k sk" and "handle_ack now packet b sk = Some sk'"
  shows "acks_wf k sk'"
proof (cases "pid packet")
  case (Some i)
  show ?thesis
  proof (cases "i \<in> ack_id ` set (outstanding_acks sk)")
    case True
    then obtain a where "a \<in> set (outstanding_acks sk)" "ack_id a = i" by auto
    then obtain pre post where split: "outstanding_acks sk = pre @ a # post" "ack_id a = i"
      by (metis split_list)
    with assms(1) have fresh: "i \<notin> ack_id ` set pre" "i \<notin> ack_id ` set post" by (auto simp: acks_wf_def)
    from handle_ack_known [OF Some split fresh, of now b] assms split show ?thesis
      by (auto simp: acks_wf_def ack_calls_def)
  qed (use handle_ack_unknown [OF Some] assms in simp)
qed (use assms in \<open>simp add: handle_ack_def\<close>)

lemma acks_wf_handle:
  assumes "acks_wf k sk" and "handle_socketio_packet env now packet sk = Some sk'"
  shows "acks_wf k sk'"
  using assms acks_wf_handle_ack [OF assms(1)]
  by (cases "ptype packet")
    (auto simp: step_simps split: if_splits option.splits json.splits)

lemma acks_wf_raw_poll: "acks_wf k (fst (raw_poll_packet env now sk)) = acks_wf k sk"
  by (simp add: raw_poll_packet_def Let_def case_prod_unfold split: raw_item.splits sum.splits)

text \<open>What the steps of a poll keep, the poll keeps.\<close>

lemma sio_poll_invariant:
  assumes raw: "\<And>sk. P sk \<Longrightarrow> P (fst (raw_poll_packet env now sk))"
    and handle: "\<And>p sk sk'. P sk \<Longrightarrow> handle_socketio_packet env now p sk = Some sk' \<Longrightarrow> P sk'"
    and report: "\<And>d sk. P sk \<Longrightarrow> P (sio_callback EvError d None sk)"
  shows "P sk \<Longrightarrow> P (fst (sio_poll_packet env now sk))"
proof (induction "length (generator (engine sk))" arbitrary: sk rule: less_induct)
  case less
  obtain sk1 item where r: "raw_poll_packet env now sk = (sk1, item)" by fastforce
  then have P: "P sk1" using less.prems raw [of sk] by simp
  show ?case
  proof (cases item)
    case (RawItem x)
    show ?thesis
    proof (cases x)
      case (Inr p)
      with r RawItem have "length (generator (engine sk1)) < length (generator (engine sk))"
        by (auto simp: raw_poll_packet_def Let_def dest!: raw_stream_next_shrinks
            split: if_splits prod.splits raw_item.splits sum.splits)
      with less.hyps P r RawItem Inr handle [OF P] show ?thesis
        by (auto simp: sio_poll_packet.simps [of env now sk] split: option.splits)
    qed (use r RawItem P report in \<open>simp add: sio_poll_packet.simps [of env now sk]\<close>)
  qed (use r P in \<open>simp_all add: sio_poll_packet.simps [of env now sk]\<close>)
qed

lemma acks_wf_poll: "acks_wf k sk \<Longrightarrow> acks_wf k (fst (sio_poll_packet env now sk))"
  by (rule sio_poll_invariant) (simp_all add: acks_wf_raw_poll acks_wf_handle)

text \<open>The namespace, the callbacks and the side of a socket never change.\<close>

definition identity :: "sio_socket \<Rightarrow> ustr \<times> sio_event set \<times> bool" where
  "identity sk = (sk_nsp sk, on sk, is_server sk)"

lemma identity_update [simp]:
  "identity (sk\<lparr>engine := s\<rparr>) = identity sk" "identity (sk\<lparr>ended := b\<rparr>) = identity sk"
  "identity (sk\<lparr>sk_connected := b\<rparr>) = identity sk" "identity (sio_callback e d i sk) = identity sk"
  "identity (sk\<lparr>ack_id_gen := g, outstanding_acks := acks\<rparr>) = identity sk"
  "identity (sk\<lparr>outstanding_acks := acks, calls := cs\<rparr>) = identity sk"
  "identity (fst (with_engine f sk)) = identity sk"
  by (simp_all add: identity_def sio_callback_def with_engine_def case_prod_unfold Let_def)

lemma identity_handle: "handle_socketio_packet env now p sk = Some sk' \<Longrightarrow> identity sk' = identity sk"
  by (cases "ptype p")
    (auto simp: step_simps handle_ack_def Let_def
      split: if_splits option.splits json.splits prod.splits)

lemma identity_ops [simp]:
  "identity (fst (sio_emit env e d sk)) = identity sk" "identity (fst (sio_ack env i d sk)) = identity sk"
  "identity (fst (sio_handshake env j sk)) = identity sk"
  "identity (fst (sio_emit_with_ack env now e d t sk)) = identity sk"
  "identity (fst (sio_poll_packet env now sk)) = identity sk"
proof -
  have "identity (fst (raw_poll_packet env now sk)) = identity sk" for sk
    by (simp add: raw_poll_packet_def Let_def case_prod_unfold split: raw_item.splits sum.splits)
  then show "identity (fst (sio_poll_packet env now sk)) = identity sk"
    by (intro sio_poll_invariant [where P = "\<lambda>x. identity x = identity sk"]) (simp_all add: identity_handle)
qed (simp_all add: sio_emit_def sio_ack_def sio_handshake_def sio_emit_with_ack_def ack_id_generate_def Let_def)

lemma acks_wf_grow: "acks_wf k sk \<Longrightarrow> \<exists>l\<le>Suc k. acks_wf l sk"
  using le_SucI by blast

lemma word_of_nat_fresh: "k < 2 ^ 64 \<Longrightarrow> (word_of_nat k :: usize) \<notin> word_of_nat ` {..<k}"
proof
  assume k: "k < 2 ^ 64" and "(word_of_nat k :: usize) \<in> word_of_nat ` {..<k}"
  then obtain j where j: "j < k" "(word_of_nat k :: usize) = word_of_nat j" by auto
  then have "k mod 2 ^ 64 = j mod 2 ^ 64" by (simp add: word_of_nat_eq_iff take_bit_eq_mod)
  with k j(1) show False by simp
qed

lemma acks_wf_emit_with_ack:
  assumes "acks_wf k sk" and "k < 2 ^ 64"
  shows "\<exists>l\<le>Suc k. acks_wf l (fst (sio_emit_with_ack env now e d t sk))"
proof (cases "sk_connected sk")
  case True
  let ?a = "\<lparr>ack_id = ack_id_gen sk, ack_timeout = t, time_started = now\<rparr>"
  have "acks_wf (Suc k) (sk\<lparr>ack_id_gen := ack_id_gen sk + 1, outstanding_acks := outstanding_acks sk @ [?a]\<rparr>)"
  proof -
    have "ack_calls (sk\<lparr>ack_id_gen := ack_id_gen sk + 1, outstanding_acks := outstanding_acks sk @ [?a]\<rparr>) = ack_calls sk"
      by (simp add: ack_calls_def)
    with assms(1) word_of_nat_fresh [OF assms(2)] show ?thesis
      unfolding acks_wf_def lessThan_Suc by (auto simp: add.commute)
  qed
  with True show ?thesis
    by (auto simp: sio_emit_with_ack_def ack_id_generate_def Let_def)
qed (use acks_wf_grow [OF assms(1)] in \<open>simp add: sio_emit_with_ack_def\<close>)

lemma acks_wf_apply:
  assumes "acks_wf k sk" and "k < 2 ^ 64"
  shows "\<exists>l\<le>Suc k. acks_wf l (sio_apply env op sk)"
proof (cases op)
  case (SioEmitWithAck now e d t)
  with acks_wf_emit_with_ack [OF assms] show ?thesis by simp
next
  case (SioConnect now)
  have "acks_wf k (fst (sio_connect env now sk))"
    using assms(1) by (auto simp: sio_connect_def dest: acks_wf_engineD [where k = k] split: prod.splits sum.splits)
  with SioConnect acks_wf_grow show ?thesis by simp
next
  case SioDisconnect
  let ?sk = "if sk_connected sk then sk\<lparr>sk_connected := False\<rparr> else sk"
  have "acks_wf k ?sk" using assms(1) by simp
  then have "acks_wf k (fst (sio_disconnect env sk))"
    by (auto simp: sio_disconnect_def Let_def dest!: acks_wf_engineD [where k = k] split: prod.splits sum.splits)
  with SioDisconnect acks_wf_grow show ?thesis by simp
next
  case (SioPoll now)
  with acks_wf_poll [OF assms(1)] acks_wf_grow show ?thesis by simp
qed (use assms acks_wf_grow [of k] in \<open>simp_all add: sio_emit_def sio_ack_def sio_handshake_def\<close>)

interpretation ack_runs: graded_invariant "sio_apply env" acks_wf "2 ^ 64" for env
  by unfold_locales (rule acks_wf_apply)

lemma built_nsp [simp]: "nsp (build_packet_for_payload d e ns i b) = ns"
  by (simp add: build_packet_eq)

lemma arrived_nsp [simp]: "nsp (arrived p atts) = nsp p"
  by (simp add: arrived_def received_def)

lemma built_attachments:
  "proper_payload d \<Longrightarrow> attachments (build_packet_for_payload d e ns i b) = Some (raw_binaries (payload_raws d)) \<and>
   unat (attachment_count (build_packet_for_payload d e ns i b)) = length (raw_binaries (payload_raws d))"
  by (simp add: build_packet_eq proper_payload_def unat_of_nat)

text \<open>A poll that hands the given packet to the handlers.\<close>

definition polls :: "sio_env \<Rightarrow> instant \<Rightarrow> sio_socket \<Rightarrow> sio_packet \<Rightarrow> bool" where
  "polls env now rk q \<longleftrightarrow>
     (\<exists>s'. sio_poll_packet env now rk =
        (case handle_socketio_packet env now q (rk\<lparr>engine := s'\<rparr>) of
           None \<Rightarrow> (rk\<lparr>engine := s'\<rparr>, RawPanic)
         | Some rk' \<Rightarrow> (rk', RawItem (Inr q))))"

definition built_arrival :: "sio_payload \<Rightarrow> sio_event option \<Rightarrow> ustr \<Rightarrow> usize option \<Rightarrow> bool \<Rightarrow> sio_packet" where
  "built_arrival d e ns i is_ack =
     arrived (build_packet_for_payload d e ns i is_ack) (raw_binaries (payload_raws d))"

lemma built_delivery:
  assumes "base64 (env_encode env) decode" and "serde_json (env_to_string env) (env_from_str env)"
    and "reliable (env_net env)" and "connected s" and "transport s = ClientPolling"
    and "wf_nsp ns" and "0x1e \<notin> set ns" and d: "proper_payload d"
    and "case e of Some ev \<Rightarrow> wf_str (string_from_event ev) | None \<Rightarrow> True"
  shows "\<exists>ws. raw_send env (build_packet_for_payload d e ns i is_ack) s = (s\<lparr>wire_out := wire_out s @ ws\<rparr>, Inr ()) \<and>
    (\<forall>now rk. posts_received decode ws rk \<and> sk_nsp rk = ns \<longrightarrow> polls env now rk (built_arrival d e ns i is_ack))"
proof -
  let ?p = "build_packet_for_payload d e ns i is_ack"
  obtain ws where ws: "raw_send env ?p s = (s\<lparr>wire_out := wire_out s @ ws\<rparr>, Inr ())"
    "\<And>env' now rk. env_from_str env' = env_from_str env \<Longrightarrow> env_to_string env' = env_to_string env \<Longrightarrow>
      posts_received decode ws rk \<Longrightarrow>
      \<exists>s'. raw_stream_next env' now (engine rk) = (s', RawItem (Inr (arrived ?p (raw_binaries (payload_raws d)))))"
    using packet_delivery [OF assms(1-5) wf_built [OF assms(6) d assms(9)], of i is_ack "raw_binaries (payload_raws d)"]
      built_attachments [OF d] assms(7) by auto
  have "polls env now rk (built_arrival d e ns i is_ack)" if r: "posts_received decode ws rk" "sk_nsp rk = ns" for now rk
  proof -
    obtain s' where "raw_stream_next env now (engine rk) = (s', RawItem (Inr (built_arrival d e ns i is_ack)))"
      using ws(2) [OF refl refl r(1), of now] by (auto simp: built_arrival_def)
    with r have "sio_poll_packet env now rk =
        (case handle_socketio_packet env now (built_arrival d e ns i is_ack) (rk\<lparr>engine := s'\<rparr>) of
           None \<Rightarrow> (rk\<lparr>engine := s'\<rparr>, RawPanic) | Some rk' \<Rightarrow> (rk', RawItem (Inr (built_arrival d e ns i is_ack))))"
      by (intro sio_poll_arrived) (simp_all add: posts_received_def built_arrival_def)
    then show ?thesis unfolding polls_def by blast
  qed
  with ws(1) show ?thesis by blast
qed

lemma sio_callback_fields [simp]:
  "ended (sio_callback e d i sk) = ended sk" "sk_nsp (sio_callback e d i sk) = sk_nsp sk"
  by (simp_all add: sio_callback_def)

lemma raw_poll_fields:
  assumes "raw_poll_packet env now sk = (sk', item)"
  shows "sk_nsp sk' = sk_nsp sk" and "(\<exists>p. item = RawItem (Inr p)) \<or> ended sk'"
  using assms by (auto simp: raw_poll_packet_def Let_def split: if_splits prod.splits raw_item.splits sum.splits)

lemma handle_nsp: "handle_socketio_packet env now p sk = Some sk' \<Longrightarrow> sk_nsp sk' = sk_nsp sk"
  using identity_handle [of env now p sk sk'] by (simp add: identity_def)

text \<open>What a poll returns belongs to the namespace; all else ends the stream.\<close>

lemma sio_poll_outcome:
  "sio_poll_packet env now sk = (sk', item) \<Longrightarrow>
   sk_nsp sk' = sk_nsp sk \<and>
   (case item of RawItem (Inr p) \<Rightarrow> nsp p = sk_nsp sk | RawPanic \<Rightarrow> True | _ \<Rightarrow> ended sk')"
proof (induction env now sk arbitrary: sk' item rule: sio_poll_packet.induct)
  case (1 env now sk)
  obtain sk1 it where r: "raw_poll_packet env now sk = (sk1, it)" by fastforce
  note raw = raw_poll_fields [OF r] and unfolded = "1.prems" [unfolded sio_poll_packet.simps [of env now sk] r]
  show ?case
  proof (cases it)
    case (RawItem x)
    show ?thesis
    proof (cases x)
      case (Inr p)
      show ?thesis
      proof (cases "nsp p = sk_nsp sk1")
        case True
        with unfolded RawItem Inr raw(1) show ?thesis by (auto split: option.splits dest: handle_nsp)
      next
        case False
        with unfolded RawItem Inr have "sio_poll_packet env now sk1 = (sk', item)" by simp
        from "1.IH" [OF r [symmetric] RawItem Inr False this] show ?thesis unfolding raw(1) .
      qed
    qed (use unfolded RawItem raw in auto)
  qed (use unfolded raw in auto)
qed

text \<open>
  An event arrives. A connected socket emits an event with a payload of documents and
  binaries over polling posts: the call succeeds, and whichever socket of the same
  namespace receives what was posted starts its callback of this event once, with the same
  event and the parts of the payload in order (a single part comes unwrapped).
\<close>

lemma event_delivery:
  assumes "base64 (env_encode env) decode" and "serde_json (env_to_string env) (env_from_str env)"
    and "reliable (env_net env)" and "sk_connected sk" and "connected (engine sk)"
    and "transport (engine sk) = ClientPolling" and "wf_nsp (sk_nsp sk)" and "0x1e \<notin> set (sk_nsp sk)"
    and "proper_payload d" and "proper_event e" and "wf_str (string_from_event e)"
  shows "\<exists>ws. sio_emit env e d sk = (sk\<lparr>engine := (engine sk)\<lparr>wire_out := wire_out (engine sk) @ ws\<rparr>\<rparr>, Inr ()) \<and>
    (\<forall>now rk. posts_received decode ws rk \<and> sk_nsp rk = sk_nsp sk \<and> e \<in> on rk \<longrightarrow>
      (\<exists>rk' q. sio_poll_packet env now rk = (rk', RawItem (Inr q)) \<and>
        calls rk' = calls rk @ [EventCall e (Some (payload_of_raws (payload_raws d))) None]))"
proof -
  let ?q = "built_arrival d (Some e) (sk_nsp sk) None False"
  obtain ws where ws: "raw_send env (build_packet_for_payload d (Some e) (sk_nsp sk) None False) (engine sk) =
      ((engine sk)\<lparr>wire_out := wire_out (engine sk) @ ws\<rparr>, Inr ())"
    "\<And>now rk. posts_received decode ws rk \<Longrightarrow> sk_nsp rk = sk_nsp sk \<Longrightarrow> polls env now rk ?q"
    using built_delivery [OF assms(1-3,5-9), of "Some e" None False] assms(11) by auto
  have "\<exists>rk' q. sio_poll_packet env now rk = (rk', RawItem (Inr q)) \<and>
      calls rk' = calls rk @ [EventCall e (Some (payload_of_raws (payload_raws d))) None]"
    if "posts_received decode ws rk" "sk_nsp rk = sk_nsp sk" "e \<in> on rk" for now rk
    using ws(2) [OF that(1,2), of now] that(2,3) handle_built_event [OF assms(9,10)]
    by (auto simp: polls_def built_arrival_def)
  with ws(1) assms(4) show ?thesis by (auto simp: sio_emit_def with_engine_def raw_emit_def)
qed

text \<open>
  An acknowledgement arrives. The payload with which a connected socket acknowledges an
  id over polling posts reaches the socket that waits for this id: within the time limit
  its callback is called once with the parts of the payload in order, and the
  acknowledgement is no longer waited for, while all others still are.
\<close>

lemma ack_delivery:
  assumes "base64 (env_encode env) decode" and "serde_json (env_to_string env) (env_from_str env)"
    and "reliable (env_net env)" and "sk_connected sk" and "connected (engine sk)"
    and "transport (engine sk) = ClientPolling" and "wf_nsp (sk_nsp sk)" and "0x1e \<notin> set (sk_nsp sk)"
    and "proper_payload d"
  shows "\<exists>ws. sio_ack env i d sk = (sk\<lparr>engine := (engine sk)\<lparr>wire_out := wire_out (engine sk) @ ws\<rparr>\<rparr>, Inr ()) \<and>
    (\<forall>now rk pre a post. posts_received decode ws rk \<and> sk_nsp rk = sk_nsp sk \<and>
        outstanding_acks rk = pre @ a # post \<and> ack_id a = i \<and> i \<notin> ack_id ` set (pre @ post) \<and>
        now - time_started a < ack_timeout a \<longrightarrow>
      (\<exists>rk' q. sio_poll_packet env now rk = (rk', RawItem (Inr q)) \<and> outstanding_acks rk' = pre @ post \<and>
        calls rk' = calls rk @ [AckCall i (Some (payload_of_raws (payload_raws d)))]))"
proof -
  let ?q = "built_arrival d None (sk_nsp sk) (Some i) True"
  obtain ws where ws: "raw_send env (build_packet_for_payload d None (sk_nsp sk) (Some i) True) (engine sk) =
      ((engine sk)\<lparr>wire_out := wire_out (engine sk) @ ws\<rparr>, Inr ())"
    "\<And>now rk. posts_received decode ws rk \<Longrightarrow> sk_nsp rk = sk_nsp sk \<Longrightarrow> polls env now rk ?q"
    using built_delivery [OF assms(1-3,5-9), of None "Some i" True] by auto
  have "\<exists>rk' q. sio_poll_packet env now rk = (rk', RawItem (Inr q)) \<and> outstanding_acks rk' = pre @ post \<and>
      calls rk' = calls rk @ [AckCall i (Some (payload_of_raws (payload_raws d)))]"
    if "posts_received decode ws rk" "sk_nsp rk = sk_nsp sk" "outstanding_acks rk = pre @ a # post" "ack_id a = i"
      "i \<notin> ack_id ` set (pre @ post)" "now - time_started a < ack_timeout a" for now rk pre a post
  proof -
    have "i \<notin> ack_id ` set pre" "i \<notin> ack_id ` set post" using that(5) by auto
    with ws(2) [OF that(1,2), of now] that(2-4,6) handle_built_ack [OF assms(9)] show ?thesis
      by (auto simp: polls_def built_arrival_def)
  qed
  with ws(1) assms(4) show ?thesis
    by (intro exI [of _ ws] conjI allI impI) (auto simp: sio_ack_def with_engine_def raw_ack_def)
qed

section \<open>Properties\<close>

definition example_env :: sio_env where
  "example_env = \<lparr>env_encode = rfc_encode, env_net = (\<lambda>_ _. Inr 200), env_to_string = print_json,
     env_from_str = parse_json, env_error_text = (\<lambda>_. []), env_debug = (\<lambda>_. [])\<rparr>"

definition example_sio :: "sio_event set \<Rightarrow> sio_socket" where
  "example_sio evs = sio_socket_new (example_socket ClientPolling) False (str ''/'') evs"

lemma example_env_laws:
  "base64 (env_encode example_env) rfc_decode" "serde_json (env_to_string example_env) (env_from_str example_env)"
  "reliable (env_net example_env)"
  using rfc4648.base64_axioms compact.serde_json_axioms by (simp_all add: example_env_def reliable_def)

lemma example_sio_simps [simp]:
  "sk_connected (example_sio evs)" "engine (example_sio evs) = example_socket ClientPolling"
  "sk_nsp (example_sio evs) = str ''/''" "wf_nsp [47]" "on (example_sio evs) = evs" "\<not> ended (example_sio evs)"
  "outstanding_acks (example_sio evs) = []" "calls (example_sio evs) = []" "ack_id_gen (example_sio evs) = 0"
  by (simp_all add: example_sio_def sio_socket_new_def wf_nsp_def scalar_def)

text \<open>
  C9: However calls on a socket, polls and changes of its connection interleave, for up to
  two to the 64 of them since the socket was made, the callback of an acknowledgement is
  called at most once, never while the acknowledgement is still waited for, and no two
  acknowledgements waited for share an id.
\<close>

theorem ack_called_at_most_once:
  assumes "length ops \<le> 2 ^ 64" and "sk = fold (sio_apply env) ops (sio_socket_new s server ns handlers)"
  shows "distinct (ack_calls sk) \<and> distinct (map ack_id (outstanding_acks sk)) \<and>
    set (ack_calls sk) \<inter> ack_id ` set (outstanding_acks sk) = {}"
proof -
  have "acks_wf 0 (sio_socket_new s server ns handlers)"
    by (simp add: acks_wf_def sio_socket_new_def ack_calls_def)
  from ack_runs.run_inv [OF this, of ops env] assms show ?thesis by (auto simp: acks_wf_def)
qed

theorem ack_called_at_most_once_witness:
  "let sk = fold (sio_apply example_env) [SioEmitWithAck 0 EvMessage (PJson JNull) 5, SioDisconnect]
     (sio_socket_new (example_socket ClientPolling) False (str ''/'') {})
   in distinct (ack_calls sk) \<and> distinct (map ack_id (outstanding_acks sk)) \<and>
    set (ack_calls sk) \<inter> ack_id ` set (outstanding_acks sk) = {}"
  unfolding Let_def by (rule ack_called_at_most_once [OF _ refl]) simp

text \<open>
  A socket that has been disconnected refuses to emit, with or without acknowledgement,
  and to acknowledge: each call returns an illegal-action error and changes nothing.
\<close>

theorem disconnected_refuses:
  "\<not> sk_connected (fst (sio_disconnect env sk)) \<and>
   (\<not> sk_connected sk \<longrightarrow>
     sio_emit env e d sk = (sk, Inl SIllegalActionBeforeOpen) \<and>
     sio_ack env i d sk = (sk, Inl SIllegalActionBeforeOpen) \<and>
     sio_emit_with_ack env now e d t sk = (sk, Inl SIllegalActionBeforeOpen))"
  by (auto simp: sio_disconnect_def sio_emit_def sio_ack_def sio_emit_with_ack_def with_engine_def Let_def
      split: prod.splits sum.splits)

theorem disconnected_refuses_witness:
  "sio_emit example_env EvMessage (PJson JNull) ((example_sio {})\<lparr>sk_connected := False\<rparr>) =
     ((example_sio {})\<lparr>sk_connected := False\<rparr>, Inl SIllegalActionBeforeOpen)"
  using disconnected_refuses [of example_env "(example_sio {})\<lparr>sk_connected := False\<rparr>" EvMessage "PJson JNull"] by simp

text \<open>
  An event without arguments is not delivered as itself. Of the packet that an emission
  with an empty payload list builds, the receiver makes the event \<open>message\<close> with the name of
  the event as its payload, whatever the event was.
\<close>

theorem event_without_arguments:
  assumes "sk_nsp rk = ns" and "EvMessage \<in> on rk"
  shows "handle_socketio_packet env now (build_packet_for_payload (PMulti []) (Some e) ns None False) rk =
    Some (rk\<lparr>calls := calls rk @ [EventCall EvMessage (Some (PJson (JString (string_from_event e)))) None]\<rparr>)"
  using assms
  by (simp add: handle_socketio_packet_def build_packet_eq event_docs_def handle_event_def event_name_def
      decode_event_payload_def sio_callback_def)

theorem event_without_arguments_witness:
  "\<exists>rk'. handle_socketio_packet example_env 0
      (build_packet_for_payload (PMulti []) (Some (EvCustom (str ''foo''))) (str ''/'') None False) (example_sio {EvMessage}) = Some rk' \<and>
    calls rk' = [EventCall EvMessage (Some (PJson (JString (string_from_event (EvCustom (str ''foo'')))))) None]"
  using event_without_arguments [of "example_sio {EvMessage}" "str ''/''" example_env 0 "EvCustom (str ''foo'')"] by simp

text \<open>
  Polling a socket yields packets of its own namespace only, and an error or the end of
  its stream is final: every later poll returns the end and changes nothing.
\<close>

theorem poll_outcome:
  assumes "sio_poll_packet env now sk = (sk', item)" and "item \<noteq> RawPanic"
  shows "(\<exists>p. item = RawItem (Inr p) \<and> nsp p = sk_nsp sk) \<or>
    (\<forall>env' later. sio_poll_packet env' later sk' = (sk', RawEnd))"
proof -
  have "sio_poll_packet env' later sk' = (sk', RawEnd)" if "ended sk'" for env' later
    using that by (simp add: sio_poll_packet.simps [of env' later sk'] raw_poll_packet_def)
  with sio_poll_outcome [OF assms(1)] assms(2) show ?thesis
    by (auto split: raw_item.splits sum.splits)
qed

theorem poll_outcome_witness:
  "\<forall>env' later. sio_poll_packet env' later ((example_sio {})\<lparr>ended := True\<rparr>) = ((example_sio {})\<lparr>ended := True\<rparr>, RawEnd)"
  using poll_outcome [of example_env 0 "(example_sio {})\<lparr>ended := True\<rparr>" "(example_sio {})\<lparr>ended := True\<rparr>" RawEnd]
  by (simp add: sio_poll_packet.simps [of example_env] raw_poll_packet_def)

text \<open>
  C34: A connection that ends between a packet and its announced attachments panics the
  task that polls the socket, instead of ending the stream or yielding an error.
\<close>

theorem missing_attachments_panic:
  assumes "\<not> ended sk" and "generator (engine sk) = [Inr m]" and "eptype m = Message"
    and "sio_packet_try_from (env_from_str env) (edata m) = Inr p" and "attachment_count p > 0"
  shows "snd (sio_poll_packet env now sk) = RawPanic"
proof -
  let ?s = "handle_incoming_packet (env_encode env) (env_net env) now m ((engine sk)\<lparr>generator := []\<rparr>)"
  have poll: "socket_poll_next (env_encode env) (env_net env) now (engine sk) = (?s, Some (Inr m))"
    using assms(2) by (simp add: socket_poll_next_def)
  obtain n where n: "unat (attachment_count p) = Suc n"
    using assms(5) by (metis not0_implies_Suc unat_eq_zero word_gt_0)
  have "read_attachments env now (unat (attachment_count p)) [] ?s = (?s, None)"
    using n by (simp add: socket_poll_next_def)
  with poll assms(3-5) have "raw_stream_next env now (engine sk) = (?s, RawPanic)"
    by (simp add: raw_stream_next.simps [of env now "engine sk"] handle_engineio_packet_def)
  with assms(1) show ?thesis
    by (simp add: sio_poll_packet.simps [of env now sk] raw_poll_packet_def)
qed

theorem missing_attachments_panic_witness:
  "let p = sio_packet_new BinaryEvent (str ''/'') (Some (JArray [JNull])) None 1 None;
       m = packet_new Message (bytes_from_sio_packet print_json p)
   in snd (sio_poll_packet example_env 0
     ((example_sio {})\<lparr>engine := (example_socket ClientPolling)\<lparr>generator := [Inr m]\<rparr>\<rparr>)) = RawPanic"
proof -
  let ?p = "sio_packet_new BinaryEvent (str ''/'') (Some (JArray [JNull])) None 1 None"
  have wf: "wf_sio_packet ?p" by (simp add: wf_sio_packet_def sio_packet_new_def has_attachment_count_def)
  from serde_json.sio_packet_encode_decode [OF compact.serde_json_axioms this]
  have "sio_packet_try_from (env_from_str example_env) (bytes_from_sio_packet print_json ?p) = Inr (received ?p)"
    by (simp add: example_env_def)
  then show ?thesis unfolding Let_def
    by (intro missing_attachments_panic [where p = "received ?p" and m = "packet_new Message (bytes_from_sio_packet print_json ?p)"])
      (simp_all add: received_def sio_packet_new_def)
qed

end
