(* ===== verification/Engine_Server.thy ===== *)
theory Engine_Server
  imports Engine_Socket Json
begin

text \<open>
  The Engine.IO server (\<open>engineio/src/server/server.rs\<close>, \<open>engineio/src/server/builder.rs\<close>):
  its options, session ids, sockets, polling handles, the ping loop. The sockets of a
  server share one event channel, which is kept in the server's state and lent to a socket
  for each call. A polling handle holds the bodies posted to a socket and the messages of
  the socket that no response has taken yet; the queue of a socket accepts messages as long
  as its handle exists. A queue has a capacity, and an emission waits for room in a full one:
  \<open>emit_waits\<close> tells when, and the ping loop takes it into account; every other operation is
  modelled as it is when it has found room.
\<close>

section \<open>State\<close>

record server_option =
  ping_timeout :: u64
  ping_interval :: u64
  max_payload_option :: usize

definition server_option_default :: server_option where
  "server_option_default = \<lparr>ping_timeout = 25000, ping_interval = 20000, max_payload_option = 102400\<rparr>"

record polling_handle =
  posted :: "bytes list"
  pending :: "bytes list"

record eio_server =
  srv_port :: u16
  srv_option :: server_option
  id_generator :: usize
  polling_handles :: "sid \<rightharpoonup> polling_handle"
  polling_buffer :: usize
  srv_events :: event_sender
  sockets :: "sid \<rightharpoonup> eio_socket"

text \<open>The builder.\<close>

record server_builder =
  b_port :: u16
  b_server_option :: server_option
  b_polling_buffer :: usize
  b_event_size :: usize

definition server_builder_new :: "u16 \<Rightarrow> server_builder" where
  "server_builder_new port =
     \<lparr>b_port = port, b_server_option = server_option_default, b_polling_buffer = 100, b_event_size = 1000\<rparr>"

definition builder_server_option :: "server_option \<Rightarrow> server_builder \<Rightarrow> server_builder" where
  "builder_server_option opt b = b\<lparr>b_server_option := opt\<rparr>"

definition builder_polling_buffer :: "usize \<Rightarrow> server_builder \<Rightarrow> server_builder" where
  "builder_polling_buffer n b = b\<lparr>b_polling_buffer := n\<rparr>"

definition builder_event_size :: "usize \<Rightarrow> server_builder \<Rightarrow> server_builder" where
  "builder_event_size n b = b\<lparr>b_event_size := n\<rparr>"

text \<open>A channel of capacity zero panics.\<close>

definition builder_build :: "server_builder \<Rightarrow> eio_server option" where
  "builder_build b =
     (if b_event_size b = 0 then None
      else Some
        \<lparr>srv_port = b_port b, srv_option = b_server_option b, id_generator = 0,
         polling_handles = Map.empty, polling_buffer = b_polling_buffer b,
         srv_events = \<lparr>receiver_alive = True, events_sent = []\<rparr>, sockets = Map.empty\<rparr>)"

section \<open>Session ids\<close>

definition eio_sid :: "(bytes \<Rightarrow> ustr) \<Rightarrow> usize \<Rightarrow> sid" where
  "eio_sid encode seq = encode (as_bytes (dec (unat seq)))"

text \<open>The counter is fetched and incremented with wrap-around.\<close>

definition sid_generate :: "(bytes \<Rightarrow> ustr) \<Rightarrow> eio_server \<Rightarrow> sid \<times> eio_server" where
  "sid_generate encode srv =
     (let seq = id_generator srv in (eio_sid encode seq, srv\<lparr>id_generator := seq + 1\<rparr>))"

definition server_handshake_packet ::
  "(bytes \<Rightarrow> ustr) \<Rightarrow> ustr list \<Rightarrow> sid option \<Rightarrow> eio_server \<Rightarrow> handshake_packet \<times> eio_server" where
  "server_handshake_packet encode upgrades sid srv =
     (let (sid, srv) = (case sid of Some sid \<Rightarrow> (sid, srv) | None \<Rightarrow> sid_generate encode srv) in
      (\<lparr>hs_sid = sid, hs_upgrades = upgrades, hs_ping_interval = ping_interval (srv_option srv),
        hs_ping_timeout = ping_timeout (srv_option srv), hs_max_payload = max_payload_option (srv_option srv)\<rparr>, srv))"

section \<open>Sockets of a server\<close>

text \<open>
  The network of a socket: the queue of a polling socket, whose receiver is in the handle,
  and the given outcome for websocket messages.
\<close>

definition server_net :: "network \<Rightarrow> eio_server \<Rightarrow> sid \<Rightarrow> network" where
  "server_net net srv sid = (\<lambda>out w.
     case w of
       Queue _ \<Rightarrow> if polling_handles srv sid = None then Inl () else Inr 200
     | _ \<Rightarrow> net out w)"

definition queued :: "wire list \<Rightarrow> bytes list" where
  "queued ws = concat (map (\<lambda>w. case w of Queue b \<Rightarrow> [b] | _ \<Rightarrow> []) ws)"

text \<open>
  A call on a socket of the server: the event channel is lent and what the socket has
  queued goes to its polling handle.
\<close>

definition lend_events :: "eio_server \<Rightarrow> eio_socket \<Rightarrow> eio_socket" where
  "lend_events srv s = s\<lparr>event_tx := Some (srv_events srv)\<rparr>"

definition return_events :: "sid \<Rightarrow> eio_socket \<Rightarrow> eio_socket \<Rightarrow> eio_server \<Rightarrow> eio_server" where
  "return_events sid s s' srv =
     srv\<lparr>srv_events := (case event_tx s' of Some tx \<Rightarrow> tx | None \<Rightarrow> srv_events srv),
         polling_handles := (case polling_handles srv sid of
             None \<Rightarrow> polling_handles srv
           | Some h \<Rightarrow> (polling_handles srv)(sid \<mapsto>
               h\<lparr>pending := pending h @ queued (drop (length (wire_out s)) (wire_out s'))\<rparr>))\<rparr>"

definition server_socket :: "sid \<Rightarrow> eio_server \<Rightarrow> eio_socket option" where
  "server_socket sid srv = map_option (lend_events srv) (sockets srv sid)"

definition server_emit ::
  "(bytes \<Rightarrow> ustr) \<Rightarrow> network \<Rightarrow> sid \<Rightarrow> eio_packet \<Rightarrow> eio_server \<Rightarrow> eio_server \<times> (eio_error + unit)" where
  "server_emit encode net sid p srv =
     (case server_socket sid srv of
        None \<Rightarrow> (srv, Inr ())
      | Some s \<Rightarrow>
          let (s', r) = socket_emit encode (server_net net srv sid) p s in
          ((return_events sid s s' srv)\<lparr>sockets := (sockets srv)(sid \<mapsto> s')\<rparr>, r))"

definition close_socket ::
  "(bytes \<Rightarrow> ustr) \<Rightarrow> network \<Rightarrow> sid \<Rightarrow> eio_server \<Rightarrow> eio_server" where
  "close_socket encode net sid srv =
     (case server_socket sid srv of
        None \<Rightarrow> srv
      | Some s \<Rightarrow>
          let srv = srv\<lparr>sockets := (sockets srv)(sid := None)\<rparr>;
              (s', _) = socket_disconnect encode (server_net net srv sid) s
          in return_events sid s s' srv)"

definition server_polling_handle :: "sid \<Rightarrow> eio_server \<Rightarrow> polling_handle option" where
  "server_polling_handle sid srv = polling_handles srv sid"

definition drain_polling :: "(bytes \<Rightarrow> ustr) \<Rightarrow> network \<Rightarrow> sid \<Rightarrow> eio_server \<Rightarrow> eio_server" where
  "drain_polling encode net sid srv =
     (case server_socket sid srv of
        None \<Rightarrow> srv
      | Some s \<Rightarrow>
          let (s', _) = socket_emit encode (server_net net srv sid) packet_noop s in
          (return_events sid s s' srv)\<lparr>sockets := (sockets srv)(sid \<mapsto> s')\<rparr>)"

definition server_last_pong :: "sid \<Rightarrow> eio_server \<Rightarrow> instant option" where
  "server_last_pong sid srv = map_option socket_last_pong (sockets srv sid)"

text \<open>The bound on what is read of a request; it is not the option of the same name.\<close>

definition max_payload :: usize where
  "max_payload = 1000"

text \<open>
  The transport of a connection becomes the transport of its socket: of the existing
  socket after an upgrade, of a new one otherwise. The result also tells whether a ping
  loop has been started.
\<close>

definition store_transport ::
  "(bytes \<Rightarrow> ustr) \<Rightarrow> (bytes \<Rightarrow> bytes option) \<Rightarrow> network \<Rightarrow> instant \<Rightarrow> sid \<Rightarrow> transport_type \<Rightarrow>
     (eio_error + bytes) list \<Rightarrow> bool \<Rightarrow> eio_server \<Rightarrow> eio_server \<times> (eio_error + bool)" where
  "store_transport encode decode net now sid t incoming is_upgrade srv =
     (let (hs, srv) = server_handshake_packet encode [str ''webscocket''] (Some sid) srv in
      if is_upgrade then
        (case server_socket sid srv of
           Some s \<Rightarrow> (srv\<lparr>sockets := (sockets srv)(sid \<mapsto> socket_upgrade decode t incoming s)\<rparr>, Inr False)
         | None \<Rightarrow> (srv, Inr False))
      else
        let s = socket_new now t (socket_stream decode incoming) hs (Some (srv_events srv)) False True;
            (s', r) = socket_connect encode (server_net net srv sid) now s;
            srv = return_events sid s s' srv
        in (case r of
              Inl e \<Rightarrow> (srv, Inl e)
            | Inr _ \<Rightarrow> (srv\<lparr>sockets := (sockets srv)(sid \<mapsto> s')\<rparr>, Inr True)))"

text \<open>
  One turn of the ping loop, at a tick of its interval: it tells whether the loop goes
  on. Durations are in the unit of the options; the sum of the two options is taken modulo
  the width of the type.
\<close>

definition ping_deadline :: "server_option \<Rightarrow> nat" where
  "ping_deadline opt = unat (ping_timeout opt + ping_interval opt)"

definition ping_tick ::
  "(bytes \<Rightarrow> ustr) \<Rightarrow> network \<Rightarrow> instant \<Rightarrow> sid \<Rightarrow> eio_server \<Rightarrow> eio_server \<times> bool" where
  "ping_tick encode net now sid srv =
     (case server_emit encode net sid (packet_new Ping []) srv of
        (srv, Inl _) \<Rightarrow> (close_socket encode net sid srv, False)
      | (srv, Inr _) \<Rightarrow>
          (case server_last_pong sid srv of
             Some instant \<Rightarrow>
               if now - instant < ping_deadline (srv_option srv) then (srv, True)
               else (close_socket encode net sid srv, False)
           | None \<Rightarrow> (close_socket encode net sid srv, False)))"

text \<open>
  An emission on a polling session whose queue is full waits until a polling request has
  taken something from it.
\<close>

definition emit_waits :: "sid \<Rightarrow> eio_server \<Rightarrow> bool" where
  "emit_waits sid srv \<longleftrightarrow>
     (case (sockets srv sid, polling_handles srv sid) of
        (Some s, Some h) \<Rightarrow> connected s \<and> transport s = ServerPolling \<and> unat (polling_buffer srv) \<le> length (pending h)
      | _ \<Rightarrow> False)"

text \<open>
  The loop at the given ticks of its interval: it may go on after them, have ended, or wait
  with its ping for room in the queue, which no tick of the loop can make.
\<close>

datatype loop_state = LoopGoes | LoopEnded | LoopWaits

fun ping_loop ::
  "(bytes \<Rightarrow> ustr) \<Rightarrow> network \<Rightarrow> instant list \<Rightarrow> sid \<Rightarrow> eio_server \<Rightarrow> eio_server \<times> loop_state" where
  "ping_loop encode net [] sid srv = (srv, LoopGoes)"
| "ping_loop encode net (now # ticks) sid srv =
     (if emit_waits sid srv then (srv, LoopWaits)
      else
        case ping_tick encode net now sid srv of
          (srv, True) \<Rightarrow> ping_loop encode net ticks sid srv
        | (srv, False) \<Rightarrow> (srv, LoopEnded))"

section \<open>Lemmas on sessions\<close>

context base64
begin

lemma eio_sid_inject: "eio_sid encode m = eio_sid encode n \<longleftrightarrow> m = n"
proof -
  have "as_bytes (dec a) = as_bytes (dec b) \<longleftrightarrow> a = b" for a b
    using as_bytes_inject [of "dec a" "dec b"] by (simp add: ascii_wf_str dec_inject)
  then show ?thesis by (simp add: eio_sid_def encode_inject word_unat_eq_iff)
qed

end

text \<open>
  The ids given out by a server whose counter has not wrapped around, and the invariant of
  a server: the sessions it keeps have such an id; a stored socket carries the id it is
  stored under, is a server's end and does not answer pings.
\<close>

definition issued :: "(bytes \<Rightarrow> ustr) \<Rightarrow> nat \<Rightarrow> sid \<Rightarrow> bool" where
  "issued encode k sid \<longleftrightarrow> (\<exists>n<k. sid = eio_sid encode (word_of_nat n))"

definition server_wf :: "(bytes \<Rightarrow> ustr) \<Rightarrow> nat \<Rightarrow> eio_server \<Rightarrow> bool" where
  "server_wf encode k srv \<longleftrightarrow>
     id_generator srv = word_of_nat k \<and>
     (\<forall>sid s. sockets srv sid = Some s \<longrightarrow>
        issued encode k sid \<and> socket_sid s = sid \<and> server_end s \<and> \<not> should_pong s) \<and>
     (\<forall>sid h. polling_handles srv sid = Some h \<longrightarrow> issued encode k sid)"

lemma issued_mono: "issued encode k sid \<Longrightarrow> k \<le> l \<Longrightarrow> issued encode l sid"
proof -
  assume "issued encode k sid" and "k \<le> l"
  moreover from this obtain n where "n < k" and "sid = eio_sid encode (word_of_nat n)"
    unfolding issued_def by blast
  ultimately have "n < l \<and> sid = eio_sid encode (word_of_nat n)" by simp
  then show ?thesis unfolding issued_def by blast
qed

lemma issued_next [simp]: "issued encode (Suc k) (eio_sid encode (word_of_nat k))"
  by (auto simp: issued_def)

lemma server_wfD:
  assumes "server_wf encode k srv"
  shows "id_generator srv = word_of_nat k"
    and "sockets srv sid = Some s \<Longrightarrow> issued encode k sid \<and> socket_sid s = sid \<and> server_end s \<and> \<not> should_pong s"
    and "polling_handles srv sid = Some h \<Longrightarrow> issued encode k sid"
  using assms by (auto simp: server_wf_def)

lemma wf_generate:
  assumes "server_wf encode k srv"
  shows "fst (sid_generate encode srv) = eio_sid encode (word_of_nat k)"
    and "server_wf encode (Suc k) (snd (sid_generate encode srv))"
  using assms issued_mono [of encode k _ "Suc k"]
  by (auto simp: sid_generate_def Let_def server_wf_def)

lemma lend_events_simps [simp]:
  "socket_sid (lend_events srv s) = socket_sid s" "server_end (lend_events srv s) = server_end s"
  "should_pong (lend_events srv s) = should_pong s" "connected (lend_events srv s) = connected s"
  "wire_out (lend_events srv s) = wire_out s" "transport (lend_events srv s) = transport s"
  "last_pong (lend_events srv s) = last_pong s" "listening (lend_events srv s) = receiver_alive (srv_events srv)"
  "event_tx (lend_events srv s) = Some (srv_events srv)"
  by (simp_all add: lend_events_def socket_sid_def listening_def)

lemma return_events_simps [simp]:
  "sockets (return_events sid s s' srv) = sockets srv" "id_generator (return_events sid s s' srv) = id_generator srv"
  "srv_option (return_events sid s s' srv) = srv_option srv"
  "polling_buffer (return_events sid s s' srv) = polling_buffer srv"
  "(polling_handles (return_events sid s s' srv) k = None) = (polling_handles srv k = None)"
  by (simp_all add: return_events_def split: option.splits)

lemma wf_return:
  assumes "server_wf encode k srv"
  shows "server_wf encode k (return_events sid s s' srv)"
proof -
  have "issued encode k i" if "polling_handles (return_events sid s s' srv) i = Some h" for i h
    using server_wfD(3) [OF assms, of i] that
    by (metis not_None_eq option.distinct(1) return_events_simps(5))
  then show ?thesis using assms by (simp add: server_wf_def)
qed

lemma wf_insert:
  assumes "server_wf encode k srv" and "issued encode k sid" and "socket_sid s = sid"
    and "server_end s" and "\<not> should_pong s"
  shows "server_wf encode k (srv\<lparr>sockets := (sockets srv)(sid \<mapsto> s)\<rparr>)"
  using assms by (auto simp: server_wf_def)

lemma wf_remove:
  assumes "server_wf encode k srv"
  shows "server_wf encode k (srv\<lparr>sockets := (sockets srv)(sid := None)\<rparr>)"
  using assms by (auto simp: server_wf_def)

lemma wf_update:
  assumes "server_wf encode k srv" and "server_socket sid srv = Some s" and "step_frame s s'"
  shows "server_wf encode k ((return_events sid t t' srv)\<lparr>sockets := (sockets srv)(sid \<mapsto> s')\<rparr>)"
proof -
  from assms(2) obtain s0 where "sockets srv sid = Some s0" "s = lend_events srv s0"
    by (auto simp: server_socket_def)
  with server_wfD(2) [OF assms(1)] assms(3)
  have "issued encode k sid" "socket_sid s' = sid" "server_end s'" "\<not> should_pong s'"
    by (auto simp: step_frame_def)
  with wf_insert [OF wf_return [OF assms(1)], where sid = sid and s = s'] show ?thesis by simp
qed

lemma wf_server_emit:
  "server_wf encode k srv \<Longrightarrow> server_wf encode k (fst (server_emit enc net sid p srv))"
  using wf_update emit_step_frame [OF socket_emit_frame]
  by (auto simp: server_emit_def Let_def case_prod_unfold split: option.splits)

lemma wf_close_socket: "server_wf encode k srv \<Longrightarrow> server_wf encode k (close_socket enc net sid srv)"
  by (auto simp: close_socket_def Let_def case_prod_unfold wf_return wf_remove split: option.splits)

lemma wf_drain_polling: "server_wf encode k srv \<Longrightarrow> server_wf encode k (drain_polling enc net sid srv)"
  using wf_update emit_step_frame [OF socket_emit_frame]
  by (auto simp: drain_polling_def Let_def case_prod_unfold split: option.splits)

lemma wf_ping_tick: "server_wf encode k srv \<Longrightarrow> server_wf encode k (fst (ping_tick enc net now sid srv))"
  using wf_server_emit [of encode k srv enc net sid "packet_new Ping []"]
  by (auto simp: ping_tick_def wf_close_socket split: prod.splits sum.splits option.splits)

lemma wf_store_transport:
  assumes "server_wf encode k srv" and "issued encode k sid"
  shows "server_wf encode k (fst (store_transport enc decd net now sid t incoming up srv))"
proof (cases up)
  case True
  have "step_frame s (socket_upgrade decd t incoming s)" for s
    by (simp add: socket_upgrade_def Let_def step_frame_intros)
  with True assms wf_insert [OF assms] server_wfD(2) [OF assms(1), of sid] show ?thesis
    by (auto simp: store_transport_def server_handshake_packet_def server_socket_def step_frame_def split: option.splits)
next
  case False
  have "step_frame s (fst (socket_connect enc n now s))" for n s
    using step_frame_apply [of s enc decd n "OpConnect now"] by simp
  then show ?thesis using False wf_insert [OF wf_return [OF assms(1)] assms(2)] wf_return [OF assms(1)]
    by (auto simp: store_transport_def server_handshake_packet_def Let_def case_prod_unfold step_frame_def
        socket_new_def socket_sid_def split: sum.splits)
qed

lemma close_socket_sockets: "sockets (close_socket encode net sid srv) = (sockets srv)(sid := None)"
  by (auto simp: close_socket_def server_socket_def Let_def case_prod_unfold split: option.splits)

lemma server_emit_sockets:
  "\<exists>f. sockets (fst (server_emit encode net sid p srv)) = (sockets srv)(sid := map_option f (sockets srv sid)) \<and>
     (\<forall>s. last_pong (f s) = last_pong s)"
proof (cases "sockets srv sid")
  case (Some s)
  let ?f = "\<lambda>s. fst (socket_emit encode (server_net net srv sid) p (lend_events srv s))"
  have "sockets (fst (server_emit encode net sid p srv)) = (sockets srv)(sid := map_option ?f (sockets srv sid))"
    using Some by (simp add: server_emit_def server_socket_def Let_def case_prod_unfold)
  moreover have "\<forall>s. last_pong (?f s) = last_pong s" by simp
  ultimately show ?thesis by blast
qed (auto simp: server_emit_def server_socket_def intro!: exI [of _ id])

lemma server_emit_option [simp]:
  "srv_option (fst (server_emit encode net sid p srv)) = srv_option srv"
  "polling_buffer (fst (server_emit encode net sid p srv)) = polling_buffer srv"
  by (simp_all add: server_emit_def Let_def case_prod_unfold split: option.splits)

lemma ping_tick_result:
  "let (srv', go) = ping_tick encode net now sid srv in
     (go \<longleftrightarrow> (\<exists>s. sockets srv sid = Some s \<and>
        is_ok (snd (server_emit encode net sid (packet_new Ping []) srv)) \<and>
        now - last_pong s < ping_deadline (srv_option srv))) \<and>
     (sockets srv' sid \<noteq> None \<longleftrightarrow> go) \<and>
     (\<forall>other. other \<noteq> sid \<longrightarrow> sockets srv' other = sockets srv other)"
proof -
  obtain srv1 r where e: "server_emit encode net sid (packet_new Ping []) srv = (srv1, r)" by fastforce
  obtain f where f: "sockets srv1 = (sockets srv)(sid := map_option f (sockets srv sid))"
    "\<And>s. last_pong (f s) = last_pong s"
    using server_emit_sockets [of encode net sid "packet_new Ping []" srv] e by auto
  have "srv_option srv1 = srv_option srv" using server_emit_option [of encode net sid "packet_new Ping []" srv] e by simp
  with e f show ?thesis
    by (cases "sockets srv sid"; cases r)
      (auto simp: ping_tick_def server_last_pong_def socket_last_pong_def close_socket_sockets)
qed

lemma ping_tick_keeps:
  assumes "ping_tick encode net now sid srv = (srv', True)" and "sockets srv sid = Some s"
  shows "srv_option srv' = srv_option srv \<and> (\<exists>s'. sockets srv' sid = Some s' \<and> last_pong s' = last_pong s)"
proof -
  obtain f where "sockets (fst (server_emit encode net sid (packet_new Ping []) srv)) =
      (sockets srv)(sid := map_option f (sockets srv sid))" "\<And>s. last_pong (f s) = last_pong s"
    using server_emit_sockets by blast
  moreover have "srv' = fst (server_emit encode net sid (packet_new Ping []) srv)"
    using assms(1) by (auto simp: ping_tick_def split: prod.splits sum.splits option.splits if_splits)
  ultimately show ?thesis using assms(2) by simp
qed

text \<open>Room in the queue of a session for a number of messages.\<close>

definition queue_room :: "nat \<Rightarrow> sid \<Rightarrow> eio_server \<Rightarrow> bool" where
  "queue_room n sid srv \<longleftrightarrow>
     (case polling_handles srv sid of None \<Rightarrow> True | Some h \<Rightarrow> length (pending h) + n \<le> unat (polling_buffer srv))"

lemma queue_room_free: "queue_room (Suc n) sid srv \<Longrightarrow> \<not> emit_waits sid srv"
  by (auto simp: queue_room_def emit_waits_def split: option.splits)

lemma emit_queued: "length (queued (drop (length (wire_out s)) (wire_out (fst (socket_emit encode net p s))))) \<le> 1"
proof -
  obtain out r where t: "transport_emit encode net (transport s) (wire_out s) (packet_data encode p) = (out, r)" by fastforce
  from transport_emit_prefix [OF this] have "length (queued (drop (length (wire_out s)) out)) \<le> 1"
    by (auto simp: queued_def split: wire.splits)
  with t show ?thesis by (cases r) (auto simp: socket_emit_def on_error_def queued_def)
qed

lemma server_emit_room:
  assumes "queue_room (Suc n) sid srv"
  shows "queue_room n sid (fst (server_emit encode net sid p srv))"
proof (cases "server_socket sid srv")
  case (Some s)
  show ?thesis
  proof (cases "polling_handles srv sid")
    case None
    with Some show ?thesis by (simp add: server_emit_def queue_room_def Let_def case_prod_unfold return_events_def)
  next
    case handle: (Some h)
    then show ?thesis using Some assms emit_queued [of s encode "server_net net srv sid" p]
      by (simp add: server_emit_def queue_room_def Let_def case_prod_unfold return_events_def)
  qed
qed (use assms in \<open>auto simp: server_emit_def queue_room_def split: option.splits\<close>)

lemma ping_tick_room:
  assumes "ping_tick encode net now sid srv = (srv', True)" and "queue_room (Suc n) sid srv"
  shows "queue_room n sid srv'"
proof -
  have "srv' = fst (server_emit encode net sid (packet_new Ping []) srv)"
    using assms(1) by (auto simp: ping_tick_def split: prod.splits sum.splits option.splits if_splits)
  with server_emit_room [OF assms(2)] show ?thesis by simp
qed

lemma ping_loop_silent:
  assumes "sockets srv sid = Some s" and "t \<in> set ticks" and "ping_deadline (srv_option srv) \<le> t - last_pong s"
    and "queue_room (length ticks) sid srv"
  shows "snd (ping_loop encode net ticks sid srv) = LoopEnded \<and> sockets (fst (ping_loop encode net ticks sid srv)) sid = None \<and>
    (\<forall>other. other \<noteq> sid \<longrightarrow> sockets (fst (ping_loop encode net ticks sid srv)) other = sockets srv other)"
  using assms
proof (induction ticks arbitrary: srv s)
  case (Cons now ticks)
  obtain srv' go where tick: "ping_tick encode net now sid srv = (srv', go)" by fastforce
  note result = ping_tick_result [of encode net now sid srv, unfolded tick Let_def prod.case]
  have free: "\<not> emit_waits sid srv" using queue_room_free Cons.prems(4) by simp
  show ?case
  proof (cases go)
    case True
    with tick have tick': "ping_tick encode net now sid srv = (srv', True)" by simp
    from ping_tick_keeps [OF this Cons.prems(1)] obtain s' where
      s': "srv_option srv' = srv_option srv" "sockets srv' sid = Some s'" "last_pong s' = last_pong s" by blast
    have "t \<noteq> now" using result True Cons.prems(1,3) by auto
    then have "t \<in> set ticks" using Cons.prems(2) by simp
    moreover have "queue_room (length ticks) sid srv'" using ping_tick_room [OF tick'] Cons.prems(4) by simp
    ultimately show ?thesis using Cons.IH [OF s'(2)] Cons.prems(3) s' True tick result free by simp
  next
    case False
    with tick free have "ping_loop encode net (now # ticks) sid srv = (srv', LoopEnded)" by simp
    with result False show ?thesis by simp
  qed
qed simp

lemma ping_loop_waits: "emit_waits sid srv \<Longrightarrow> ticks \<noteq> [] \<Longrightarrow> ping_loop encode net ticks sid srv = (srv, LoopWaits)"
  by (cases ticks) simp_all

section \<open>Properties\<close>

text \<open>
  One turn of the ping loop keeps a session exactly when it exists, the ping could be
  sent and something was heard from the peer within the sum of interval and timeout;
  otherwise the session is removed and the loop ends. Other sessions are not touched.
\<close>

theorem ping_tick_decision:
  "let (srv', go) = ping_tick encode net now sid srv in
     (go \<longleftrightarrow> (\<exists>s. sockets srv sid = Some s \<and>
        is_ok (snd (server_emit encode net sid (packet_new Ping []) srv)) \<and>
        now - last_pong s < ping_deadline (srv_option srv))) \<and>
     (sockets srv' sid \<noteq> None \<longleftrightarrow> go) \<and>
     (\<forall>other. other \<noteq> sid \<longrightarrow> sockets srv' other = sockets srv other)"
  by (rule ping_tick_result)

theorem ping_tick_decision_witness:
  "snd (ping_tick rfc_encode (\<lambda>_ _. Inr 200) 9 [49]
     \<lparr>srv_port = 80, srv_option = server_option_default, id_generator = 0, polling_handles = Map.empty,
      polling_buffer = 1, srv_events = \<lparr>receiver_alive = True, events_sent = []\<rparr>, sockets = Map.empty\<rparr>) = False"
  using ping_tick_decision [of rfc_encode "\<lambda>_ _. Inr 200" 9 "[49]"
      "\<lparr>srv_port = 80, srv_option = server_option_default, id_generator = 0, polling_handles = Map.empty,
      polling_buffer = 1, srv_events = \<lparr>receiver_alive = True, events_sent = []\<rparr>, sockets = Map.empty\<rparr>"]
  by (simp add: case_prod_unfold Let_def)

text \<open>
  C28: A peer that has gone silent is noticed. If the ping loop ticks at its interval from
  some moment on, and nothing was heard from the peer of a session since before that moment,
  then the loop ends and the session is removed after at most as many ticks as the sum of
  timeout and interval holds intervals, and two more, provided that its queue has room for
  the pings of these ticks. Other sessions are not touched.
\<close>

theorem silent_session_closed:
  assumes "sockets srv sid = Some s" and "last_pong s \<le> start" and "ping_interval (srv_option srv) \<noteq> 0"
    and "interval = unat (ping_interval (srv_option srv))"
    and "n = ping_deadline (srv_option srv) div interval + 2" and "queue_room n sid srv"
  shows "let (srv', state) = ping_loop encode net (map (\<lambda>k. start + k * interval) [0..<n]) sid srv in
    state = LoopEnded \<and> sockets srv' sid = None \<and> (\<forall>other. other \<noteq> sid \<longrightarrow> sockets srv' other = sockets srv other)"
proof -
  let ?d = "ping_deadline (srv_option srv)" and ?k = "ping_deadline (srv_option srv) div interval + 1"
  have "0 < interval" using assms(3,4) by (simp add: unat_gt_0)
  then have "?d \<le> ?k * interval" using dividend_less_div_times [of interval ?d] by simp
  then have "?d \<le> start + ?k * interval - last_pong s" using assms(2) by simp
  moreover have "start + ?k * interval \<in> set (map (\<lambda>k. start + k * interval) [0..<n])" using assms(5) by force
  ultimately show ?thesis using ping_loop_silent [OF assms(1)] assms(6) by (simp add: case_prod_unfold Let_def)
qed

theorem silent_session_closed_witness:
  "let srv = (the (builder_build (server_builder_new 80)))\<lparr>sockets := [[49] \<mapsto> example_socket ServerPolling],
       polling_handles := [[49] \<mapsto> \<lparr>posted = [], pending = []\<rparr>]\<rparr>
   in sockets (fst (ping_loop rfc_encode (\<lambda>_ _. Inr 200) (map (\<lambda>k. last_pong (example_socket ServerPolling) + k * 20000) [0..<4])
        [49] srv)) [49] = None"
proof -
  let ?srv = "(the (builder_build (server_builder_new 80)))\<lparr>sockets := [[49] \<mapsto> example_socket ServerPolling],
       polling_handles := [[49] \<mapsto> \<lparr>posted = [], pending = []\<rparr>]\<rparr>"
  have opt: "srv_option ?srv = server_option_default" "polling_buffer ?srv = 100"
    by (simp_all add: builder_build_def server_builder_new_def)
  have "ping_deadline server_option_default = 45000" by (simp add: ping_deadline_def server_option_default_def)
  then have n: "4 = ping_deadline (srv_option ?srv) div 20000 + 2" "20000 = unat (ping_interval (srv_option ?srv))"
    "ping_interval (srv_option ?srv) \<noteq> 0"
    by (simp_all only: opt) (simp_all add: server_option_default_def)
  have "queue_room 4 [49] ?srv" using opt(2) by (simp add: queue_room_def)
  from silent_session_closed [OF _ order_refl n(3,2,1) this, of "example_socket ServerPolling" rfc_encode "\<lambda>_ _. Inr 200"]
  show ?thesis by (simp add: case_prod_unfold Let_def)
qed

end
