(* ===== verification/Engine_Http.thy ===== *)
theory Engine_Http
  imports Engine_Server "HOL-Library.Multiset"
begin

text \<open>
  The HTTP side of the Engine.IO server (\<open>engineio/src/server/http.rs\<close>): classification of
  a request, the polling requests, the websocket handshake and probe, the text of a
  response. The request parser, the URL parser, the header map and the websocket library
  are not part of the repository: their functions are arguments.
\<close>

section \<open>Requests\<close>

datatype request_type =
    WsUpgrade "sid option"
  | PollingOpen
  | PollingGet sid
  | PollingPost sid bytes

record http_request =
  req_method :: "ustr option"
  req_path :: "ustr option"
  req_headers :: "(ustr \<times> bytes) list"

text \<open>The loop over the query: the outer option is the early return.\<close>

fun query_loop :: "(ustr \<times> ustr) list \<Rightarrow> sid option \<Rightarrow> ustr option \<Rightarrow> (sid option \<times> ustr option) option" where
  "query_loop [] sid query_transport = Some (sid, query_transport)"
| "query_loop ((k, v) # pairs) sid query_transport =
     (if to_uppercase k = str ''EIO'' \<and> v \<noteq> str ''4'' then None
      else
        let sid = (if to_lowercase k = str ''sid'' then Some v else sid);
            query_transport =
              (if to_lowercase k = str ''transport'' \<and> to_lowercase v = str ''websocket''
               then Some (str ''websocket'') else query_transport);
            query_transport =
              (if to_lowercase k = str ''transport'' \<and> to_lowercase v = str ''polling''
               then Some (str ''polling'') else query_transport)
        in query_loop pairs sid query_transport)"

text \<open>The loop over the headers: it returns a result or goes on with the content length.\<close>

datatype header_outcome = Return "request_type option" | ContentLength usize

fun header_loop ::
  "(ustr \<times> bytes) list \<Rightarrow> ustr \<Rightarrow> ustr \<Rightarrow> sid option \<Rightarrow> usize \<Rightarrow> header_outcome" where
  "header_loop [] verb query_transport sid content_length = ContentLength content_length"
| "header_loop ((name, v) # headers) verb query_transport sid content_length =
     (if to_lowercase name = str ''upgrade'' \<and> to_uppercase verb = str ''GET'' \<and> query_transport = str ''websocket''
      then Return (Some (WsUpgrade sid))
      else if to_lowercase name = str ''content-length'' then
        (case from_utf8 v of
           None \<Rightarrow> Return None
         | Some len_str \<Rightarrow>
             (case parse_usize len_str of
                None \<Rightarrow> Return None
              | Some n \<Rightarrow> header_loop headers verb query_transport sid n))
      else header_loop headers verb query_transport sid content_length)"

text \<open>
  The body of a post: \<open>idx + content_length\<close> wraps around, and a slice whose end is before
  its start panics. The outer option is the panic.
\<close>

definition post_body :: "bytes \<Rightarrow> usize \<Rightarrow> usize \<Rightarrow> bool \<Rightarrow> bytes option option" where
  "post_body buf idx content_length is_peek =
     (let end_index = idx + content_length in
      if is_peek then Some (Some [])
      else if unat end_index \<le> length buf then
        if unat end_index < unat idx then None
        else Some (Some (bytes_slice buf (unat idx) (unat end_index)))
      else Some None)"

definition classify :: "sid option \<Rightarrow> request_type" where
  "classify sid = (case sid of Some sid \<Rightarrow> PollingGet sid | None \<Rightarrow> PollingOpen)"

definition parse_request_type ::
  "(bytes \<Rightarrow> (http_request \<times> usize) option) \<Rightarrow> (ustr \<Rightarrow> (ustr \<times> ustr) list option) \<Rightarrow>
     bytes \<Rightarrow> ustr \<Rightarrow> bool \<Rightarrow> request_type option option" where
  "parse_request_type parse query_pairs buf addr is_peek =
     (case parse buf of
        None \<Rightarrow> Some None
      | Some (req, idx) \<Rightarrow>
          (case req_method req of
             None \<Rightarrow> Some None
           | Some verb \<Rightarrow>
               if to_uppercase verb \<noteq> str ''GET'' \<and> to_uppercase verb \<noteq> str ''POST'' then Some None
               else
                 (case req_path req of
                    None \<Rightarrow> Some None
                  | Some path \<Rightarrow>
                      (case query_pairs (str ''http://'' @ addr @ path) of
                         None \<Rightarrow> Some None
                       | Some pairs \<Rightarrow>
                           (case query_loop pairs None None of
                              None \<Rightarrow> Some None
                            | Some (sid, None) \<Rightarrow> Some None
                            | Some (sid, Some query_transport) \<Rightarrow>
                                (case header_loop (req_headers req) verb query_transport sid 0 of
                                   Return r \<Rightarrow> Some r
                                 | ContentLength content_length \<Rightarrow>
                                     if to_uppercase verb = str ''POST'' then
                                       (case post_body buf idx content_length is_peek of
                                          None \<Rightarrow> None
                                        | Some None \<Rightarrow> Some None
                                        | Some (Some body) \<Rightarrow>
                                            (case sid of
                                               Some s \<Rightarrow> Some (Some (PollingPost s body))
                                             | None \<Rightarrow> Some (Some (classify sid))))
                                     else Some (Some (classify sid))))))))"

text \<open>
  Peeking and reading a request: at most \<open>max_payload\<close> bytes of what has arrived.
\<close>

definition peek_request_type where
  "peek_request_type parse query_pairs arrived addr limit =
     parse_request_type parse query_pairs (take (unat (limit :: usize)) arrived) addr True"

definition read_request_type where
  "read_request_type parse query_pairs arrived addr limit =
     parse_request_type parse query_pairs (take (unat (limit :: usize)) arrived) addr False"

section \<open>Responses\<close>

definition CRLF :: ustr where
  "CRLF = [13, 10]"

definition header_line :: "ustr \<times> ustr \<Rightarrow> ustr" where
  "header_line h = fst h @ str '': '' @ snd h @ CRLF"

text \<open>
  The argument \<open>status_str\<close> prints a status, \<open>header_map\<close> is the order in which the header
  map yields the headers put into it.
\<close>

definition http_response ::
  "(u16 \<Rightarrow> ustr) \<Rightarrow> ((ustr \<times> ustr) list \<Rightarrow> (ustr \<times> ustr) list) \<Rightarrow> u16 \<Rightarrow> ustr option \<Rightarrow> ustr" where
  "http_response status_str header_map status body =
     (let body_len = (case body of None \<Rightarrow> 0 | Some b \<Rightarrow> length (as_bytes b));
          headers = header_map
            [(str ''Content-Type'', str ''text/plain; charset=UTF-8''),
             (str ''Connection'', str ''Close''),
             (str ''Content-Length'', dec body_len)];
          response_str = str ''HTTP/1.1 '' @ status_str status @ CRLF;
          response_str = response_str @ concat (map header_line headers)
      in (case body of
            Some body \<Rightarrow> response_str @ CRLF @ body
          | None \<Rightarrow> response_str))"

section \<open>Polling\<close>

definition handshake_json :: "handshake_packet \<Rightarrow> json" where
  "handshake_json hs = JObject
     [(str ''sid'', JString (hs_sid hs)),
      (str ''upgrades'', JArray (map JString (hs_upgrades hs))),
      (str ''pingInterval'', JNumber (PosInt (hs_ping_interval hs))),
      (str ''pingTimeout'', JNumber (PosInt (hs_ping_timeout hs))),
      (str ''maxPayload'', JNumber (PosInt (hs_max_payload hs)))]"

definition handshake_body :: "(bytes \<Rightarrow> ustr) \<Rightarrow> (json \<Rightarrow> ustr) \<Rightarrow> sid \<Rightarrow> eio_server \<Rightarrow> ustr" where
  "handshake_body encode to_string sid srv =
     (let (packet, _) = server_handshake_packet encode [str ''websocket''] (Some sid) srv in
      dec (unat (packet_type_discriminant Open)) @ to_string (handshake_json packet))"

text \<open>A new pair of queues for a session; capacity zero panics.\<close>

definition polling_transport :: "sid \<Rightarrow> eio_server \<Rightarrow> eio_server option" where
  "polling_transport sid srv =
     (if polling_buffer srv = 0 then None
      else Some (srv\<lparr>polling_handles := (polling_handles srv)(sid \<mapsto> \<lparr>posted = [], pending = []\<rparr>)\<rparr>))"

text \<open>
  A response takes everything pending. With nothing pending the request waits for the sending
  end, which is the socket of the session: this is the result \<open>None\<close>. Once the socket is no
  longer stored there is nothing to wait for, and the answer has no body. (A task that still
  holds a clone of the socket would keep the request waiting.)
\<close>

definition polling_get :: "(bytes \<Rightarrow> ustr) \<Rightarrow> sid \<Rightarrow> eio_server \<Rightarrow> (eio_server \<times> ustr option) option" where
  "polling_get encode sid srv =
     (case server_polling_handle sid srv of
        None \<Rightarrow> Some (srv, None)
      | Some h \<Rightarrow>
          if pending h = [] \<and> sockets srv sid \<noteq> None then None
          else Some (srv\<lparr>polling_handles := (polling_handles srv)(sid \<mapsto> h\<lparr>pending := []\<rparr>)\<rparr>,
                     build_polling_payload encode (pending h)))"

text \<open>
  The sending end of a handle fails only when the socket's receiver is gone, which happens
  when the socket has been upgraded or dropped; then the data is lost as well.
\<close>

definition polling_post :: "sid \<Rightarrow> bytes \<Rightarrow> eio_server \<Rightarrow> eio_server" where
  "polling_post sid d srv =
     (case polling_handles srv sid of
        None \<Rightarrow> srv
      | Some h \<Rightarrow> srv\<lparr>polling_handles := (polling_handles srv)(sid \<mapsto> h\<lparr>posted := posted h @ [d]\<rparr>)\<rparr>)"

datatype http_result = HttpPanic | HttpWaiting | HttpResponse u16 "ustr option"

definition polling_handle_request ::
  "(bytes \<Rightarrow> ustr) \<Rightarrow> (bytes \<Rightarrow> bytes option) \<Rightarrow> (json \<Rightarrow> ustr) \<Rightarrow> network \<Rightarrow> instant \<Rightarrow>
     request_type option option \<Rightarrow> eio_server \<Rightarrow> eio_server \<times> http_result" where
  "polling_handle_request encode decode to_string net now req srv =
     (case req of
        None \<Rightarrow> (srv, HttpPanic)
      | Some (Some PollingOpen) \<Rightarrow>
          (let (sid, srv) = sid_generate encode srv in
           case polling_transport sid srv of
             None \<Rightarrow> (srv, HttpPanic)
           | Some srv \<Rightarrow>
               (case store_transport encode decode net now sid ServerPolling [] False srv of
                  (srv, Inr _) \<Rightarrow> (srv, HttpResponse 200 (Some (handshake_body encode to_string sid srv)))
                | (srv, Inl _) \<Rightarrow> (srv, HttpResponse 500 None)))
      | Some (Some (PollingPost sid d)) \<Rightarrow> (polling_post sid d srv, HttpResponse 200 (Some (str ''ok'')))
      | Some (Some (PollingGet sid)) \<Rightarrow>
          (case polling_get encode sid srv of
             None \<Rightarrow> (srv, HttpWaiting)
           | Some (srv, d) \<Rightarrow> (srv, HttpResponse 200 d))
      | Some _ \<Rightarrow> (srv, HttpResponse 400 None))"

section \<open>Websockets\<close>

definition close_polling :: "sid \<Rightarrow> eio_server \<Rightarrow> eio_server" where
  "close_polling sid srv = srv\<lparr>polling_handles := (polling_handles srv)(sid := None)\<rparr>"

definition ws_handshake ::
  "(bytes \<Rightarrow> ustr) \<Rightarrow> (json \<Rightarrow> ustr) \<Rightarrow> network \<Rightarrow> wire list \<Rightarrow> eio_server \<Rightarrow> eio_server \<times> wire list \<times> (eio_error + sid)" where
  "ws_handshake encode to_string net out srv =
     (let (sid, srv) = sid_generate encode srv;
          (packet, srv) = server_handshake_packet encode [] (Some sid) srv;
          d = as_bytes (to_string (handshake_json packet))
      in (case websocket_send_packet encode net out (packet_new Open d) of
            (out, Inl e) \<Rightarrow> (srv, out, Inl e)
          | (out, Inr _) \<Rightarrow> (srv, out, Inr sid)))"

text \<open>
  The probe of an upgrade: each message is read whatever it is. Without the probe ping no
  pong is sent, but the upgrade packet alone decides.
\<close>

definition handle_probe ::
  "(bytes \<Rightarrow> ustr) \<Rightarrow> network \<Rightarrow> network \<Rightarrow> sid \<Rightarrow> (unit + ws_message) option \<Rightarrow> (unit + ws_message) option \<Rightarrow>
     wire list \<Rightarrow> eio_server \<Rightarrow> eio_server \<times> wire list \<times> (eio_error + sid)" where
  "handle_probe encode net ws_net sid first_msg second_msg out srv =
     (case (if first_msg = Some (Inr (WsText (str ''2probe'')))
            then websocket_send_packet encode ws_net out (packet_new Pong probe)
            else (out, Inr ())) of
        (out, Inl e) \<Rightarrow> (srv, out, Inl e)
      | (out, Inr _) \<Rightarrow>
          let srv = drain_polling encode net sid srv in
          if second_msg = Some (Inr (WsText (str ''5''))) then (close_polling sid srv, out, Inr sid)
          else (srv, out, Inl (InvalidHandShake (str ''upgrade missing packet''))))"

definition websocket_handle ::
  "(bytes \<Rightarrow> ustr) \<Rightarrow> (bytes \<Rightarrow> bytes option) \<Rightarrow> (json \<Rightarrow> ustr) \<Rightarrow> network \<Rightarrow> network \<Rightarrow> instant \<Rightarrow> bool \<Rightarrow> sid option \<Rightarrow>
     (unit + ws_message) option \<Rightarrow> (unit + ws_message) option \<Rightarrow> (eio_error + bytes) list \<Rightarrow>
     eio_server \<Rightarrow> eio_server \<times> wire list \<times> (eio_error + unit)" where
  "websocket_handle encode decode to_string net ws_net now accepted sid first_msg second_msg incoming srv =
     (if \<not> accepted then (srv, [], Inl WsError)
      else
        case (case sid of
                None \<Rightarrow> ws_handshake encode to_string ws_net [] srv
              | Some sid \<Rightarrow> handle_probe encode net ws_net sid first_msg second_msg [] srv) of
          (srv, out, Inl e) \<Rightarrow> (srv, out, Inl e)
        | (srv, out, Inr sid') \<Rightarrow>
            (case store_transport encode decode net now sid' Websocket incoming (sid \<noteq> None) srv of
               (srv, Inl e) \<Rightarrow> (srv, out, Inl e)
             | (srv, Inr _) \<Rightarrow> (srv, out, Inr ())))"

text \<open>
  A connection: the peeked request decides between a websocket and polling, which reads
  the request again.
\<close>

definition handle_http where
  "handle_http encode decode to_string parse query_pairs net ws_net now addr arrived accepted first_msg second_msg incoming srv =
     (case peek_request_type parse query_pairs arrived addr max_payload of
        Some (Some (WsUpgrade sid)) \<Rightarrow>
          (let (srv, out, r) = websocket_handle encode decode to_string net ws_net now accepted sid first_msg second_msg incoming srv
           in (srv, Inl (out, r)))
      | _ \<Rightarrow>
          (let (srv, r) = polling_handle_request encode decode to_string net now
             (read_request_type parse query_pairs arrived addr max_payload) srv
           in (srv, Inr r)))"

text \<open>
  The loop that accepts connections: each is handled by a task of its own, here one after the
  other in the order of acceptance. A failure to accept ends the loop, and a port that cannot
  be bound panics. The bytes are what is written to the connections that get a response.
\<close>

record connection =
  conn_at :: instant
  conn_addr :: ustr
  conn_arrived :: bytes
  conn_accepted :: bool
  conn_first :: "(unit + ws_message) option"
  conn_second :: "(unit + ws_message) option"
  conn_incoming :: "(eio_error + bytes) list"

definition write_stream ::
  "(u16 \<Rightarrow> ustr) \<Rightarrow> ((ustr \<times> ustr) list \<Rightarrow> (ustr \<times> ustr) list) \<Rightarrow> u16 \<Rightarrow> ustr option \<Rightarrow> bytes" where
  "write_stream status_str header_map status body = as_bytes (http_response status_str header_map status body)"

record http_env =
  he_encode :: "bytes \<Rightarrow> ustr"
  he_decode :: "bytes \<Rightarrow> bytes option"
  he_to_string :: "json \<Rightarrow> ustr"
  he_parse :: "bytes \<Rightarrow> (http_request \<times> usize) option"
  he_query_pairs :: "ustr \<Rightarrow> (ustr \<times> ustr) list option"
  he_status_str :: "u16 \<Rightarrow> ustr"
  he_header_map :: "(ustr \<times> ustr) list \<Rightarrow> (ustr \<times> ustr) list"
  he_net :: network
  he_ws_net :: network

definition serve_connection :: "http_env \<Rightarrow> connection \<Rightarrow> eio_server \<Rightarrow> eio_server \<times> bytes list" where
  "serve_connection he c srv =
     (case handle_http (he_encode he) (he_decode he) (he_to_string he) (he_parse he) (he_query_pairs he) (he_net he) (he_ws_net he)
        (conn_at c) (conn_addr c) (conn_arrived c) (conn_accepted c) (conn_first c) (conn_second c) (conn_incoming c) srv of
        (srv, Inr (HttpResponse status body)) \<Rightarrow> (srv, [write_stream (he_status_str he) (he_header_map he) status body])
      | (srv, _) \<Rightarrow> (srv, []))"

fun accept_loop :: "http_env \<Rightarrow> connection option list \<Rightarrow> eio_server \<Rightarrow> eio_server \<times> bytes list" where
  "accept_loop he [] srv = (srv, [])"
| "accept_loop he (None # accepts) srv = (srv, [])"
| "accept_loop he (Some c # accepts) srv =
     (let (srv, out) = serve_connection he c srv; (srv, outs) = accept_loop he accepts srv in (srv, out @ outs))"

definition serve :: "http_env \<Rightarrow> bool \<Rightarrow> connection option list \<Rightarrow> eio_server \<Rightarrow> (eio_server \<times> bytes list) option" where
  "serve he bound accepts srv = (if bound then Some (accept_loop he accepts srv) else None)"

section \<open>Runs of a server\<close>

text \<open>
  What may happen to a server, in any order: requests of either kind, whatever they hold,
  calls of the layer above, turns of ping loops, polls of sockets.
\<close>

datatype server_op =
    SrvRequest instant "request_type option option"
  | SrvWebsocket instant bool "sid option" "(unit + ws_message) option" "(unit + ws_message) option" "(eio_error + bytes) list"
  | SrvEmit sid eio_packet
  | SrvClose sid
  | SrvTick instant sid
  | SrvPoll instant sid

definition server_poll :: "(bytes \<Rightarrow> ustr) \<Rightarrow> network \<Rightarrow> instant \<Rightarrow> sid \<Rightarrow> eio_server \<Rightarrow> eio_server" where
  "server_poll encode net now sid srv =
     (case server_socket sid srv of
        None \<Rightarrow> srv
      | Some s \<Rightarrow>
          let (s', _) = socket_poll_next encode (server_net net srv sid) now s in
          (return_events sid s s' srv)\<lparr>sockets := (sockets srv)(sid \<mapsto> s')\<rparr>)"

fun server_apply ::
  "(bytes \<Rightarrow> ustr) \<Rightarrow> (bytes \<Rightarrow> bytes option) \<Rightarrow> (json \<Rightarrow> ustr) \<Rightarrow> network \<Rightarrow> network \<Rightarrow> server_op \<Rightarrow> eio_server \<Rightarrow> eio_server" where
  "server_apply encode decode to_string net ws_net (SrvRequest now req) srv =
     fst (polling_handle_request encode decode to_string net now req srv)"
| "server_apply encode decode to_string net ws_net (SrvWebsocket now acc sid m1 m2 incoming) srv =
     fst (websocket_handle encode decode to_string net ws_net now acc sid m1 m2 incoming srv)"
| "server_apply encode decode to_string net ws_net (SrvEmit sid p) srv = fst (server_emit encode net sid p srv)"
| "server_apply encode decode to_string net ws_net (SrvClose sid) srv = close_socket encode net sid srv"
| "server_apply encode decode to_string net ws_net (SrvTick now sid) srv = fst (ping_tick encode net now sid srv)"
| "server_apply encode decode to_string net ws_net (SrvPoll now sid) srv = server_poll encode net now sid srv"

section \<open>Lemmas on the invariant\<close>

lemma wf_handles:
  assumes "server_wf encode k srv" and "issued encode k sid"
  shows "server_wf encode k (srv\<lparr>polling_handles := (polling_handles srv)(sid := h)\<rparr>)"
  using assms by (auto simp: server_wf_def)

lemma wf_handles_drop:
  "server_wf encode k srv \<Longrightarrow> server_wf encode k (srv\<lparr>polling_handles := (polling_handles srv)(sid := None)\<rparr>)"
  by (auto simp: server_wf_def)

lemma wf_polling_post: "server_wf encode k srv \<Longrightarrow> server_wf encode k (polling_post sid d srv)"
  using wf_handles server_wfD(3) by (fastforce simp: polling_post_def split: option.splits)

lemma wf_polling_get:
  "server_wf encode k srv \<Longrightarrow> polling_get encode sid srv = Some (srv', body) \<Longrightarrow> server_wf encode k srv'"
  using wf_handles server_wfD(3)
  by (fastforce simp: polling_get_def server_polling_handle_def split: option.splits if_splits)

lemma wf_server_poll: "server_wf encode k srv \<Longrightarrow> server_wf encode k (server_poll enc net now sid srv)"
proof -
  have "step_frame s (fst (socket_poll_next enc n now s))" for s n
    using step_frame_apply [of s enc decd n "OpPoll now"] by simp
  then show "server_wf encode k srv \<Longrightarrow> ?thesis"
    using wf_update by (auto simp: server_poll_def Let_def case_prod_unfold split: option.splits)
qed

lemma server_wf_grow: "server_wf encode k srv \<Longrightarrow> \<exists>l. k \<le> l \<and> l \<le> Suc k \<and> server_wf encode l srv"
  using le_Suc_eq by blast

lemma wf_polling_open:
  assumes "server_wf encode k srv"
  shows "server_wf encode (Suc k) (fst (polling_handle_request encode decode to_string net now (Some (Some PollingOpen)) srv))"
proof -
  obtain sid srv1 where g: "sid_generate encode srv = (sid, srv1)" by fastforce
  with wf_generate [OF assms] have w: "server_wf encode (Suc k) srv1" and i: "issued encode (Suc k) sid" by simp_all
  show ?thesis
    using w g wf_store_transport [OF wf_handles [OF w i] i]
    by (auto simp: polling_handle_request_def polling_transport_def Let_def split: prod.splits sum.splits) (metis fst_conv)+
qed

lemma wf_request:
  assumes "server_wf encode k srv"
  shows "\<exists>l. k \<le> l \<and> l \<le> Suc k \<and>
    server_wf encode l (fst (polling_handle_request encode decode to_string net now req srv))"
proof (cases "req = Some (Some PollingOpen)")
  case True
  with wf_polling_open [OF assms] show ?thesis by (metis le_SucI order_refl)
next
  case False
  then have "server_wf encode k (fst (polling_handle_request encode decode to_string net now req srv))"
    using assms wf_polling_get [OF assms]
    by (auto simp: polling_handle_request_def wf_polling_post split: option.splits request_type.splits)
  then show ?thesis by (rule server_wf_grow)
qed

lemma wf_handle_probe:
  assumes "server_wf encode k srv"
  shows "server_wf encode k (fst (handle_probe enc net ws_net sid m1 m2 out srv))"
  using assms wf_handles_drop [OF wf_drain_polling [OF assms]] wf_drain_polling [OF assms]
  by (auto simp: handle_probe_def close_polling_def Let_def split: prod.splits sum.splits)

lemma wf_ws_handshake:
  assumes "server_wf encode k srv"
  shows "server_wf encode (Suc k) (fst (ws_handshake encode to_string net out srv))"
    and "snd (snd (ws_handshake encode to_string net out srv)) = Inr sid \<Longrightarrow> issued encode (Suc k) sid"
  using wf_generate [OF assms]
  by (auto simp: ws_handshake_def server_handshake_packet_def Let_def split: prod.splits sum.splits)

lemma store_upgrade_missing:
  "sockets srv sid = None \<Longrightarrow> store_transport encode decode net now sid t incoming True srv = (srv, Inr False)"
  by (simp add: store_transport_def server_handshake_packet_def server_socket_def)

lemma wf_store_upgrade:
  assumes "server_wf encode k srv"
  shows "server_wf encode k (fst (store_transport enc decd net now sid t incoming True srv))"
  using assms wf_store_transport [OF assms] server_wfD(2) [OF assms, of sid]
  by (cases "sockets srv sid") (auto simp: store_upgrade_missing)

lemma wf_websocket:
  assumes "server_wf encode k srv"
  shows "\<exists>l. k \<le> l \<and> l \<le> Suc k \<and>
    server_wf encode l (fst (websocket_handle encode decode to_string net ws_net now acc sid m1 m2 incoming srv))"
proof (cases "acc \<and> sid = None")
  case True
  obtain srv1 out r where h: "ws_handshake encode to_string ws_net [] srv = (srv1, out, r)" by (metis prod_cases3)
  then have w: "server_wf encode (Suc k) srv1" and i: "\<And>i. r = Inr i \<Longrightarrow> issued encode (Suc k) i"
    using wf_ws_handshake [OF assms, of to_string ws_net "[]"] by auto
  have "server_wf encode (Suc k) (fst (websocket_handle encode decode to_string net ws_net now acc sid m1 m2 incoming srv))"
  proof (cases r)
    case (Inr i)
    with True h w wf_store_transport [OF w i [OF Inr], of encode decode net now Websocket incoming False] show ?thesis
      by (auto simp: websocket_handle_def split: prod.splits sum.splits)
  qed (use True h w in \<open>simp add: websocket_handle_def\<close>)
  then show ?thesis by (metis le_SucI order_refl)
next
  case False
  have "server_wf encode k (fst (websocket_handle encode decode to_string net ws_net now acc sid m1 m2 incoming srv))"
  proof (cases sid)
    case (Some i)
    obtain srv1 out r where h: "handle_probe encode net ws_net i m1 m2 [] srv = (srv1, out, r)" by (metis prod_cases3)
    then have w: "server_wf encode k srv1" using wf_handle_probe [OF assms] by (metis fst_conv)
    have "server_wf encode k (fst (store_transport encode decode net now j Websocket incoming True srv1))" for j
      by (rule wf_store_upgrade [OF w])
    with Some h w assms show ?thesis
      by (auto simp: websocket_handle_def split: prod.splits sum.splits) (metis fst_conv)+
  qed (use False assms in \<open>simp add: websocket_handle_def\<close>)
  then show ?thesis by (rule server_wf_grow)
qed

lemma wf_apply:
  assumes "server_wf encode k srv"
  shows "\<exists>l. k \<le> l \<and> l \<le> Suc k \<and> server_wf encode l (server_apply encode decode to_string net ws_net op srv)"
  using assms by (cases op)
    (auto intro: wf_request wf_websocket server_wf_grow wf_server_emit wf_close_socket wf_ping_tick wf_server_poll)

interpretation server_runs:
  graded_invariant "server_apply encode decode to_string net ws_net" "server_wf encode" "2 ^ 64"
  for encode decode to_string net ws_net
  by unfold_locales (use wf_apply in blast)

lemma wf_initial: "builder_build b = Some srv \<Longrightarrow> server_wf encode 0 srv"
  by (auto simp: builder_build_def server_wf_def split: if_splits)

text \<open>A connection that is served is a request or a websocket.\<close>

lemma serve_connection_apply:
  "\<exists>op. fst (serve_connection he c srv) =
     server_apply (he_encode he) (he_decode he) (he_to_string he) (he_net he) (he_ws_net he) op srv"
proof -
  let ?peek = "peek_request_type (he_parse he) (he_query_pairs he) (conn_arrived c) (conn_addr c) max_payload"
  let ?read = "read_request_type (he_parse he) (he_query_pairs he) (conn_arrived c) (conn_addr c) max_payload"
  show ?thesis
  proof (cases "\<exists>sid. ?peek = Some (Some (WsUpgrade sid))")
    case True
    then obtain sid where "?peek = Some (Some (WsUpgrade sid))" ..
    then show ?thesis
      by (intro exI [of _ "SrvWebsocket (conn_at c) (conn_accepted c) sid (conn_first c) (conn_second c) (conn_incoming c)"])
        (simp add: serve_connection_def handle_http_def split: prod.splits)
  next
    case False
    then show ?thesis
      by (intro exI [of _ "SrvRequest (conn_at c) ?read"])
        (auto simp: serve_connection_def handle_http_def split: prod.splits option.splits request_type.splits http_result.splits)
  qed
qed

lemma accept_loop_run:
  "\<exists>ops. length ops \<le> length accepts \<and> fst (accept_loop he accepts srv) =
     fold (server_apply (he_encode he) (he_decode he) (he_to_string he) (he_net he) (he_ws_net he)) ops srv"
proof (induction accepts arbitrary: srv)
  case (Cons a accepts)
  show ?case
  proof (cases a)
    case (Some c)
    obtain srv1 out where c: "serve_connection he c srv = (srv1, out)" by fastforce
    with serve_connection_apply [of he c srv] obtain op where
      "srv1 = server_apply (he_encode he) (he_decode he) (he_to_string he) (he_net he) (he_ws_net he) op srv" by auto
    with Cons [of srv1] c Some obtain ops where "length (op # ops) \<le> length (a # accepts)"
      "fst (accept_loop he (a # accepts) srv) =
        fold (server_apply (he_encode he) (he_decode he) (he_to_string he) (he_net he) (he_ws_net he)) (op # ops) srv"
      by (auto simp: case_prod_unfold Let_def)
    then show ?thesis by blast
  qed (auto intro: exI [of _ "[]"])
qed simp

section \<open>Lemmas on polling sessions\<close>

text \<open>An open polling session with given messages pending.\<close>

definition polling_session :: "sid \<Rightarrow> bytes list \<Rightarrow> eio_server \<Rightarrow> bool" where
  "polling_session sid bs srv \<longleftrightarrow>
     (\<exists>s. sockets srv sid = Some s \<and> connected s \<and> transport s = ServerPolling) \<and>
     (\<exists>h. polling_handles srv sid = Some h \<and> pending h = bs)"

lemma polling_session_emit:
  assumes "polling_session sid bs srv" and "text_packet p"
  shows "polling_session sid (bs @ [bytes_from_packet encode p]) (fst (server_emit encode net sid p srv))"
proof -
  from assms(1) obtain s h where s: "sockets srv sid = Some s" "connected s" "transport s = ServerPolling"
    and h: "polling_handles srv sid = Some h" "pending h = bs"
    by (auto simp: polling_session_def)
  let ?s = "lend_events srv s" and ?w = "Queue (bytes_from_packet encode p)"
  have "transport_wire encode ServerPolling (packet_data encode p) = Inr ?w"
    using transport_wire_text [OF assms(2), of encode ServerPolling] packet_text_bytes [OF assms(2)] by simp
  moreover have "server_net net srv sid out ?w = Inr 200" for out using h(1) by (simp add: server_net_def)
  ultimately have "socket_emit encode (server_net net srv sid) p ?s = (?s\<lparr>wire_out := wire_out ?s @ [?w]\<rparr>, Inr ())"
    using s by (simp add: socket_emit_def transport_emit_wire transport_outcome_def)
  then show ?thesis using s h
    by (simp add: server_emit_def server_socket_def polling_session_def return_events_def queued_def)
qed

lemma polling_session_emits:
  "polling_session sid bs srv \<Longrightarrow> list_all text_packet ps \<Longrightarrow>
   polling_session sid (bs @ map (bytes_from_packet encode) ps) (fold (\<lambda>p srv. fst (server_emit encode net sid p srv)) ps srv)"
proof (induction ps arbitrary: bs srv)
  case (Cons p ps)
  then show ?case using Cons.IH [OF polling_session_emit [OF Cons.prems(1)], of p] by simp
qed simp

text \<open>A session just opened by a polling request.\<close>

lemma polling_open_session:
  assumes "polling_buffer srv \<noteq> 0" and "receiver_alive (srv_events srv)"
  shows "polling_session (fst (sid_generate encode srv)) []
    (fst (polling_handle_request encode decode to_string net now (Some (Some PollingOpen)) srv))"
  using assms
  by (simp add: polling_handle_request_def polling_transport_def sid_generate_def store_transport_def
      server_handshake_packet_def socket_connect_def socket_new_def send_event_def polling_session_def
      return_events_def queued_def Let_def)

section \<open>Lemmas on requests\<close>

lemma unat_usize_less: "unat (n :: usize) < 2 ^ 64"
  using unsigned_less [of n, where 'a = nat] by simp

lemma unat_plus_wrap:
  fixes a b :: usize
  shows "unat (a + b) = (if unat a + unat b < 2 ^ 64 then unat a + unat b else unat a + unat b - 2 ^ 64)"
proof -
  have "unat a < 2 ^ 64" "unat b < 2 ^ 64" by (rule unat_usize_less)+
  moreover have "unat (a + b) = (unat a + unat b) mod 2 ^ 64" by (simp add: unat_word_ariths)
  ultimately show ?thesis by (simp add: mod_if)
qed

lemma post_body_eq:
  assumes "unat idx \<le> length buf" and "length buf < 2 ^ 64"
  shows "post_body buf idx n False =
    (if unat idx + unat n \<le> length buf then Some (Some (take (unat n) (drop (unat idx) buf)))
     else if unat idx + unat n < 2 ^ 64 then Some None else None)"
proof -
  have "unat idx < 2 ^ 64" "unat n < 2 ^ 64" by (rule unat_usize_less)+
  then have "unat (idx + n) \<le> length buf \<and> unat (idx + n) < unat idx" if "2 ^ 64 \<le> unat idx + unat n"
    using that assms unfolding unat_plus_wrap by auto
  then show ?thesis using assms
    by (auto simp: post_body_def Let_def unat_plus_wrap bytes_slice_def split: if_splits)
qed

text \<open>The request type of a post, whatever its body.\<close>

lemma parse_post:
  assumes "parse buf = Some (req, idx)" and "req_method req = Some verb" and "to_uppercase verb = str ''POST''"
    and "req_path req = Some path"
    and "query_pairs (str ''http://'' @ addr @ path) = Some pairs"
    and "query_loop pairs None None = Some (Some sid, Some t)"
    and "header_loop (req_headers req) verb t (Some sid) 0 = ContentLength n"
  shows "parse_request_type parse query_pairs buf addr peek =
    (case post_body buf idx n peek of None \<Rightarrow> None | Some None \<Rightarrow> Some None
     | Some (Some body) \<Rightarrow> Some (Some (PollingPost sid body)))"
  unfolding parse_request_type_def
  by (simp only: assms option.case prod.case header_outcome.case simp_thms if_True if_False)

text \<open>A small request for evaluation: one header block of five bytes, a declared length.\<close>

definition example_request :: "ustr \<Rightarrow> http_request" where
  "example_request len = \<lparr>req_method = Some (str ''post''), req_path = Some (str ''/''),
     req_headers = [(str ''Content-Length'', as_bytes len)]\<rparr>"

definition example_pairs :: "(ustr \<times> ustr) list" where
  "example_pairs = [(str ''EIO'', str ''4''), (str ''transport'', str ''polling''), (str ''sid'', str ''MA'')]"

lemma example_request_facts:
  "req_method (example_request l) = Some (str ''post'')" "to_uppercase (str ''post'') = str ''POST''"
  "req_path (example_request l) = Some (str ''/'')"
  "query_loop example_pairs None None = Some (Some (str ''MA''), Some (str ''polling''))"
  by (simp_all add: example_request_def example_pairs_def upper_char_def lower_char_def Let_def)

lemma example_request_length:
  "header_loop (req_headers (example_request (dec (unat n)))) (str ''post'') (str ''polling'') (Some (str ''MA'')) 0 = ContentLength n"
  by (simp add: example_request_def lower_char_def upper_char_def ascii_wf_str parse_usize_dec)

text \<open>The answer to a polling request: everything pending, as one body.\<close>

lemma polling_session_answer:
  assumes "polling_session sid bs srv" and "bs \<noteq> []" and "build_polling_payload encode bs = Some body"
  shows "\<exists>srv'. polling_handle_request encode decode to_string net now (Some (Some (PollingGet sid))) srv =
      (srv', HttpResponse 200 (Some body)) \<and> polling_session sid [] srv'"
  using assms
  by (auto simp: polling_handle_request_def polling_get_def server_polling_handle_def polling_session_def)

lemma polling_session_get:
  assumes "base64 encode decode" and "polling_session sid (map (bytes_from_packet encode) ps) srv"
    and "ps \<noteq> []" and "list_all text_packet ps"
  shows "\<exists>srv' body. polling_handle_request encode decode to_string net now (Some (Some (PollingGet sid))) srv =
      (srv', HttpResponse 200 (Some body)) \<and>
    socket_stream decode (client_polling_stream [Inr [Inr (as_bytes body)]]) = map Inr ps \<and>
    polling_session sid [] srv'"
proof -
  let ?body = "join_with (unat SEPARATOR) (map packet_text ps)"
  have "socket_stream decode (client_polling_stream [Inr [Inr (as_bytes ?body)]]) = map Inr ps"
    using base64.polling_body_decode [OF assms(1,3,4)] by (simp add: parse_payload_def)
  with polling_session_answer [OF assms(2) _ polling_queue_body [OF assms(3,4)]] assms(3) show ?thesis by fastforce
qed

section \<open>The handshake data as JSON\<close>

text \<open>
  The derived reading of handshake data: each field is the member of its name, of the type
  of the field, in whatever order the members come.
\<close>

definition json_str :: "json option \<Rightarrow> ustr option" where
  "json_str v = (case v of Some (JString s) \<Rightarrow> Some s | _ \<Rightarrow> None)"

fun json_strs :: "json list \<Rightarrow> ustr list option" where
  "json_strs [] = Some []"
| "json_strs (v # vs) =
     (case json_str (Some v) of None \<Rightarrow> None | Some s \<Rightarrow> map_option (Cons s) (json_strs vs))"

definition handshake_of_json :: "json \<Rightarrow> handshake_packet option" where
  "handshake_of_json v =
     (case (json_str (json_get v (str ''sid'')), json_get v (str ''upgrades''),
            Option.bind (json_get v (str ''pingInterval'')) json_as_u64,
            Option.bind (json_get v (str ''pingTimeout'')) json_as_u64,
            Option.bind (json_get v (str ''maxPayload'')) json_as_u64) of
        (Some sid, Some (JArray ups), Some pi, Some pt, Some mp) \<Rightarrow>
          map_option (\<lambda>ups. \<lparr>hs_sid = sid, hs_upgrades = ups, hs_ping_interval = pi, hs_ping_timeout = pt, hs_max_payload = mp\<rparr>)
            (json_strs ups)
      | _ \<Rightarrow> None)"

definition handshake_reader :: "(ustr \<Rightarrow> json option) \<Rightarrow> bytes \<Rightarrow> handshake_packet option" where
  "handshake_reader from_str bs = Option.bind (Option.bind (from_utf8 bs) from_str) handshake_of_json"

lemma json_strs_map [simp]: "json_strs (map JString ss) = Some ss"
  by (induction ss) (simp_all add: json_str_def)

lemma handshake_of_json_inverse: "handshake_of_json (sort_members (handshake_json hs)) = Some hs"
proof -
  have "json_strs (map (sort_members \<circ> JString) ss) = Some ss" for ss
    by (induction ss) (simp_all add: json_str_def)
  then show ?thesis by (simp add: handshake_of_json_def handshake_json_def json_str_def)
qed

lemma shallow_handshake_json: "shallow nesting_limit (handshake_json hs)"
  by (simp add: handshake_json_def list_all_iff)

lemma wf_handshake_json:
  "wf_str (hs_sid hs) \<Longrightarrow> list_all wf_str (hs_upgrades hs) \<Longrightarrow> wf_json (handshake_json hs)"
  by (auto simp: handshake_json_def scalar_def list_all_iff)

context serde_json
begin

lemma handshake_reader_inverse:
  assumes "wf_str (hs_sid hs)" and "list_all wf_str (hs_upgrades hs)"
  shows "handshake_reader from_str (as_bytes (to_string (handshake_json hs))) = Some hs"
  using wf_handshake_json [OF assms] to_string_wf from_str_to_string [OF _ shallow_handshake_json]
  by (simp add: handshake_reader_def handshake_of_json_inverse)

end

section \<open>Properties\<close>

text \<open>
  C10: However requests, websockets, calls and ping loops interleave, as long as fewer
  than two to the 64 of them have happened since the server was built, the next session id
  is fresh: no session and no polling queue has it, and every stored socket is a server's
  end that carries the id it is stored under.
\<close>

theorem session_ids_fresh:
  assumes "base64 encode decode" and "builder_build b = Some srv0"
    and "length ops < 2 ^ 64"
    and "srv = fold (server_apply encode decode to_string net ws_net) ops srv0"
  shows "sockets srv (fst (sid_generate encode srv)) = None \<and>
    polling_handles srv (fst (sid_generate encode srv)) = None \<and>
    (\<forall>sid s. sockets srv sid = Some s \<longrightarrow> socket_sid s = sid \<and> server_end s \<and> \<not> should_pong s)"
proof -
  obtain l where l: "l \<le> length ops" "server_wf encode l srv"
    using server_runs.run_inv [OF wf_initial [OF assms(2)], where ops = ops and decode = decode
        and to_string = to_string and net = net and ws_net = ws_net] assms(3,4) by auto
  have "\<not> issued encode l (eio_sid encode (word_of_nat l))"
  proof
    assume "issued encode l (eio_sid encode (word_of_nat l))"
    then obtain n where n: "n < l" "word_of_nat n = (word_of_nat l :: usize)"
      by (auto simp: issued_def base64.eio_sid_inject [OF assms(1)])
    moreover have "unat (word_of_nat n :: usize) = n" "unat (word_of_nat l :: usize) = l"
      using n(1) l(1) assms(3) by (simp_all add: unat_of_nat take_bit_nat_eq_self)
    ultimately show False by simp
  qed
  with wf_generate(1) [OF l(2)] server_wfD [OF l(2)] show ?thesis
    by (metis not_None_eq)
qed

theorem session_ids_fresh_witness:
  "\<exists>srv0. builder_build (server_builder_new 80) = Some srv0 \<and>
     (let srv = fold (server_apply rfc_encode rfc_decode print_json (\<lambda>_ _. Inr 200) (\<lambda>_ _. Inr 200))
        [SrvRequest 1 (Some (Some PollingOpen)), SrvWebsocket 2 True None None None []] srv0
      in sockets srv (fst (sid_generate rfc_encode srv)) = None)"
proof -
  obtain srv0 where b: "builder_build (server_builder_new 80) = Some srv0"
    by (simp add: builder_build_def server_builder_new_def)
  show ?thesis unfolding Let_def
    using b session_ids_fresh [OF rfc4648.base64_axioms b _ refl,
        of "[SrvRequest 1 (Some (Some PollingOpen)), SrvWebsocket 2 True None None None []]"
          print_json "\<lambda>_ _. Inr 200" "\<lambda>_ _. Inr 200"]
    by simp
qed

text \<open>
  C24: The probes of client and server fit together. When the server receives the two
  messages that an upgrading client sends and the network accepts all of them, the server
  sends one message, the probe's pong, and accepts the upgrade with its polling queue
  closed; and with that pong as the answer the client's upgrade succeeds, having sent
  exactly these two messages.
\<close>

theorem probe_agreement:
  assumes "reliable net" and "reliable ws_net"
  shows "\<exists>ping pong up srv'.
    handle_probe encode net ws_net sid (Some (Inr ping)) (Some (Inr up)) [] srv = (srv', [Ws pong], Inr sid) \<and>
    polling_handles srv' sid = None \<and>
    websocket_upgrade encode ws_net (Some (Inr pong)) [] = ([Ws ping, Ws up], Inr ())"
proof (intro exI conjI)
  have texts: "bytes_from_packet encode (packet_new Ping probe) = as_bytes (str ''2probe'')"
    "bytes_from_packet encode (packet_new Pong probe) = as_bytes (str ''3probe'')"
    "bytes_from_packet encode (packet_new Upgrade []) = as_bytes (str ''5'')"
    by (simp_all add: codec_simps probe_def)
  have utf8: "from_utf8 (as_bytes (str ''2probe'')) = Some (str ''2probe'')"
    "from_utf8 (as_bytes (str ''3probe'')) = Some (str ''3probe'')"
    "from_utf8 (as_bytes (str ''5'')) = Some (str ''5'')"
    by (rule from_utf8_as_bytes; simp add: scalar_def)+
  note defs = websocket_send_packet_def texts utf8
  show "handle_probe encode net ws_net sid (Some (Inr (WsText (str ''2probe'')))) (Some (Inr (WsText (str ''5'')))) [] srv =
      (close_polling sid (drain_polling encode net sid srv), [Ws (WsText (str ''3probe''))], Inr sid)"
    using assms unfolding handle_probe_def defs by (simp add: reliable_def Let_def)
  show "polling_handles (close_polling sid (drain_polling encode net sid srv)) sid = None"
    by (simp add: close_polling_def)
  show "websocket_upgrade encode ws_net (Some (Inr (WsText (str ''3probe'')))) [] =
      ([Ws (WsText (str ''2probe'')), Ws (WsText (str ''5''))], Inr ())"
    using assms unfolding websocket_upgrade_def defs by (simp add: reliable_def ws_message_data_def)
qed

theorem probe_agreement_witness:
  "\<exists>ping pong up srv'.
    handle_probe rfc_encode (\<lambda>_ _. Inr 200) (\<lambda>_ _. Inr 200) [49] (Some (Inr ping)) (Some (Inr up)) []
      (the (builder_build (server_builder_new 80))) = (srv', [Ws pong], Inr [49]) \<and>
    polling_handles srv' [49] = None \<and>
    websocket_upgrade rfc_encode (\<lambda>_ _. Inr 200) (Some (Inr pong)) [] = ([Ws ping, Ws up], Inr ())"
  by (rule probe_agreement) (simp_all add: reliable_def)

text \<open>
  A polling session delivers: after an opening request has been handled, text packets
  that the server emits to the new session are all in the body of the next polling
  response, and the client decodes that body to these packets in order; nothing stays
  pending, so no packet is delivered twice.
\<close>

theorem polling_session_delivery:
  assumes "base64 encode decode" and "polling_buffer srv \<noteq> 0" and "receiver_alive (srv_events srv)"
    and "ps \<noteq> []" and "list_all text_packet ps"
  shows "let sid = fst (sid_generate encode srv);
      srv1 = fst (polling_handle_request encode decode to_string net now (Some (Some PollingOpen)) srv);
      srv2 = fold (\<lambda>p srv. fst (server_emit encode net sid p srv)) ps srv1
    in \<exists>srv3 body. polling_handle_request encode decode to_string net now (Some (Some (PollingGet sid))) srv2 =
        (srv3, HttpResponse 200 (Some body)) \<and>
      socket_stream decode (client_polling_stream [Inr [Inr (as_bytes body)]]) = map Inr ps \<and>
      polling_session sid [] srv3"
proof -
  define sid where "sid = fst (sid_generate encode srv)"
  define srv2 where "srv2 = fold (\<lambda>p srv. fst (server_emit encode net sid p srv)) ps
    (fst (polling_handle_request encode decode to_string net now (Some (Some PollingOpen)) srv))"
  have "polling_session sid (map (bytes_from_packet encode) ps) srv2"
    using polling_session_emits [OF polling_open_session [OF assms(2,3)] assms(5)]
    by (simp add: sid_def srv2_def)
  from polling_session_get [OF assms(1) this assms(4,5), of to_string net now] show ?thesis
    unfolding Let_def sid_def [symmetric] srv2_def [symmetric] .
qed

theorem polling_session_delivery_witness:
  "let srv = the (builder_build (server_builder_new 80));
      sid = fst (sid_generate rfc_encode srv);
      srv1 = fst (polling_handle_request rfc_encode rfc_decode print_json (\<lambda>_ _. Inl ()) 5 (Some (Some PollingOpen)) srv);
      srv2 = fold (\<lambda>p srv. fst (server_emit rfc_encode (\<lambda>_ _. Inl ()) sid p srv)) [packet_new Ping [], packet_new Noop []] srv1
    in \<exists>srv3 body. polling_handle_request rfc_encode rfc_decode print_json (\<lambda>_ _. Inl ()) 5 (Some (Some (PollingGet sid))) srv2 =
        (srv3, HttpResponse 200 (Some body)) \<and>
      socket_stream rfc_decode (client_polling_stream [Inr [Inr (as_bytes body)]]) =
        map Inr [packet_new Ping [], packet_new Noop []] \<and>
      polling_session sid [] srv3"
  unfolding Let_def by (rule polling_session_delivery [unfolded Let_def, OF rfc4648.base64_axioms])
    (simp_all add: builder_build_def server_builder_new_def)

text \<open>
  C29: A session whose client has gone while messages fill its queue is never closed. After a
  polling session has got as many messages as its queue holds, each of which has found room,
  the ping loop waits with its next ping for a polling request that does not come: at
  whatever later ticks, nothing changes and the session stays.
\<close>

theorem full_queue_stops_pings:
  assumes "polling_session sid bs srv" and "list_all text_packet ps"
    and "length bs + length ps = unat (polling_buffer srv)" and "ticks \<noteq> []"
  shows "let emits = fold (\<lambda>p srv. fst (server_emit encode net sid p srv)) in
    (\<forall>k<length ps. \<not> emit_waits sid (emits (take k ps) srv)) \<and>
    ping_loop encode net ticks sid (emits ps srv) = (emits ps srv, LoopWaits) \<and>
    polling_session sid (bs @ map (bytes_from_packet encode) ps) (emits ps srv)"
proof -
  define emits where "emits = fold (\<lambda>p srv. fst (server_emit encode net sid p srv))"
  have buffer: "polling_buffer (emits qs srv) = polling_buffer srv" for qs
    unfolding emits_def by (induction qs arbitrary: srv) simp_all
  have session: "polling_session sid (bs @ map (bytes_from_packet encode) (take k ps)) (emits (take k ps) srv)" for k
    unfolding emits_def using assms(2) by (intro polling_session_emits [OF assms(1)]) (auto simp: list_all_iff dest: in_set_takeD)
  have waits: "emit_waits sid (emits (take k ps) srv) \<longleftrightarrow> length ps \<le> k" for k
    using session [of k] buffer [of "take k ps"] assms(3) by (auto simp: polling_session_def emit_waits_def)
  from waits [of "length ps"] ping_loop_waits [OF _ assms(4)] have "ping_loop encode net ticks sid (emits ps srv) = (emits ps srv, LoopWaits)"
    by simp
  with waits session [of "length ps"] show ?thesis unfolding Let_def emits_def [symmetric] by simp
qed

theorem full_queue_stops_pings_witness:
  "let srv = (the (builder_build (builder_polling_buffer 2 (server_builder_new 80))))\<lparr>sockets := [[49] \<mapsto> example_socket ServerPolling],
       polling_handles := [[49] \<mapsto> \<lparr>posted = [], pending = []\<rparr>]\<rparr>;
     full = fold (\<lambda>p srv. fst (server_emit rfc_encode (\<lambda>_ _. Inr 200) [49] p srv)) [packet_new Ping [], packet_new Ping []] srv
   in ping_loop rfc_encode (\<lambda>_ _. Inr 200) [10 ^ 9, 2 * 10 ^ 9] [49] full = (full, LoopWaits)"
proof -
  let ?srv = "(the (builder_build (builder_polling_buffer 2 (server_builder_new 80))))\<lparr>sockets := [[49] \<mapsto> example_socket ServerPolling],
       polling_handles := [[49] \<mapsto> \<lparr>posted = [], pending = []\<rparr>]\<rparr>"
  have "polling_session [49] [] ?srv" by (simp add: polling_session_def)
  moreover have "length [] + length [packet_new Ping [], packet_new Ping []] = unat (polling_buffer ?srv)"
    by (simp add: builder_build_def builder_polling_buffer_def server_builder_new_def)
  ultimately show ?thesis
    using full_queue_stops_pings [of "[49]" "[]" ?srv "[packet_new Ping [], packet_new Ping []]" "[10 ^ 9, 2 * 10 ^ 9]" rfc_encode "\<lambda>_ _. Inr 200"]
    unfolding Let_def by (simp del: fold_simps ping_loop.simps)
qed

text \<open>
  C32: The body of a post that carries a session id. When the headers end at an index within
  the buffer, the declared length decides: a body that lies within the buffer is taken
  exactly, one that reaches beyond it refuses the request, and a length so large that the
  end index wraps around panics.
\<close>

theorem post_body_cases:
  assumes "parse buf = Some (req, idx)" and "unat idx \<le> length buf"
    and "length buf < 2 ^ 64" and "req_method req = Some verb" and "to_uppercase verb = str ''POST''"
    and "req_path req = Some path"
    and "query_pairs (str ''http://'' @ addr @ path) = Some pairs"
    and "query_loop pairs None None = Some (Some sid, Some t)"
    and "header_loop (req_headers req) verb t (Some sid) 0 = ContentLength n"
  shows "parse_request_type parse query_pairs buf addr False =
    (if unat idx + unat n \<le> length buf
     then Some (Some (PollingPost sid (take (unat n) (drop (unat idx) buf))))
     else if unat idx + unat n < 2 ^ 64 then Some None
     else None)"
  using parse_post [where parse = parse and query_pairs = query_pairs and addr = addr, OF assms(1,4-9)] post_body_eq [OF assms(2,3)] by simp

theorem post_body_cases_witness:
  "let parse = (\<lambda>_. Some (example_request (dec (unat (2 :: usize))), 5)) in
   parse_request_type parse (\<lambda>_. Some example_pairs) [0, 0, 0, 0, 0, 52, 53] (str ''h'') False =
     Some (Some (PollingPost (str ''MA'') [52, 53]))"
  unfolding Let_def
  using post_body_cases [where parse = "\<lambda>_. Some (example_request (dec (unat (2 :: usize))), 5)"
      and query_pairs = "\<lambda>_. Some example_pairs" and addr = "str ''h''" and buf = "[0, 0, 0, 0, 0, 52, 53]" and idx = 5,
      OF refl _ _ example_request_facts(1,2,3) refl example_request_facts(4) example_request_length]
  by simp

text \<open>
  A post that the handshake allows may be refused. Whatever limit the server's option
  advertises, a request whose headers and body together exceed the fixed thousand bytes
  that are read is answered with status 400, and the data is dropped.
\<close>

theorem large_post_refused:
  assumes "parse (take 1000 arrived) = Some (req, idx)" and "unat idx \<le> length (take 1000 arrived)"
    and "req_method req = Some verb" and "to_uppercase verb = str ''POST''" and "req_path req = Some path"
    and "query_pairs (str ''http://'' @ addr @ path) = Some pairs"
    and "query_loop pairs None None = Some (Some sid, Some t)"
    and "header_loop (req_headers req) verb t (Some sid) 0 = ContentLength n"
    and "1000 < unat idx + unat n" and "unat n \<le> unat (max_payload_option (srv_option srv))"
    and "unat (max_payload_option (srv_option srv)) < 2 ^ 63"
  shows "polling_handle_request encode decode to_string net now
      (read_request_type parse query_pairs arrived addr max_payload) srv = (srv, HttpResponse 400 None)"
proof -
  have "length (take 1000 arrived) \<le> 1000" by simp
  then have "post_body (take 1000 arrived) idx n False = Some None"
    using post_body_eq [OF assms(2), of n] assms(2,9-11) by simp
  then have "read_request_type parse query_pairs arrived addr max_payload = Some None"
    using parse_post [where parse = parse and query_pairs = query_pairs and addr = addr, OF assms(1,3-8)]
    by (simp add: read_request_type_def max_payload_def)
  then show ?thesis by (simp add: polling_handle_request_def)
qed

theorem large_post_refused_witness:
  "let parse = (\<lambda>_. Some (example_request (dec (unat (2000 :: usize))), 5));
       srv = the (builder_build (server_builder_new 80))
   in polling_handle_request rfc_encode rfc_decode print_json (\<lambda>_ _. Inr 200) 3
      (read_request_type parse (\<lambda>_. Some example_pairs) (replicate 2005 0) (str ''h'') max_payload) srv =
        (srv, HttpResponse 400 None)"
  unfolding Let_def
  by (rule large_post_refused [where parse = "\<lambda>_. Some (example_request (dec (unat (2000 :: usize))), 5)"
      and query_pairs = "\<lambda>_. Some example_pairs" and idx = 5,
      OF refl _ example_request_facts(1,2,3) refl example_request_facts(4) example_request_length])
    (simp_all add: builder_build_def server_builder_new_def server_option_default_def)

text \<open>
  A response with a body is framed: a status line, the three headers in the order of the
  header map, an empty line and the body, where the declared content length is the number
  of bytes of the body.
\<close>

theorem http_response_framing:
  assumes "\<And>hs. distinct (map fst hs) \<Longrightarrow> mset (header_map hs) = mset (map (\<lambda>(k, v). (to_lowercase k, v)) hs)"
  shows "\<exists>hs. http_response status_str header_map status (Some body) =
      str ''HTTP/1.1 '' @ status_str status @ CRLF @ concat (map header_line hs) @ CRLF @ body \<and>
    mset hs = {# (str ''content-type'', str ''text/plain; charset=UTF-8''), (str ''connection'', str ''Close''),
      (str ''content-length'', dec (length (as_bytes body))) #}"
proof -
  let ?hs = "[(str ''Content-Type'', str ''text/plain; charset=UTF-8''), (str ''Connection'', str ''Close''),
     (str ''Content-Length'', dec (length (as_bytes body)))]"
  have "distinct (map fst ?hs)" by simp
  from assms [OF this] have "mset (header_map ?hs) =
      {# (str ''content-type'', str ''text/plain; charset=UTF-8''), (str ''connection'', str ''Close''),
      (str ''content-length'', dec (length (as_bytes body))) #}"
    by (simp add: lower_char_def)
  moreover have "http_response status_str header_map status (Some body) =
      str ''HTTP/1.1 '' @ status_str status @ CRLF @ concat (map header_line (header_map ?hs)) @ CRLF @ body"
    by (simp add: http_response_def Let_def)
  ultimately show ?thesis by blast
qed

theorem http_response_framing_witness:
  "\<exists>hs. http_response (\<lambda>_. str ''200 OK'') (map (\<lambda>(k, v). (to_lowercase k, v))) 200 (Some (str ''ok'')) =
      str ''HTTP/1.1 '' @ str ''200 OK'' @ CRLF @ concat (map header_line hs) @ CRLF @ str ''ok'' \<and>
    mset hs = {# (str ''content-type'', str ''text/plain; charset=UTF-8''), (str ''connection'', str ''Close''),
      (str ''content-length'', dec (length (as_bytes (str ''ok'')))) #}"
  by (rule http_response_framing) simp

text \<open>
  A response without a body lacks the empty line that ends its headers: it is what the
  response with an empty body is, less the last line end. Every refusal of a request and
  every polling response with nothing to deliver is such a response.
\<close>

theorem http_response_unterminated:
  "http_response status_str header_map status (Some []) = http_response status_str header_map status None @ CRLF"
  by (simp add: http_response_def Let_def)

end
