(* ===== verification/Sio_Server.thy ===== *)
theory Sio_Server
  imports Sio_Socket Engine_Http
begin

text \<open>
  The Socket.IO server (\<open>socketio/src/server\<close>): session ids, the registry of rooms, the
  clients of each engine session, their creation and removal, emission to rooms. A client
  shares its engine socket with the engine server, which lends it for each call. A hash set
  is a set; where the sources iterate over one, the order is an argument. Tasks that are
  spawned to emit to one client each are run one after the other in that order.
\<close>

section \<open>Session ids\<close>

definition sio_sid :: "(bytes \<Rightarrow> ustr) \<Rightarrow> sid \<Rightarrow> usize \<Rightarrow> sid" where
  "sio_sid encode engine_sid seq = encode (as_bytes (engine_sid @ str ''-'' @ dec (unat seq)))"

definition sio_sid_decode :: "(bytes \<Rightarrow> bytes option) \<Rightarrow> sid \<Rightarrow> sid option" where
  "sio_sid_decode decode sid =
     (case decode (as_bytes sid) of
        None \<Rightarrow> None
      | Some sid_vec \<Rightarrow>
          (case from_utf8 sid_vec of
             None \<Rightarrow> None
           | Some esid_sid \<Rightarrow> Some (split_on 45 esid_sid ! 0)))"

section \<open>State\<close>

type_synonym namespace = ustr
type_synonym room = ustr
type_synonym rooms = "namespace \<rightharpoonup> (room \<rightharpoonup> sid set)"

record sio_server =
  ns_on :: "namespace \<rightharpoonup> sio_event set"
  ns_rooms :: rooms
  clients :: "sid \<rightharpoonup> (sid \<rightharpoonup> (namespace \<rightharpoonup> sio_socket))"
  engine_server :: eio_server
  sid_generator :: usize

text \<open>The builder collects the callbacks of each namespace.\<close>

record sio_server_builder =
  sb_on :: "namespace \<rightharpoonup> sio_event set"
  sb_builder :: server_builder

definition sio_server_builder_new :: "u16 \<Rightarrow> sio_server_builder" where
  "sio_server_builder_new port = \<lparr>sb_on = Map.empty, sb_builder = server_builder_new port\<rparr>"

definition sb_server_option :: "server_option \<Rightarrow> sio_server_builder \<Rightarrow> sio_server_builder" where
  "sb_server_option opt b = b\<lparr>sb_builder := builder_server_option opt (sb_builder b)\<rparr>"

definition sb_register :: "namespace \<Rightarrow> sio_event \<Rightarrow> sio_server_builder \<Rightarrow> sio_server_builder" where
  "sb_register ns event b =
     (case sb_on b ns of
        Some handlers \<Rightarrow> b\<lparr>sb_on := (sb_on b)(ns \<mapsto> insert event handlers)\<rparr>
      | None \<Rightarrow> b\<lparr>sb_on := (sb_on b)(ns \<mapsto> {event})\<rparr>)"

definition sb_build :: "sio_server_builder \<Rightarrow> sio_server option" where
  "sb_build b =
     map_option (\<lambda>es. \<lparr>ns_on = sb_on b, ns_rooms = Map.empty, clients = Map.empty,
         engine_server = es, sid_generator = 0\<rparr>) (builder_build (sb_builder b))"

definition sio_sid_generate :: "(bytes \<Rightarrow> ustr) \<Rightarrow> sid \<Rightarrow> sio_server \<Rightarrow> sid \<times> sio_server" where
  "sio_sid_generate encode esid srv =
     (let seq = sid_generator srv in (sio_sid encode esid seq, srv\<lparr>sid_generator := seq + 1\<rparr>))"

section \<open>Rooms\<close>

definition join_one :: "namespace \<Rightarrow> sid \<Rightarrow> room \<Rightarrow> rooms \<Rightarrow> rooms" where
  "join_one ns sid room_name rs =
     (case rs ns of
        None \<Rightarrow> rs(ns \<mapsto> [room_name \<mapsto> {sid}])
      | Some nsp_rooms \<Rightarrow>
          (case nsp_rooms room_name of
             Some room_sids \<Rightarrow> rs(ns \<mapsto> nsp_rooms(room_name \<mapsto> insert sid room_sids))
           | None \<Rightarrow> rs(ns \<mapsto> nsp_rooms(room_name \<mapsto> {sid}))))"

definition join :: "namespace \<Rightarrow> room list \<Rightarrow> sid \<Rightarrow> sio_server \<Rightarrow> sio_server" where
  "join ns room_names sid srv = srv\<lparr>ns_rooms := fold (join_one ns sid) room_names (ns_rooms srv)\<rparr>"

definition leave_one :: "namespace \<Rightarrow> sid \<Rightarrow> room \<Rightarrow> rooms \<Rightarrow> rooms" where
  "leave_one ns sid room_name rs =
     (case rs ns of
        None \<Rightarrow> rs
      | Some nsp_rooms \<Rightarrow>
          (case nsp_rooms room_name of
             None \<Rightarrow> rs
           | Some room_sids \<Rightarrow> rs(ns \<mapsto> nsp_rooms(room_name \<mapsto> room_sids - {sid}))))"

definition leave :: "namespace \<Rightarrow> room list \<Rightarrow> sid \<Rightarrow> sio_server \<Rightarrow> sio_server" where
  "leave ns room_names sid srv = srv\<lparr>ns_rooms := fold (leave_one ns sid) room_names (ns_rooms srv)\<rparr>"

text \<open>A name that is no room of the namespace is taken for the session id of a client.\<close>

fun sids_loop :: "(room \<rightharpoonup> sid set) \<Rightarrow> room list \<Rightarrow> sid set \<Rightarrow> sid set" where
  "sids_loop room_clients [] sids = sids"
| "sids_loop room_clients (room_name # room_names) sids =
     sids_loop room_clients room_names
       (case room_clients room_name of Some room \<Rightarrow> sids \<union> room | None \<Rightarrow> insert room_name sids)"

definition sids_to_emit :: "namespace \<Rightarrow> room list \<Rightarrow> sio_server \<Rightarrow> sid set" where
  "sids_to_emit ns room_names srv =
     (case ns_rooms srv ns of Some room_clients \<Rightarrow> sids_loop room_clients room_names {} | None \<Rightarrow> {})"

definition retain_rooms :: "(sid \<Rightarrow> bool) \<Rightarrow> rooms \<Rightarrow> rooms" where
  "retain_rooms keep rs = (\<lambda>ns. map_option (\<lambda>nsp_rooms room. map_option (\<lambda>sids. {sid \<in> sids. keep sid}) (nsp_rooms room)) (rs ns))"

section \<open>Clients\<close>

definition client_count :: "sio_server \<Rightarrow> nat" where
  "client_count srv = (\<Sum>esid\<in>dom (clients srv). card (dom (the (clients srv esid))))"

definition client :: "(bytes \<Rightarrow> bytes option) \<Rightarrow> sid \<Rightarrow> namespace \<Rightarrow> sio_server \<Rightarrow> sio_socket option" where
  "client decode sid ns srv =
     (case sio_sid_decode decode sid of
        None \<Rightarrow> None
      | Some esid \<Rightarrow>
          (case clients srv esid of
             None \<Rightarrow> None
           | Some sid_map \<Rightarrow>
               (case sid_map sid of None \<Rightarrow> None | Some nsp_map \<Rightarrow> nsp_map ns)))"

text \<open>
  A call on a socket whose engine socket belongs to the engine server: the engine socket is
  lent and returned. An engine socket that the engine server has dropped lives on in the
  client.
\<close>

definition server_env :: "sio_env \<Rightarrow> sid \<Rightarrow> sio_server \<Rightarrow> sio_env" where
  "server_env env esid srv = env\<lparr>env_net := server_net (env_net env) (engine_server srv) esid\<rparr>"

definition return_engine :: "sid \<Rightarrow> eio_socket \<Rightarrow> eio_socket \<Rightarrow> sio_server \<Rightarrow> sio_server" where
  "return_engine esid s s' srv =
     (let es = engine_server srv in
      srv\<lparr>engine_server := (case sockets es esid of
             None \<Rightarrow> return_events esid s s' es
           | Some _ \<Rightarrow> (return_events esid s s' es)\<lparr>sockets := (sockets es)(esid \<mapsto> s')\<rparr>)\<rparr>)"

definition on_client ::
  "sid \<Rightarrow> sid \<Rightarrow> namespace \<Rightarrow> (sio_socket \<Rightarrow> sio_socket \<times> 'a) \<Rightarrow> sio_socket \<Rightarrow> sio_server \<Rightarrow> sio_server \<times> 'a" where
  "on_client esid sid ns f sk srv =
     (let s = (case server_socket esid (engine_server srv) of Some s \<Rightarrow> s | None \<Rightarrow> engine sk);
          (sk', r) = f (sk\<lparr>engine := s\<rparr>);
          sid_map = (case clients srv esid of Some m \<Rightarrow> m | None \<Rightarrow> Map.empty);
          nsp_map = (case sid_map sid of Some m \<Rightarrow> m | None \<Rightarrow> Map.empty)
      in ((return_engine esid s (engine sk') srv)
            \<lparr>clients := (clients srv)(esid \<mapsto> sid_map(sid \<mapsto> nsp_map(ns \<mapsto> sk')))\<rparr>, r))"

definition emit_to_one ::
  "sio_env \<Rightarrow> (bytes \<Rightarrow> bytes option) \<Rightarrow> namespace \<Rightarrow> sio_event \<Rightarrow> sio_payload \<Rightarrow> sid \<Rightarrow> sio_server \<Rightarrow> sio_server" where
  "emit_to_one env decode ns event d sid srv =
     (case client decode sid ns srv of
        None \<Rightarrow> srv
      | Some sk \<Rightarrow>
          (case sio_sid_decode decode sid of
             None \<Rightarrow> srv
           | Some esid \<Rightarrow> fst (on_client esid sid ns (sio_emit (server_env env esid srv) event d) sk srv)))"

definition emit_to ::
  "sio_env \<Rightarrow> (bytes \<Rightarrow> bytes option) \<Rightarrow> (sid set \<Rightarrow> sid list) \<Rightarrow> namespace \<Rightarrow> room list \<Rightarrow> sio_event \<Rightarrow> sio_payload \<Rightarrow>
     sio_server \<Rightarrow> sio_server" where
  "emit_to env decode order ns room_names event d srv =
     fold (emit_to_one env decode ns event d) (order (sids_to_emit ns room_names srv)) srv"

definition emit_to_with_ack_one ::
  "sio_env \<Rightarrow> (bytes \<Rightarrow> bytes option) \<Rightarrow> instant \<Rightarrow> namespace \<Rightarrow> sio_event \<Rightarrow> sio_payload \<Rightarrow> nat \<Rightarrow> sid \<Rightarrow> sio_server \<Rightarrow> sio_server" where
  "emit_to_with_ack_one env decode now ns event d timeout sid srv =
     (case client decode sid ns srv of
        None \<Rightarrow> srv
      | Some sk \<Rightarrow>
          (case sio_sid_decode decode sid of
             None \<Rightarrow> srv
           | Some esid \<Rightarrow>
               fst (on_client esid sid ns (sio_emit_with_ack (server_env env esid srv) now event d timeout) sk srv)))"

definition emit_to_with_ack ::
  "sio_env \<Rightarrow> (bytes \<Rightarrow> bytes option) \<Rightarrow> (sid set \<Rightarrow> sid list) \<Rightarrow> instant \<Rightarrow> namespace \<Rightarrow> room list \<Rightarrow> sio_event \<Rightarrow>
     sio_payload \<Rightarrow> nat \<Rightarrow> sio_server \<Rightarrow> sio_server" where
  "emit_to_with_ack env decode order now ns room_names event d timeout srv =
     fold (emit_to_with_ack_one env decode now ns event d timeout) (order (sids_to_emit ns room_names srv)) srv"

section \<open>Creation and removal of clients\<close>

text \<open>
  The first session and namespace of an engine session; the argument picks the element that
  an iteration over a map yields first.
\<close>

definition client_info :: "(ustr set \<Rightarrow> ustr option) \<Rightarrow> sid \<Rightarrow> sio_server \<Rightarrow> (sid \<times> namespace) option" where
  "client_info pick esid srv =
     (case clients srv esid of
        None \<Rightarrow> None
      | Some sid_map \<Rightarrow>
          (case pick (dom sid_map) of
             None \<Rightarrow> None
           | Some sid \<Rightarrow>
               (case sid_map sid of
                  None \<Rightarrow> None
                | Some nsp_map \<Rightarrow> map_option (Pair sid) (pick (dom nsp_map)))))"

text \<open>
  A client of a namespace that the server knows is told of its connection, its polling task
  starts, it sends its session id, and it is stored. Unknown namespaces are ignored.
\<close>

definition server_client_new :: "eio_socket \<Rightarrow> namespace \<Rightarrow> sio_event set \<Rightarrow> sio_socket" where
  "server_client_new s ns handlers = sio_socket_new s True ns handlers"

definition connect_callback :: "sio_socket \<Rightarrow> sio_socket" where
  "connect_callback sk = handle_connect None sk"

definition insert_clients ::
  "sio_env \<Rightarrow> eio_socket \<Rightarrow> namespace \<Rightarrow> sid \<Rightarrow> sid \<Rightarrow> bool \<Rightarrow> sio_server \<Rightarrow> sio_server" where
  "insert_clients env s ns esid sid handshake srv =
     (case ns_on srv ns of
        None \<Rightarrow> srv
      | Some handlers \<Rightarrow>
          let sk = connect_callback (server_client_new s ns handlers);
              f = (if handshake
                   then sio_handshake (server_env env esid srv) (JObject [(str ''sid'', JString sid)])
                   else (\<lambda>sk. (sk, Inr ())))
          in fst (on_client esid sid ns f sk srv))"

text \<open>
  Waiting for the connect packet of a new session: other packets are passed over, an error
  or the end of the stream gives up.
\<close>

datatype connect_outcome = ConnectTo namespace | ConnectNone | ConnectPanic

function connect_loop :: "sio_env \<Rightarrow> instant \<Rightarrow> eio_socket \<Rightarrow> eio_socket \<times> connect_outcome" where
  "connect_loop env now s =
     (case raw_stream_next env now s of
        (s', RawItem (Inr packet)) \<Rightarrow>
          if ptype packet = Connect then (s', ConnectTo (nsp packet)) else connect_loop env now s'
      | (s', RawPanic) \<Rightarrow> (s', ConnectPanic)
      | (s', _) \<Rightarrow> (s', ConnectNone))"
  by pat_completeness auto
termination
  by (relation "measure (\<lambda>(env, now, s). length (generator s))")
    (auto dest: raw_stream_next_shrinks [OF sym])

declare connect_loop.simps [simp del]

definition do_handle_connect :: "sio_env \<Rightarrow> instant \<Rightarrow> eio_socket \<Rightarrow> sid \<Rightarrow> sio_server \<Rightarrow> sio_server" where
  "do_handle_connect env now s esid srv =
     (let (sid, srv) = sio_sid_generate (env_encode env) esid srv;
          (s', outcome) = connect_loop (server_env env esid srv) now s;
          srv = return_engine esid s s' srv
      in (case outcome of
            ConnectTo ns \<Rightarrow> insert_clients env s' ns esid sid True srv
          | _ \<Rightarrow> srv))"

definition drop_client ::
  "sio_env \<Rightarrow> (bytes \<Rightarrow> bytes option) \<Rightarrow> sid \<Rightarrow> sio_server \<Rightarrow> sio_server" where
  "drop_client env decode esid srv =
     (let srv = srv\<lparr>engine_server := close_socket (env_encode env) (env_net env) esid (engine_server srv)\<rparr>;
          srv = srv\<lparr>clients := (clients srv)(esid := None)\<rparr>
      in srv\<lparr>ns_rooms := retain_rooms (\<lambda>sid. sio_sid_decode decode sid \<noteq> Some esid) (ns_rooms srv)\<rparr>)"

text \<open>
  The argument tells whether the time was over before a connect packet arrived: the packets
  that had been read are lost then, and the engine session is dropped.
\<close>

definition server_handle_connect ::
  "sio_env \<Rightarrow> (bytes \<Rightarrow> bytes option) \<Rightarrow> bool \<Rightarrow> instant \<Rightarrow> eio_socket \<Rightarrow> sid \<Rightarrow> sio_server \<Rightarrow> sio_server" where
  "server_handle_connect env decode timed_out now s esid srv =
     (if timed_out then
        let (sid, srv) = sio_sid_generate (env_encode env) esid srv;
            (s', _) = connect_loop (server_env env esid srv) now s
        in drop_client env decode esid (return_engine esid s s' srv)
      else do_handle_connect env now s esid srv)"

definition create_client ::
  "sio_env \<Rightarrow> (bytes \<Rightarrow> bytes option) \<Rightarrow> (ustr set \<Rightarrow> ustr option) \<Rightarrow> bool \<Rightarrow> instant \<Rightarrow> sid \<Rightarrow> sio_server \<Rightarrow> sio_server" where
  "create_client env decode pick timed_out now esid srv =
     (case server_socket esid (engine_server srv) of
        None \<Rightarrow> srv
      | Some s \<Rightarrow>
          (case client_info pick esid srv of
             Some (sid, ns) \<Rightarrow> insert_clients env s ns esid sid False srv
           | None \<Rightarrow> server_handle_connect env decode timed_out now s esid srv))"

definition recv_event ::
  "sio_env \<Rightarrow> (bytes \<Rightarrow> bytes option) \<Rightarrow> (ustr set \<Rightarrow> ustr option) \<Rightarrow> bool \<Rightarrow> instant \<Rightarrow> eio_event \<Rightarrow> sio_server \<Rightarrow> sio_server" where
  "recv_event env decode pick timed_out now event srv =
     (case event of
        OnOpen esid \<Rightarrow> create_client env decode pick timed_out now esid srv
      | OnClose esid \<Rightarrow> drop_client env decode esid srv
      | _ \<Rightarrow> srv)"

text \<open>One turn of the polling task of a client; it goes on until the stream ends.\<close>

definition client_poll ::
  "sio_env \<Rightarrow> instant \<Rightarrow> sid \<Rightarrow> sid \<Rightarrow> namespace \<Rightarrow> sio_socket \<Rightarrow> sio_server \<Rightarrow> sio_server \<times> bool" where
  "client_poll env now esid sid ns sk srv =
     (let (srv, item) = on_client esid sid ns (sio_poll_packet (server_env env esid srv) now) sk srv in
      (srv, case item of RawEnd \<Rightarrow> False | RawPanic \<Rightarrow> False | RawItem _ \<Rightarrow> True))"

section \<open>The handle of a client\<close>

record server_client =
  sc_sid :: sid
  sc_nsp :: namespace

definition sc_join :: "server_client \<Rightarrow> room list \<Rightarrow> sio_server \<Rightarrow> sio_server" where
  "sc_join c room_names srv = join (sc_nsp c) room_names (sc_sid c) srv"

definition sc_leave :: "server_client \<Rightarrow> room list \<Rightarrow> sio_server \<Rightarrow> sio_server" where
  "sc_leave c room_names srv = leave (sc_nsp c) room_names (sc_sid c) srv"

definition sc_emit_to where
  "sc_emit_to env decode order c room_names event d srv =
     emit_to env decode order (sc_nsp c) room_names event d srv"

definition sc_emit_to_with_ack where
  "sc_emit_to_with_ack env decode order now c room_names event d timeout srv =
     emit_to_with_ack env decode order now (sc_nsp c) room_names event d timeout srv"

declare join_def [step_simps] leave_def [step_simps] sc_join_def [step_simps] sc_leave_def [step_simps]
  emit_to_def [step_simps] emit_to_with_ack_def [step_simps]

section \<open>Rooms as a relation\<close>

text \<open>
  What the server relies on in its registry of rooms, over the relation between namespaces,
  rooms and members that a registry stands for: joining adds a member, leaving removes one,
  and removing sessions keeps the members of all others.
\<close>

locale room_registry =
  fixes members :: "'r \<Rightarrow> (namespace \<times> room \<times> sid) set"
    and join_room :: "namespace \<Rightarrow> sid \<Rightarrow> room \<Rightarrow> 'r \<Rightarrow> 'r"
    and leave_room :: "namespace \<Rightarrow> sid \<Rightarrow> room \<Rightarrow> 'r \<Rightarrow> 'r"
    and retain :: "(sid \<Rightarrow> bool) \<Rightarrow> 'r \<Rightarrow> 'r"
  assumes members_join: "members (join_room ns sid room r) = insert (ns, room, sid) (members r)"
    and members_leave: "members (leave_room ns sid room r) = members r - {(ns, room, sid)}"
    and members_retain: "members (retain keep r) = {(ns, room, sid) \<in> members r. keep sid}"
begin

lemma members_join_all:
  "members (fold (join_room ns sid) room_names r) = members r \<union> {ns} \<times> set room_names \<times> {sid}"
  by (induction room_names arbitrary: r) (auto simp: members_join)

lemma members_leave_all:
  "members (fold (leave_room ns sid) room_names r) = members r - {ns} \<times> set room_names \<times> {sid}"
  by (induction room_names arbitrary: r) (auto simp: members_leave)

end

definition room_members :: "rooms \<Rightarrow> (namespace \<times> room \<times> sid) set" where
  "room_members rs =
     {(ns, room, sid). \<exists>nsp_rooms sids. rs ns = Some nsp_rooms \<and> nsp_rooms room = Some sids \<and> sid \<in> sids}"

interpretation registry: room_registry room_members join_one leave_one retain_rooms
proof
  fix ns sid room and r :: rooms
  show "room_members (join_one ns sid room r) = insert (ns, room, sid) (room_members r)"
    by (cases "r ns") (auto simp: room_members_def join_one_def split: option.splits if_splits)
  show "room_members (leave_one ns sid room r) = room_members r - {(ns, room, sid)}"
    by (cases "r ns") (auto simp: room_members_def leave_one_def split: option.splits if_splits)
  show "room_members (retain_rooms keep r) = {(ns, room, sid) \<in> room_members r. keep sid}" for keep
    by (auto simp: room_members_def retain_rooms_def)
qed

lemma sids_loop_eq:
  "sids_loop rc names acc = acc \<union> {sid. \<exists>room\<in>set names. \<exists>sids. rc room = Some sids \<and> sid \<in> sids} \<union>
     {room \<in> set names. rc room = None}"
  by (induction rc names acc rule: sids_loop.induct) (auto split: option.splits)

section \<open>Lemmas on clients\<close>

context base64
begin

lemma sio_sid_roundtrip:
  assumes "wf_str esid" and "45 \<notin> set esid"
  shows "sio_sid_decode decode (sio_sid encode esid seq) = Some esid"
proof -
  have "wf_str (esid @ str ''-'' @ dec (unat seq))" using assms(1) by (simp add: ascii_wf_str scalar_def)
  then have "from_utf8 (as_bytes (esid @ str ''-'' @ dec (unat seq))) = Some (esid @ str ''-'' @ dec (unat seq))"
    by (rule from_utf8_as_bytes)
  moreover have "split_on 45 (esid @ str ''-'' @ dec (unat seq)) = esid # split_on 45 (dec (unat seq))"
    using split_on_sep [OF assms(2)] by simp
  ultimately show ?thesis by (simp only: sio_sid_decode_def sio_sid_def decode_encode) simp
qed

lemma eio_sid_plain: "wf_str (eio_sid encode n) \<and> 45 \<notin> set (eio_sid encode n)"
  using encode_char by (auto simp: eio_sid_def)

end

text \<open>What a call on one client leaves alone: everything of other engine sessions.\<close>

lemma return_engine_fields [simp]:
  "ns_rooms (return_engine esid s s' srv) = ns_rooms srv" "clients (return_engine esid s s' srv) = clients srv"
  "ns_on (return_engine esid s s' srv) = ns_on srv" "sid_generator (return_engine esid s s' srv) = sid_generator srv"
  by (simp_all add: return_engine_def Let_def)

lemma return_engine_other:
  "e \<noteq> esid \<Longrightarrow> sockets (engine_server (return_engine esid s s' srv)) e = sockets (engine_server srv) e"
  "e \<noteq> esid \<Longrightarrow> polling_handles (engine_server (return_engine esid s s' srv)) e = polling_handles (engine_server srv) e"
  by (simp_all add: return_engine_def return_events_def Let_def split: option.splits)

lemma on_client_frame:
  assumes "on_client esid sid ns f sk srv = (srv', r)"
  shows "ns_rooms srv' = ns_rooms srv" and "ns_on srv' = ns_on srv"
    and "e \<noteq> esid \<Longrightarrow> clients srv' e = clients srv e"
    and "e \<noteq> esid \<Longrightarrow> sockets (engine_server srv') e = sockets (engine_server srv) e"
    and "e \<noteq> esid \<Longrightarrow> polling_handles (engine_server srv') e = polling_handles (engine_server srv) e"
  using assms by (auto simp: on_client_def Let_def return_engine_other split: prod.splits)

lemma queue_emit_multi:
  assumes "connected s" and "transport s = ServerPolling" and "\<And>out b. net out (Queue b) = Inr 200"
  shows "socket_emit_multi encode net ps s =
    (s\<lparr>wire_out := wire_out s @ map (\<lambda>p. Queue (bytes_from_packet encode p)) ps\<rparr>, Inr ())"
proof -
  have wire: "transport_emit encode net ServerPolling out (packet_data encode p) = (out @ [Queue (bytes_from_packet encode p)], Inr ())" for out p
    using assms(3) by (cases "eptype p")
      (simp_all add: transport_emit_wire transport_wire_def packet_data_def polling_body_def bytes_from_packet_def transport_outcome_def)
  have "emit_multi_loop encode net ps s = (s\<lparr>wire_out := wire_out s @ map (\<lambda>p. Queue (bytes_from_packet encode p)) ps\<rparr>, Inr ())"
    if "transport s = ServerPolling" for s
    using that by (induction ps arbitrary: s) (simp_all add: wire)
  with assms(1,2) show ?thesis by (simp add: socket_emit_multi_def)
qed

lemma queued_queues [simp]: "queued (map (\<lambda>p. Queue (f p)) ps) = map f ps"
  by (induction ps) (simp_all add: queued_def)

text \<open>The event packet for a client, as messages of its polling queue.\<close>

definition event_messages :: "sio_env \<Rightarrow> namespace \<Rightarrow> sio_event \<Rightarrow> sio_payload \<Rightarrow> bytes list" where
  "event_messages env ns e d =
     map (bytes_from_packet (env_encode env))
       (engine_packets (env_to_string env) (build_packet_for_payload d (Some e) ns None False))"

lemma emit_to_one_session:
  assumes "client decode sid ns srv = Some sk" and "sio_sid_decode decode sid = Some esid"
    and "sk_connected sk" and "sk_nsp sk = ns" and "polling_session esid bs (engine_server srv)"
  shows "polling_session esid (bs @ event_messages env ns e d) (engine_server (emit_to_one env decode ns e d sid srv))"
proof -
  let ?es = "engine_server srv" and ?ps = "engine_packets (env_to_string env) (build_packet_for_payload d (Some e) ns None False)"
  from assms(5) obtain s h where s: "sockets ?es esid = Some s" "connected s" "transport s = ServerPolling"
    and h: "polling_handles ?es esid = Some h" "pending h = bs"
    by (auto simp: polling_session_def)
  let ?s = "lend_events ?es s" and ?ws = "map (\<lambda>p. Queue (bytes_from_packet (env_encode env) p)) ?ps"
  have "server_net (env_net env) ?es esid out (Queue b) = Inr 200" for out b using h(1) by (simp add: server_net_def)
  then have "socket_emit_multi (env_encode env) (server_net (env_net env) ?es esid) ?ps ?s = (?s\<lparr>wire_out := wire_out ?s @ ?ws\<rparr>, Inr ())"
    using s by (intro queue_emit_multi) simp_all
  then have "sio_emit (server_env env esid srv) e d (sk\<lparr>engine := ?s\<rparr>) =
      (sk\<lparr>engine := ?s\<lparr>wire_out := wire_out ?s @ ?ws\<rparr>\<rparr>, Inr ())"
    using s assms(3,4)
    by (simp add: sio_emit_def with_engine_def raw_emit_def raw_send_packets server_env_def lift_engine_def)
  then show ?thesis using s h assms(1,2)
    by (simp add: emit_to_one_def on_client_def server_socket_def return_engine_def return_events_def polling_session_def
        event_messages_def comp_def Let_def)
qed

lemma emit_to_one_frame:
  assumes "sio_sid_decode decode sid \<noteq> Some esid"
  shows "polling_session esid bs (engine_server (emit_to_one env decode ns e d sid srv)) = polling_session esid bs (engine_server srv)"
    and "clients (emit_to_one env decode ns e d sid srv) esid = clients srv esid"
proof -
  let ?srv' = "emit_to_one env decode ns e d sid srv"
  have "sockets (engine_server ?srv') esid = sockets (engine_server srv) esid \<and>
      polling_handles (engine_server ?srv') esid = polling_handles (engine_server srv) esid \<and>
      clients ?srv' esid = clients srv esid"
  proof (cases "client decode sid ns srv")
    case (Some sk)
    then obtain i where i: "sio_sid_decode decode sid = Some i" by (auto simp: client_def split: option.splits)
    obtain srv1 r where o: "on_client i sid ns (sio_emit (server_env env i srv) e d) sk srv = (srv1, r)" by fastforce
    from i Some o have "?srv' = srv1" by (simp add: emit_to_one_def)
    with on_client_frame(3-5) [OF o, of esid] assms i show ?thesis by auto
  qed (simp add: emit_to_one_def)
  then show "polling_session esid bs (engine_server ?srv') = polling_session esid bs (engine_server srv)"
    and "clients ?srv' esid = clients srv esid"
    by (simp_all add: polling_session_def)
qed

text \<open>The outcome of waiting for the first packet of an engine session.\<close>

lemma connect_registers:
  assumes "base64 (env_encode env) decode" and "wf_str esid" and "45 \<notin> set esid"
    and "raw_stream_next (server_env env esid (srv\<lparr>sid_generator := sid_generator srv + 1\<rparr>)) now s = (s', RawItem (Inr p))"
    and "ptype p = Connect" and "sid = fst (sio_sid_generate (env_encode env) esid srv)"
    and "clients srv esid = None"
  shows "case ns_on srv (nsp p) of
      None \<Rightarrow> client decode sid (nsp p) (do_handle_connect env now s esid srv) = None
    | Some handlers \<Rightarrow> \<exists>sk. client decode sid (nsp p) (do_handle_connect env now s esid srv) = Some sk \<and>
        sk_nsp sk = nsp p \<and> sk_connected sk \<and> on sk = handlers \<and>
        calls sk = (if EvConnect \<in> handlers then [EventCall EvConnect None None] else []) \<and> \<not> ended sk"
proof -
  have dec_sid: "sio_sid_decode decode sid = Some esid"
    using base64.sio_sid_roundtrip [OF assms(1-3)] assms(6) by (simp add: sio_sid_generate_def Let_def)
  let ?srv1 = "return_engine esid s s' (srv\<lparr>sid_generator := sid_generator srv + 1\<rparr>)"
  have handle: "do_handle_connect env now s esid srv = insert_clients env s' (nsp p) esid sid True ?srv1"
    using assms(4-6) by (simp add: do_handle_connect_def sio_sid_generate_def connect_loop.simps Let_def)
  show ?thesis
  proof (cases "ns_on srv (nsp p)")
    case None
    with handle dec_sid assms(7) show ?thesis by (simp add: insert_clients_def client_def)
  next
    case (Some handlers)
    let ?sk = "connect_callback (server_client_new s' (nsp p) handlers)"
    obtain sk r where f: "sio_handshake (server_env env esid ?srv1) (JObject [(str ''sid'', JString sid)])
        (?sk\<lparr>engine := (case server_socket esid (engine_server ?srv1) of Some s \<Rightarrow> s | None \<Rightarrow> engine ?sk)\<rparr>) = (sk, r)"
      by fastforce
    have "client decode sid (nsp p) (do_handle_connect env now s esid srv) = Some sk"
      unfolding handle using Some dec_sid f by (simp add: insert_clients_def on_client_def client_def Let_def)
    moreover have "sk_nsp sk = nsp p \<and> sk_connected sk \<and> on sk = handlers \<and>
        calls sk = (if EvConnect \<in> handlers then [EventCall EvConnect None None] else []) \<and> \<not> ended sk"
      using f by (auto simp: sio_handshake_def with_engine_def connect_callback_def server_client_new_def handle_connect_def
          sio_socket_new_def sio_callback_def Let_def split: prod.splits if_splits)
    ultimately show ?thesis using Some by simp
  qed
qed

section \<open>Properties\<close>

text \<open>
  C13: The registry of rooms implements a relation of members: joining rooms adds exactly the
  given member to each of them, leaving removes exactly it, and dropping an engine session
  removes the sessions that belong to it from every room of every namespace and keeps all
  others.
\<close>

theorem rooms_refinement:
  "room_members (ns_rooms (join ns names sid srv)) =
     room_members (ns_rooms srv) \<union> {ns} \<times> set names \<times> {sid} \<and>
   room_members (ns_rooms (leave ns names sid srv)) =
     room_members (ns_rooms srv) - {ns} \<times> set names \<times> {sid} \<and>
   room_members (ns_rooms (drop_client env decode esid srv)) =
     {(n, room, s) \<in> room_members (ns_rooms srv). sio_sid_decode decode s \<noteq> Some esid}"
  by (simp add: join_def leave_def drop_client_def Let_def registry.members_join_all
      registry.members_leave_all registry.members_retain)

text \<open>
  An emission to rooms of a namespace that has any room addresses exactly the members of
  the rooms that exist, each once however many of the rooms it is in, and takes every other
  name for a session id. In a namespace without any room it addresses nobody.
\<close>

theorem emission_targets:
  "sids_to_emit ns names srv =
     (if ns_rooms srv ns = None then {}
      else {sid. \<exists>room\<in>set names. (ns, room, sid) \<in> room_members (ns_rooms srv)} \<union>
        {name \<in> set names. the (ns_rooms srv ns) name = None})"
  by (auto simp: sids_to_emit_def sids_loop_eq room_members_def split: option.splits)

text \<open>
  A session id tells its engine session: the id made for an engine session of the engine
  server decodes to that engine session, so clients are found again under their id.
\<close>

theorem session_id_roundtrip:
  assumes "base64 encode decode"
  shows "sio_sid_decode decode (sio_sid encode (eio_sid encode n) m) = Some (eio_sid encode n)"
  using base64.sio_sid_roundtrip [OF assms] base64.eio_sid_plain [OF assms] by blast

theorem session_id_roundtrip_witness:
  "sio_sid_decode rfc_decode (sio_sid rfc_encode (eio_sid rfc_encode 3) 8) = Some (eio_sid rfc_encode 3)"
  by (rule session_id_roundtrip [OF rfc4648.base64_axioms])

definition example_esid :: sid where
  "example_esid = eio_sid rfc_encode 0"

definition example_sid :: sid where
  "example_sid = sio_sid rfc_encode example_esid 0"

definition example_server :: sio_server where
  "example_server =
     \<lparr>ns_on = [str ''/'' \<mapsto> {EvMessage}], ns_rooms = [str ''/'' \<mapsto> [str ''r'' \<mapsto> {example_sid}]],
      clients = [example_esid \<mapsto> [example_sid \<mapsto> [str ''/'' \<mapsto> example_sio {EvMessage}]]],
      engine_server =
        \<lparr>srv_port = 80, srv_option = server_option_default, id_generator = 1,
         polling_handles = [example_esid \<mapsto> \<lparr>posted = [], pending = []\<rparr>], polling_buffer = 100,
         srv_events = \<lparr>receiver_alive = True, events_sent = []\<rparr>,
         sockets = [example_esid \<mapsto> example_socket ServerPolling]\<rparr>,
      sid_generator = 1\<rparr>"

lemma example_sid_decode: "sio_sid_decode rfc_decode example_sid = Some example_esid"
  unfolding example_sid_def example_esid_def
  using base64.sio_sid_roundtrip [OF rfc4648.base64_axioms] base64.eio_sid_plain [OF rfc4648.base64_axioms] by blast

text \<open>
  C27: Dropping an engine session forgets it: its clients are gone, its engine socket is
  removed, none of its sessions can be found or addressed through a room, and emitting to
  them does nothing; the clients of all other engine sessions stay.
\<close>

theorem drop_client_forgets:
  assumes "sio_sid_decode decode sid = Some esid"
  shows "let srv' = drop_client env decode esid srv in
    client decode sid ns srv' = None \<and> sockets (engine_server srv') esid = None \<and>
    (\<forall>n room. (n, room, sid) \<notin> room_members (ns_rooms srv')) \<and>
    emit_to_one env decode ns e d sid srv' = srv' \<and>
    (\<forall>other. other \<noteq> esid \<longrightarrow> clients srv' other = clients srv other)"
proof -
  let ?srv' = "drop_client env decode esid srv"
  have "client decode sid ns ?srv' = None" using assms by (simp add: client_def drop_client_def Let_def)
  moreover have "room_members (ns_rooms ?srv') =
      {(n, room, s) \<in> room_members (ns_rooms srv). sio_sid_decode decode s \<noteq> Some esid}"
    by (simp add: drop_client_def Let_def registry.members_retain)
  ultimately show ?thesis using assms
    by (simp add: emit_to_one_def Let_def) (simp add: drop_client_def Let_def close_socket_sockets)
qed

theorem drop_client_forgets_witness:
  "client rfc_decode example_sid (str ''/'') (drop_client example_env rfc_decode example_esid example_server) = None"
  using drop_client_forgets [OF example_sid_decode, of example_env example_server] by (simp add: Let_def)

text \<open>
  C26: A new client is registered: when the first packet of a new engine session is a connect
  packet for a namespace the server knows, the client can be found under its new session id
  and this namespace, belongs to the namespace, is connected and has been told of its
  connection; a connect packet for an unknown namespace registers nobody.
\<close>

theorem client_registered:
  assumes "base64 (env_encode env) decode" and "wf_str esid" and "45 \<notin> set esid"
    and "raw_stream_next (server_env env esid (srv\<lparr>sid_generator := sid_generator srv + 1\<rparr>)) now s = (s', RawItem (Inr p))"
    and "ptype p = Connect" and "sid = fst (sio_sid_generate (env_encode env) esid srv)"
    and "clients srv esid = None"
  shows "case ns_on srv (nsp p) of
      None \<Rightarrow> client decode sid (nsp p) (do_handle_connect env now s esid srv) = None
    | Some handlers \<Rightarrow> \<exists>sk. client decode sid (nsp p) (do_handle_connect env now s esid srv) = Some sk \<and>
        sk_nsp sk = nsp p \<and> sk_connected sk \<and> on sk = handlers \<and>
        calls sk = (if EvConnect \<in> handlers then [EventCall EvConnect None None] else [])"
  using connect_registers [OF assms] by (auto split: option.splits)

definition example_connect :: sio_packet where
  "example_connect = sio_packet_new Connect (str ''/'') None None 0 None"

definition example_arrival :: eio_socket where
  "example_arrival = (example_socket ServerPolling)
     \<lparr>generator := [Inr (packet_new Message (bytes_from_sio_packet print_json example_connect))]\<rparr>"

lemma example_arrives:
  assumes "generator s = generator example_arrival"
  shows "\<exists>s' p. raw_stream_next (server_env example_env example_esid srv) 0 s = (s', RawItem (Inr p)) \<and>
    ptype p = Connect \<and> nsp p = str ''/''"
proof -
  let ?env = "server_env example_env example_esid srv" and ?p = example_connect
  have env: "env_to_string ?env = print_json" "env_from_str ?env = parse_json"
    by (simp_all add: server_env_def example_env_def)
  have "wf_sio_packet ?p" by (simp add: wf_sio_packet_def example_connect_def sio_packet_new_def)
  then have "\<exists>s'. raw_stream_next ?env 0 s = (s', RawItem (Inr (arrived ?p (map edata ([] :: eio_packet list))))) \<and> generator s' = []"
    using compact.serde_json_axioms env assms
    by (intro raw_stream_arrived [where ps = "[]" and rest = "[]"
          and m = "packet_new Message (bytes_from_sio_packet print_json ?p)"])
      (simp_all add: example_connect_def sio_packet_new_def example_arrival_def)
  moreover have "ptype (arrived ?p atts) = Connect" "nsp (arrived ?p atts) = str ''/''" for atts
    by (simp_all add: arrived_def received_def example_connect_def sio_packet_new_def)
  ultimately show ?thesis by blast
qed

lemma example_esid_plain: "wf_str example_esid" "45 \<notin> set example_esid"
  using base64.eio_sid_plain [OF rfc4648.base64_axioms] by (simp_all add: example_esid_def)

theorem client_registered_witness:
  "let srv = example_server\<lparr>clients := Map.empty\<rparr>;
       sid = fst (sio_sid_generate rfc_encode example_esid srv)
   in \<exists>sk. client rfc_decode sid (str ''/'') (do_handle_connect example_env 0 example_arrival example_esid srv) = Some sk \<and>
     sk_connected sk"
proof -
  let ?srv = "example_server\<lparr>clients := Map.empty\<rparr>"
  obtain s' p where p: "raw_stream_next (server_env example_env example_esid (?srv\<lparr>sid_generator := sid_generator ?srv + 1\<rparr>)) 0
      example_arrival = (s', RawItem (Inr p))" "ptype p = Connect" "nsp p = str ''/''"
    using example_arrives [of example_arrival] by blast
  have "clients ?srv example_esid = None" "ns_on ?srv (str ''/'') = Some {EvMessage}" "env_encode example_env = rfc_encode"
    by (simp_all add: example_server_def example_env_def)
  with client_registered [OF example_env_laws(1) example_esid_plain p(1,2) refl] p(3) show ?thesis
    by (auto simp: Let_def)
qed

end
