(* ===== verification/Sio_Sessions.thy ===== *)
theory Sio_Sessions
  imports Sio_Server "HOL-Library.List_Lexorder"
begin

text \<open>
  Runs of the Socket.IO server (\<open>socketio/src/server/server.rs\<close>): the states a built server
  reaches by events of the engine, calls of its interface and turns of the polling tasks,
  in any order, with the invariant that its registry of clients keeps, and what follows for
  the emission to rooms. In these runs tasks are not interrupted by others; in particular,
  two tasks that wait for the connect packet of one engine session do not overlap. What goes
  wrong when a session closes within the insertion of its client is shown apart.
\<close>

section \<open>Runs\<close>

text \<open>
  The steps: an event of the engine, calls of the interface, a turn of the polling task of
  a registered client, and any change of the engine server by requests and timers.
\<close>

datatype srv_op =
    NsEvent bool instant eio_event
  | NsEmit namespace "room list" sio_event sio_payload
  | NsEmitWithAck instant namespace "room list" sio_event sio_payload nat
  | NsJoin server_client "room list"
  | NsLeave server_client "room list"
  | NsPoll instant sid namespace
  | NsEngine eio_server

text \<open>What a run takes from its surroundings, with the iteration orders of hash tables.\<close>

record srv_env =
  se_env :: sio_env
  se_decode :: "bytes \<Rightarrow> bytes option"
  se_order :: "sid set \<Rightarrow> sid list"
  se_pick :: "ustr set \<Rightarrow> ustr option"

definition poll_client :: "srv_env \<Rightarrow> instant \<Rightarrow> sid \<Rightarrow> namespace \<Rightarrow> sio_server \<Rightarrow> sio_server" where
  "poll_client env now sid ns srv =
     (case (client (se_decode env) sid ns srv, sio_sid_decode (se_decode env) sid) of
        (Some sk, Some esid) \<Rightarrow> fst (client_poll (se_env env) now esid sid ns sk srv)
      | _ \<Rightarrow> srv)"

fun srv_apply :: "srv_env \<Rightarrow> srv_op \<Rightarrow> sio_server \<Rightarrow> sio_server" where
  "srv_apply env (NsEvent timed_out now ev) srv =
     recv_event (se_env env) (se_decode env) (se_pick env) timed_out now ev srv"
| "srv_apply env (NsEmit ns names e d) srv =
     emit_to (se_env env) (se_decode env) (se_order env) ns names e d srv"
| "srv_apply env (NsEmitWithAck now ns names e d t) srv =
     emit_to_with_ack (se_env env) (se_decode env) (se_order env) now ns names e d t srv"
| "srv_apply env (NsJoin c names) srv = sc_join c names srv"
| "srv_apply env (NsLeave c names) srv = sc_leave c names srv"
| "srv_apply env (NsPoll now sid ns) srv = poll_client env now sid ns srv"
| "srv_apply env (NsEngine es) srv = srv\<lparr>engine_server := es\<rparr>"

text \<open>The engine server announces sessions with the ids that it generates.\<close>

fun engine_id :: "srv_env \<Rightarrow> srv_op \<Rightarrow> bool" where
  "engine_id env (NsEvent timed_out now (OnOpen esid)) \<longleftrightarrow> (\<exists>n. esid = eio_sid (env_encode (se_env env)) n)"
| "engine_id env op \<longleftrightarrow> True"

inductive srv_reach :: "srv_env \<Rightarrow> sio_server \<Rightarrow> bool" for env where
  srv_built: "sb_build b = Some srv \<Longrightarrow> srv_reach env srv"
| srv_turn: "srv_reach env srv \<Longrightarrow> engine_id env op \<Longrightarrow> srv_reach env (srv_apply env op srv)"

text \<open>
  Base64 is lawful, a hash set is iterated completely and once, and the first element of a
  hash map is one of its keys.
\<close>

definition lawful :: "srv_env \<Rightarrow> bool" where
  "lawful env \<longleftrightarrow>
     base64 (env_encode (se_env env)) (se_decode env) \<and>
     (\<forall>A. finite A \<longrightarrow> set (se_order env A) = A \<and> distinct (se_order env A)) \<and>
     (\<forall>A. finite A \<longrightarrow> A \<noteq> {} \<longrightarrow> (\<exists>x\<in>A. se_pick env A = Some x)) \<and> se_pick env {} = None"

section \<open>The invariant\<close>

text \<open>
  One client per engine session: filed under the engine session of its id, in its own
  namespace, with the callbacks of that namespace.
\<close>

definition filed :: "(bytes \<Rightarrow> bytes option) \<Rightarrow> sio_server \<Rightarrow> bool" where
  "filed decode srv \<longleftrightarrow>
     (\<forall>esid m. clients srv esid = Some m \<longrightarrow>
        (\<exists>sid ns sk handlers. m = [sid \<mapsto> [ns \<mapsto> sk]] \<and> sio_sid_decode decode sid = Some esid \<and>
           ns_on srv ns = Some handlers \<and> identity sk = (ns, handlers, True)))"

lemma filed_update [simp]:
  "filed decode (srv\<lparr>ns_rooms := rs\<rparr>) = filed decode srv" "filed decode (srv\<lparr>engine_server := es\<rparr>) = filed decode srv"
  by (simp_all add: filed_def)

lemma filed_client:
  assumes "filed decode srv" and "client decode sid ns srv = Some sk"
  obtains esid handlers where "sio_sid_decode decode sid = Some esid" and "clients srv esid = Some [sid \<mapsto> [ns \<mapsto> sk]]"
    and "ns_on srv ns = Some handlers" and "identity sk = (ns, handlers, True)"
proof -
  from assms(2) obtain esid m nm where m: "sio_sid_decode decode sid = Some esid" "clients srv esid = Some m"
    "m sid = Some nm" "nm ns = Some sk"
    by (auto simp: client_def split: option.splits)
  with assms(1) obtain sid' ns' sk' handlers where f: "m = [sid' \<mapsto> [ns' \<mapsto> sk']]" "ns_on srv ns' = Some handlers"
    "identity sk' = (ns', handlers, True)"
    unfolding filed_def by blast
  from m(3,4) f(1) have "sid' = sid" "ns' = ns" "sk' = sk" by (auto split: if_splits)
  with m f that show thesis by simp
qed

lemma on_client_filed:
  assumes "filed decode srv" and "sio_sid_decode decode sid = Some esid"
    and "\<forall>m. clients srv esid = Some m \<longrightarrow> (\<exists>sk. m = [sid \<mapsto> [ns \<mapsto> sk]])"
    and "ns_on srv ns = Some handlers" and "identity sk = (ns, handlers, True)"
    and "\<And>sk. identity (fst (f sk)) = identity sk"
  shows "filed decode (fst (on_client esid sid ns f sk srv))"
proof -
  let ?s = "case server_socket esid (engine_server srv) of Some s \<Rightarrow> s | None \<Rightarrow> engine sk"
  obtain sk' r where f: "f (sk\<lparr>engine := ?s\<rparr>) = (sk', r)" by fastforce
  have id': "identity sk' = (ns, handlers, True)" using assms(5) assms(6) [of "sk\<lparr>engine := ?s\<rparr>"] f by simp
  have "clients (fst (on_client esid sid ns f sk srv)) = (clients srv)(esid \<mapsto> [sid \<mapsto> [ns \<mapsto> sk']])"
    using assms(3) f by (cases "clients srv esid") (auto simp: on_client_def Let_def)
  moreover have "ns_on (fst (on_client esid sid ns f sk srv)) = ns_on srv"
    using f by (simp add: on_client_def Let_def)
  ultimately show ?thesis using assms(1,2,4) id' by (auto simp: filed_def)
qed

lemma on_registered_filed:
  assumes "filed decode srv" and "client decode sid ns srv = Some sk" and "sio_sid_decode decode sid = Some esid"
    and "\<And>sk. identity (fst (f sk)) = identity sk"
  shows "filed decode (fst (on_client esid sid ns f sk srv))"
  by (rule filed_client [OF assms(1,2)], rule on_client_filed [OF assms(1,3) _ _ _ assms(4)]) (use assms(3) in auto)

lemma emit_to_one_filed: "filed decode srv \<Longrightarrow> filed decode (emit_to_one env decode ns e d sid srv)"
  by (auto simp: emit_to_one_def intro: on_registered_filed split: option.splits)

lemma emit_to_with_ack_one_filed:
  "filed decode srv \<Longrightarrow> filed decode (emit_to_with_ack_one env decode now ns e d t sid srv)"
  by (auto simp: emit_to_with_ack_one_def intro: on_registered_filed split: option.splits)

lemma fold_filed: "(\<And>x srv. filed decode srv \<Longrightarrow> filed decode (g x srv)) \<Longrightarrow> filed decode srv \<Longrightarrow> filed decode (fold g xs srv)"
  by (induction xs arbitrary: srv) simp_all

lemma drop_client_filed: "filed decode srv \<Longrightarrow> filed decode (drop_client env decode esid srv)"
  by (auto simp: filed_def drop_client_def Let_def)

lemma insert_clients_filed:
  assumes "filed decode srv" and "sio_sid_decode decode sid = Some esid"
    and "\<forall>m. clients srv esid = Some m \<longrightarrow> (\<exists>sk. m = [sid \<mapsto> [ns \<mapsto> sk]])"
  shows "filed decode (insert_clients env s ns esid sid b srv)"
proof (cases "ns_on srv ns")
  case (Some handlers)
  have "identity (connect_callback (server_client_new s ns handlers)) = (ns, handlers, True)"
    by (simp add: connect_callback_def handle_connect_def server_client_new_def) (simp add: identity_def sio_socket_new_def)
  with Some assms show ?thesis by (auto simp: insert_clients_def Let_def intro: on_client_filed)
qed (use assms(1) in \<open>simp add: insert_clients_def\<close>)

lemma client_info_filed:
  assumes "filed decode srv" and "\<forall>A. finite A \<longrightarrow> A \<noteq> {} \<longrightarrow> (\<exists>x\<in>A. pick A = Some x)"
  shows "case client_info pick esid srv of
      None \<Rightarrow> clients srv esid = None
    | Some (sid, ns) \<Rightarrow> sio_sid_decode decode sid = Some esid \<and> (\<exists>sk. clients srv esid = Some [sid \<mapsto> [ns \<mapsto> sk]])"
proof (cases "clients srv esid")
  case (Some m)
  with assms(1) obtain sid ns sk where m: "m = [sid \<mapsto> [ns \<mapsto> sk]]" "sio_sid_decode decode sid = Some esid"
    unfolding filed_def by blast
  have "pick {x} = Some x" for x using assms(2) [rule_format, of "{x}"] by auto
  with Some m show ?thesis by (auto simp: client_info_def)
qed (simp add: client_info_def)

context base64
begin

lemma do_handle_connect_filed:
  assumes "filed decode srv" and "env_encode env = encode" and "clients srv (eio_sid encode n) = None"
  shows "filed decode (do_handle_connect env now s (eio_sid encode n) srv)"
proof -
  let ?esid = "eio_sid encode n" and ?sid = "sio_sid encode (eio_sid encode n) (sid_generator srv)"
  let ?srv = "srv\<lparr>sid_generator := sid_generator srv + 1\<rparr>"
  obtain s' outcome where c: "connect_loop (server_env env ?esid ?srv) now s = (s', outcome)" by fastforce
  have kept: "filed decode (return_engine ?esid s s' ?srv)" using assms(1) by (simp add: filed_def)
  have "sio_sid_decode decode ?sid = Some ?esid" using eio_sid_plain by (intro sio_sid_roundtrip) simp_all
  then have "filed decode (insert_clients env s' ns ?esid ?sid True (return_engine ?esid s s' ?srv))" for ns
    using assms(3) by (intro insert_clients_filed [OF kept]) simp_all
  with kept show ?thesis using assms(2) c
    by (cases outcome) (simp_all add: do_handle_connect_def sio_sid_generate_def Let_def)
qed

lemma create_client_filed:
  assumes "filed decode srv" and "env_encode env = encode" and "\<forall>A. finite A \<longrightarrow> A \<noteq> {} \<longrightarrow> (\<exists>x\<in>A. pick A = Some x)"
  shows "filed decode (create_client env decode pick timed_out now (eio_sid encode n) srv)"
proof -
  let ?esid = "eio_sid encode n"
  have info: "case client_info pick ?esid srv of
      None \<Rightarrow> clients srv ?esid = None
    | Some (sid, ns) \<Rightarrow> sio_sid_decode decode sid = Some ?esid \<and> (\<exists>sk. clients srv ?esid = Some [sid \<mapsto> [ns \<mapsto> sk]])"
    by (rule client_info_filed [OF assms(1,3)])
  have cut: "filed decode (drop_client env decode ?esid (return_engine ?esid s s' (srv\<lparr>sid_generator := g\<rparr>)))" for s s' g
    by (rule drop_client_filed) (use assms(1) in \<open>simp add: filed_def\<close>)
  show ?thesis
  proof (cases "server_socket ?esid (engine_server srv)")
    case (Some s)
    show ?thesis
    proof (cases "client_info pick ?esid srv")
      case None
      with info have "clients srv ?esid = None" by simp
      with Some None cut do_handle_connect_filed [OF assms(1,2), of n now s] show ?thesis
        by (simp add: create_client_def server_handle_connect_def sio_sid_generate_def Let_def split: prod.splits)
    next
      case known: (Some i)
      obtain sid ns where i: "i = (sid, ns)" by fastforce
      with info known have "filed decode (insert_clients env s ns ?esid sid False srv)"
        by (intro insert_clients_filed [OF assms(1)]) auto
      with Some known i show ?thesis by (simp add: create_client_def)
    qed
  qed (use assms(1) in \<open>simp add: create_client_def\<close>)
qed

end

lemma poll_client_filed: "filed (se_decode env) srv \<Longrightarrow> filed (se_decode env) (poll_client env now sid ns srv)"
  by (auto simp: poll_client_def client_poll_def case_prod_unfold Let_def intro: on_registered_filed split: option.splits)

lemma srv_apply_filed:
  assumes "lawful env" and "engine_id env op" and "filed (se_decode env) srv"
  shows "filed (se_decode env) (srv_apply env op srv)"
proof (cases op)
  case (NsEvent timed_out now ev)
  have "base64 (env_encode (se_env env)) (se_decode env)" "\<forall>A. finite A \<longrightarrow> A \<noteq> {} \<longrightarrow> (\<exists>x\<in>A. se_pick env A = Some x)"
    using assms(1) by (simp_all add: lawful_def)
  with NsEvent assms(2,3) show ?thesis
    by (cases ev) (auto simp: recv_event_def drop_client_filed intro: base64.create_client_filed)
qed (use assms(3) in \<open>simp_all add: step_simps fold_filed emit_to_one_filed emit_to_with_ack_one_filed poll_client_filed\<close>)

lemma srv_reach_filed: "srv_reach env srv \<Longrightarrow> lawful env \<Longrightarrow> filed (se_decode env) srv"
proof (induction rule: srv_reach.induct)
  case (srv_built b srv)
  then show ?case by (auto simp: sb_build_def filed_def)
qed (rule srv_apply_filed)

text \<open>The number of clients is the number of engine sessions that have one.\<close>

lemma client_count_sessions:
  assumes "lawful env" and "srv_reach env srv"
  shows "client_count srv = card (dom (clients srv))"
proof -
  have "card (dom (the (clients srv esid))) = 1" if "esid \<in> dom (clients srv)" for esid
    using that srv_reach_filed [OF assms(2,1)] by (force simp: filed_def)
  then show ?thesis by (simp add: client_count_def)
qed

section \<open>Rooms\<close>

lemma on_client_rooms [simp]: "ns_rooms (fst (on_client esid sid ns f sk srv)) = ns_rooms srv"
  using on_client_frame(1) [of esid sid ns f sk srv] by (metis prod.collapse)

lemma insert_clients_rooms [simp]: "ns_rooms (insert_clients env s ns esid sid b srv) = ns_rooms srv"
  by (simp add: insert_clients_def Let_def split: option.splits)

lemma emit_one_rooms [simp]:
  "ns_rooms (emit_to_one env decode ns e d sid srv) = ns_rooms srv"
  "ns_rooms (emit_to_with_ack_one env decode now ns e d t sid srv) = ns_rooms srv"
  by (simp_all add: emit_to_one_def emit_to_with_ack_one_def split: option.splits)

lemma fold_rooms: "(\<And>x srv. ns_rooms (g x srv) = ns_rooms srv) \<Longrightarrow> ns_rooms (fold g xs srv) = ns_rooms srv"
  by (induction xs arbitrary: srv) simp_all

lemma drop_client_members: "room_members (ns_rooms (drop_client env decode esid srv)) \<subseteq> room_members (ns_rooms srv)"
  by (auto simp: drop_client_def Let_def registry.members_retain)

lemma recv_event_members:
  "room_members (ns_rooms (recv_event env decode pick timed_out now ev srv)) \<subseteq> room_members (ns_rooms srv)"
proof -
  have cut: "room_members (ns_rooms (drop_client env decode esid (return_engine esid s s' (srv\<lparr>sid_generator := g\<rparr>)))) \<subseteq>
      room_members (ns_rooms srv)" for esid s s' g
    using drop_client_members [of env decode esid "return_engine esid s s' (srv\<lparr>sid_generator := g\<rparr>)"] by simp
  have "ns_rooms (do_handle_connect env now s esid srv) = ns_rooms srv" for s esid
    by (simp add: do_handle_connect_def sio_sid_generate_def Let_def split: prod.splits connect_outcome.splits)
  with cut drop_client_members [of env decode _ srv] show ?thesis
    by (simp add: recv_event_def create_client_def server_handle_connect_def sio_sid_generate_def Let_def
        split: eio_event.splits option.splits prod.splits)
qed

lemma room_members_empty [simp]: "room_members Map.empty = {}"
  by (auto simp: room_members_def)

lemma srv_reach_rooms: "srv_reach env srv \<Longrightarrow> finite (room_members (ns_rooms srv))"
proof (induction rule: srv_reach.induct)
  case (srv_built b srv)
  then show ?case by (auto simp: sb_build_def)
next
  case (srv_turn srv op)
  then show ?case
  proof (cases op)
    case (NsEvent timed_out now ev)
    with srv_turn.IH show ?thesis by (auto intro: finite_subset [OF recv_event_members])
  qed (simp_all add: step_simps fold_rooms
      registry.members_join_all registry.members_leave_all poll_client_def client_poll_def case_prod_unfold Let_def
      split: option.splits)
qed

lemma sids_to_emit_finite:
  assumes "finite (room_members (ns_rooms srv))"
  shows "finite (sids_to_emit ns names srv)"
proof -
  have "sids_to_emit ns names srv \<subseteq> (\<lambda>(n, room, sid). sid) ` room_members (ns_rooms srv) \<union> set names"
    by (force simp: sids_to_emit_def sids_loop_eq room_members_def split: option.splits)
  then show ?thesis by (rule finite_subset) (use assms in simp)
qed

section \<open>Emission in a registered session\<close>

lemma emit_to_one_other:
  assumes "clients srv esid = Some [sid \<mapsto> nm]" and "other \<noteq> sid"
  shows "polling_session esid bs (engine_server (emit_to_one env decode ns e d other srv)) = polling_session esid bs (engine_server srv)"
    and "clients (emit_to_one env decode ns e d other srv) esid = clients srv esid"
proof -
  have "emit_to_one env decode ns e d other srv = srv" if "sio_sid_decode decode other = Some esid"
    using that assms by (simp add: emit_to_one_def client_def)
  then show "polling_session esid bs (engine_server (emit_to_one env decode ns e d other srv)) = polling_session esid bs (engine_server srv)"
    and "clients (emit_to_one env decode ns e d other srv) esid = clients srv esid"
    using emit_to_one_frame [of decode other esid] by (cases "sio_sid_decode decode other = Some esid"; simp)+
qed

lemma emit_others:
  assumes "clients srv esid = Some [sid \<mapsto> nm]" and "sid \<notin> set others"
  shows "polling_session esid bs (engine_server (fold (emit_to_one env decode ns e d) others srv)) = polling_session esid bs (engine_server srv) \<and>
    clients (fold (emit_to_one env decode ns e d) others srv) esid = clients srv esid"
  using assms
proof (induction others arbitrary: srv)
  case (Cons x others)
  then have "x \<noteq> sid" by auto
  note other = emit_to_one_other [OF Cons.prems(1) this]
  with Cons.IH [of "emit_to_one env decode ns e d x srv"] Cons.prems show ?case by simp
qed simp

lemma emission_reaches:
  assumes "lawful env" and "srv_reach env srv" and "client (se_decode env) sid ns srv = Some sk"
    and "sio_sid_decode (se_decode env) sid = Some esid"
    and "sk_connected sk" and "polling_session esid bs (engine_server srv)"
  shows "polling_session esid
    (bs @ (if sid \<in> sids_to_emit ns names srv then event_messages (se_env env) ns e d else []))
    (engine_server (emit_to (se_env env) (se_decode env) (se_order env) ns names e d srv))"
proof -
  let ?sids = "sids_to_emit ns names srv" and ?emit = "emit_to_one (se_env env) (se_decode env) ns e d"
  from filed_client [OF srv_reach_filed [OF assms(2,1)] assms(3)] obtain handlers where
    c: "clients srv esid = Some [sid \<mapsto> [ns \<mapsto> sk]]" "sk_nsp sk = ns"
    using assms(4) by (auto simp: identity_def)
  have order: "set (se_order env ?sids) = ?sids" "distinct (se_order env ?sids)"
    using assms(1) sids_to_emit_finite [OF srv_reach_rooms [OF assms(2)]] by (simp_all add: lawful_def)
  show ?thesis
  proof (cases "sid \<in> ?sids")
    case True
    then obtain pre post where split: "se_order env ?sids = pre @ sid # post" using order(1) by (metis split_list)
    then have others: "sid \<notin> set pre" "sid \<notin> set post" using order(2) by auto
    let ?srv1 = "fold ?emit pre srv"
    note pre = emit_others [OF c(1) others(1), of _ "se_env env" "se_decode env" ns e d]
    then have c1: "client (se_decode env) sid ns ?srv1 = Some sk" "polling_session esid bs (engine_server ?srv1)"
      using assms(4,6) c(1) by (simp_all add: client_def)
    have "clients (?emit sid ?srv1) esid = Some [sid \<mapsto> [ns \<mapsto> fst (sio_emit (server_env (se_env env) esid ?srv1) e d
        (sk\<lparr>engine := (case server_socket esid (engine_server ?srv1) of Some s \<Rightarrow> s | None \<Rightarrow> engine sk)\<rparr>))]]"
      using c1(1) pre c(1) assms(4) by (simp add: emit_to_one_def on_client_def Let_def case_prod_unfold)
    note post = emit_others [OF this others(2), of _ "se_env env" "se_decode env" ns e d]
    from emit_to_one_session [OF c1(1) assms(4,5) c(2) c1(2)] post True split show ?thesis
      by (simp add: emit_to_def)
  next
    case False
    with order(1) emit_others [OF c(1), of "se_order env ?sids"] assms(6) show ?thesis by (simp add: emit_to_def)
  qed
qed

section \<open>An example run\<close>

text \<open>
  A built server; an engine session opens whose first packet is a connect packet, its client
  joins a room.
\<close>

definition example_srv_env :: srv_env where
  "example_srv_env = \<lparr>se_env = example_env, se_decode = rfc_decode, se_order = sorted_list_of_set,
     se_pick = (\<lambda>A. if A = {} then None else Some (Min A))\<rparr>"

definition example_built :: sio_server where
  "example_built = \<lparr>ns_on = [str ''/'' \<mapsto> {EvMessage}], ns_rooms = Map.empty, clients = Map.empty,
     engine_server = the (builder_build (server_builder_new 80)), sid_generator = 0\<rparr>"

definition example_opened :: sio_server where
  "example_opened = srv_apply example_srv_env (NsEvent False 0 (OnOpen example_esid))
     (srv_apply example_srv_env (NsEngine (engine_server example_server\<lparr>sockets := [example_esid \<mapsto> example_arrival]\<rparr>))
       example_built)"

definition example_run :: sio_server where
  "example_run = srv_apply example_srv_env (NsJoin \<lparr>sc_sid = example_sid, sc_nsp = str ''/''\<rparr> [str ''r''])
     (srv_apply example_srv_env (NsEngine (engine_server example_server)) example_opened)"

lemma example_lawful: "lawful example_srv_env"
  using rfc4648.base64_axioms Min_in by (auto simp: lawful_def example_srv_env_def example_env_def)

lemma example_reach: "srv_reach example_srv_env example_run"
proof -
  have "sb_build (sb_register (str ''/'') EvMessage (sio_server_builder_new 80)) = Some example_built"
    by (simp add: sb_build_def sb_register_def sio_server_builder_new_def example_built_def builder_build_def
        server_builder_new_def)
  then have "srv_reach example_srv_env example_built" by (rule srv_built)
  moreover have "engine_id example_srv_env (NsEvent False 0 (OnOpen example_esid))"
    by (auto simp: example_srv_env_def example_env_def example_esid_def)
  ultimately show ?thesis unfolding example_run_def example_opened_def by (intro srv_turn) simp_all
qed

lemma example_opened_client: "\<exists>sk. client rfc_decode example_sid (str ''/'') example_opened = Some sk \<and> sk_connected sk \<and> \<not> ended sk \<and> on sk = {EvMessage}"
proof -
  let ?es = "engine_server example_server\<lparr>sockets := [example_esid \<mapsto> example_arrival]\<rparr>"
  let ?srv = "example_built\<lparr>engine_server := ?es\<rparr>" and ?s = "lend_events ?es example_arrival"
  have "generator ?s = generator example_arrival" by (simp add: lend_events_def split: option.splits)
  then obtain s' p where p: "raw_stream_next (server_env example_env example_esid (?srv\<lparr>sid_generator := sid_generator ?srv + 1\<rparr>)) 0
      ?s = (s', RawItem (Inr p))" "ptype p = Connect" "nsp p = str ''/''"
    using example_arrives by blast
  have "example_opened = do_handle_connect example_env 0 ?s example_esid ?srv"
    by (simp add: example_opened_def example_srv_env_def recv_event_def create_client_def server_socket_def
        client_info_def example_built_def server_handle_connect_def)
  moreover have "example_sid = fst (sio_sid_generate (env_encode example_env) example_esid ?srv)"
    by (simp add: example_sid_def sio_sid_generate_def example_built_def example_env_def)
  ultimately show ?thesis
    using connect_registers [OF example_env_laws(1) example_esid_plain p(1,2)] p(3)
    by (fastforce simp: example_built_def)
qed

lemma example_run_facts:
  "\<exists>sk. client rfc_decode example_sid (str ''/'') example_run = Some sk \<and> sk_connected sk \<and> \<not> ended sk \<and> on sk = {EvMessage}"
  "polling_session example_esid [] (engine_server example_run)"
  "example_sid \<in> sids_to_emit (str ''/'') [str ''r''] example_run"
proof -
  have run: "clients example_run = clients example_opened" "engine_server example_run = engine_server example_server"
    "ns_rooms example_run = join_one (str ''/'') example_sid (str ''r'') (ns_rooms example_opened)"
    by (simp_all add: example_run_def step_simps)
  show "\<exists>sk. client rfc_decode example_sid (str ''/'') example_run = Some sk \<and> sk_connected sk \<and> \<not> ended sk \<and> on sk = {EvMessage}"
    using example_opened_client unfolding client_def run(1) .
  show "polling_session example_esid [] (engine_server example_run)"
    by (simp add: run(2) polling_session_def example_server_def)
  show "example_sid \<in> sids_to_emit (str ''/'') [str ''r''] example_run"
    by (simp add: sids_to_emit_def run(3) join_one_def split: option.splits)
qed

section \<open>A session that ends while it connects\<close>

text \<open>
  The insertion of a client in two parts, between which its task waits for the handshake to
  be sent: what happens up to then, with the client that is going to be stored, and the
  storing. Uninterrupted they are the insertion.
\<close>

definition handshake_client ::
  "sio_env \<Rightarrow> eio_socket \<Rightarrow> namespace \<Rightarrow> sid \<Rightarrow> sid \<Rightarrow> sio_server \<Rightarrow> (sio_server \<times> sio_socket) option" where
  "handshake_client env s ns esid sid srv =
     (case ns_on srv ns of
        None \<Rightarrow> None
      | Some handlers \<Rightarrow>
          let sk = connect_callback (server_client_new s ns handlers);
              s = (case server_socket esid (engine_server srv) of Some s \<Rightarrow> s | None \<Rightarrow> engine sk);
              (sk, _) = sio_handshake (server_env env esid srv) (JObject [(str ''sid'', JString sid)]) (sk\<lparr>engine := s\<rparr>)
          in Some (return_engine esid s (engine sk) srv, sk))"

definition store_client :: "sid \<Rightarrow> sid \<Rightarrow> namespace \<Rightarrow> sio_socket \<Rightarrow> sio_server \<Rightarrow> sio_server" where
  "store_client esid sid ns sk srv =
     (let sid_map = (case clients srv esid of Some m \<Rightarrow> m | None \<Rightarrow> Map.empty);
          nsp_map = (case sid_map sid of Some m \<Rightarrow> m | None \<Rightarrow> Map.empty)
      in srv\<lparr>clients := (clients srv)(esid \<mapsto> sid_map(sid \<mapsto> nsp_map(ns \<mapsto> sk)))\<rparr>)"

lemma insert_clients_parts:
  "insert_clients env s ns esid sid True srv =
     (case handshake_client env s ns esid sid srv of
        None \<Rightarrow> srv
      | Some (srv', sk) \<Rightarrow> store_client esid sid ns sk srv')"
  by (simp add: insert_clients_def handshake_client_def store_client_def on_client_def return_engine_def
      Let_def case_prod_unfold split: option.splits)

text \<open>
  An engine session that closes in between is forgotten too early: its client is stored after
  the session has been dropped, can be found and is counted, although the engine has no
  socket of this session any more.
\<close>

lemma late_client_stored:
  assumes "handshake_client env s ns esid sid srv = Some (srv1, sk)" and "sio_sid_decode decode sid = Some esid"
    and "srv2 = store_client esid sid ns sk (recv_event env decode pick timed_out now (OnClose esid) srv1)"
  shows "client decode sid ns srv2 = Some sk \<and> clients srv2 esid = Some [sid \<mapsto> [ns \<mapsto> sk]] \<and>
    sockets (engine_server srv2) esid = None"
  using assms
  by (simp add: recv_event_def drop_client_def store_client_def client_def close_socket_sockets Let_def)

section \<open>Properties\<close>

text \<open>
  C5: Every client a server has registered can be found: in every state that a built server
  reaches, an engine session has at most one client, the id of the client leads back to the
  engine session, the client is the one found under its id and namespace, and it has the
  callbacks registered for this namespace.
\<close>

theorem sessions_filed:
  assumes "lawful env" and "srv_reach env srv" and "clients srv esid = Some m"
  shows "\<exists>sid ns sk. m = [sid \<mapsto> [ns \<mapsto> sk]] \<and> sio_sid_decode (se_decode env) sid = Some esid \<and>
    client (se_decode env) sid ns srv = Some sk \<and> sk_nsp sk = ns \<and> ns_on srv ns = Some (on sk)"
proof -
  from srv_reach_filed [OF assms(2,1)] assms(3) obtain sid ns sk handlers where
    "m = [sid \<mapsto> [ns \<mapsto> sk]]" "sio_sid_decode (se_decode env) sid = Some esid"
    "ns_on srv ns = Some handlers" "identity sk = (ns, handlers, True)"
    unfolding filed_def by blast
  with assms(3) show ?thesis
    by (intro exI [of _ sid] exI [of _ ns] exI [of _ sk]) (auto simp: client_def identity_def)
qed

theorem sessions_filed_witness:
  "\<exists>m sid ns sk. clients example_run example_esid = Some m \<and> m = [sid \<mapsto> [ns \<mapsto> sk]] \<and>
    client rfc_decode sid ns example_run = Some sk"
proof -
  obtain m where m: "clients example_run example_esid = Some m"
    using example_run_facts(1) example_sid_decode by (auto simp: client_def split: option.splits)
  have "se_decode example_srv_env = rfc_decode" by (simp add: example_srv_env_def)
  with sessions_filed [OF example_lawful example_reach m] m show ?thesis by fastforce
qed

text \<open>
  C6: Emission to rooms reaches its clients. In every state that a built server reaches, a
  connected client on a polling session that is addressed by an emission gets the event
  packet with its attachments appended to its pending messages, exactly once, however many
  of the rooms it is in and whatever other sessions are addressed; nothing is appended for a
  client that is not addressed.
\<close>

theorem room_emission:
  assumes "lawful env" and "srv_reach env srv" and "client (se_decode env) sid ns srv = Some sk"
    and "sio_sid_decode (se_decode env) sid = Some esid"
    and "sk_connected sk" and "polling_session esid bs (engine_server srv)"
  shows "polling_session esid
    (bs @ (if sid \<in> sids_to_emit ns names srv then event_messages (se_env env) ns e d else []))
    (engine_server (emit_to (se_env env) (se_decode env) (se_order env) ns names e d srv))"
  by (rule emission_reaches [OF assms])

theorem room_emission_witness:
  "polling_session example_esid (event_messages example_env (str ''/'') EvMessage (PJson JNull))
    (engine_server (emit_to example_env rfc_decode sorted_list_of_set (str ''/'') [str ''r''] EvMessage (PJson JNull) example_run))"
proof -
  have env: "se_env example_srv_env = example_env" "se_decode example_srv_env = rfc_decode"
    "se_order example_srv_env = sorted_list_of_set"
    by (simp_all add: example_srv_env_def)
  obtain sk where "client rfc_decode example_sid (str ''/'') example_run = Some sk" "sk_connected sk"
    using example_run_facts(1) by blast
  from room_emission [OF example_lawful example_reach this(1) [folded env(2)] example_sid_decode [folded env(2)] this(2)
      example_run_facts(2), of "[str ''r'']" EvMessage "PJson JNull"] example_run_facts(3)
  show ?thesis by (simp add: env)
qed

end
