(* ===== verification/Engine_Client.thy ===== *)
theory Engine_Client
  imports Engine_Socket
begin

text \<open>
  The construction of client sockets (\<open>engineio/src/socket/builder.rs\<close>,
  \<open>engineio/src/header.rs\<close>): headers, the handshake over either transport, the choice of
  the transport and the fallback. A URL is the parts of it that the sources read and
  change. What a server answers is an argument: the items of a polling stream and the
  messages of a websocket for a URL and headers, or the error of opening them.
\<close>

section \<open>Headers\<close>

type_synonym header_map = "ustr \<rightharpoonup> bytes"
type_synonym http_headers = "(ustr \<times> bytes) list"

definition header_value_from_string :: "ustr \<Rightarrow> bytes" where
  "header_value_from_string s = as_bytes s"

definition header_map_new :: header_map where
  "header_map_new = Map.empty"

text \<open>Inserting returns the value that was there.\<close>

definition header_insert :: "ustr \<Rightarrow> bytes \<Rightarrow> header_map \<Rightarrow> header_map \<times> bytes option" where
  "header_insert k v m = (m(k \<mapsto> v), m k)"

text \<open>
  Names and values are checked by the \<open>http\<close> crate; the map is read in an order that is an
  argument.
\<close>

definition http_headers_try_from ::
  "(ustr \<Rightarrow> ustr option) \<Rightarrow> (bytes \<Rightarrow> bytes option) \<Rightarrow> (header_map \<Rightarrow> (ustr \<times> bytes) list) \<Rightarrow> header_map \<Rightarrow>
     eio_error + http_headers" where
  "http_headers_try_from name_from_str value_from_bytes into_iter headers =
     try_map (\<lambda>(k, v).
       try_bind (ok_or (name_from_str k) InvalidHeaderNameFromReqwest) (\<lambda>k'.
       try_bind (ok_or (value_from_bytes v) InvalidHeaderValueFromReqwest) (\<lambda>v'.
       Inr (k', v')))) (into_iter headers)"

section \<open>Addresses\<close>

record url =
  scheme :: ustr
  authority :: ustr
  url_path :: ustr
  query :: "(ustr \<times> ustr) list"

definition append_pair :: "ustr \<Rightarrow> ustr \<Rightarrow> url \<Rightarrow> url" where
  "append_pair k v u = u\<lparr>query := query u @ [(k, v)]\<rparr>"

definition ENGINE_IO_VERSION :: nat where
  "ENGINE_IO_VERSION = 4"

section \<open>The builder\<close>

record socket_builder =
  b_url :: url
  b_should_pong :: bool
  b_headers :: "header_map option"
  b_handshake :: "handshake_packet option"
  b_channel_size :: usize

definition socket_builder_new :: "url \<Rightarrow> socket_builder" where
  "socket_builder_new u =
     (let u = append_pair (str ''EIO'') (dec ENGINE_IO_VERSION) u;
          u = (if url_path u = str ''/'' then u\<lparr>url_path := str ''/engine.io/''\<rparr> else u)
      in \<lparr>b_url = u, b_should_pong = True, b_headers = None, b_handshake = None, b_channel_size = 100\<rparr>)"

definition builder_headers :: "header_map \<Rightarrow> socket_builder \<Rightarrow> socket_builder" where
  "builder_headers h b = b\<lparr>b_headers := Some h\<rparr>"

definition builder_channel_buf :: "usize \<Rightarrow> socket_builder \<Rightarrow> socket_builder" where
  "builder_channel_buf n b = b\<lparr>b_channel_size := n\<rparr>"

text \<open>The functions and servers outside of the repository.\<close>

record client_env =
  ce_encode :: "bytes \<Rightarrow> ustr"
  ce_decode :: "bytes \<Rightarrow> bytes option"
  ce_net :: network
  ce_from_slice :: "bytes \<Rightarrow> handshake_packet option"
  ce_headers :: "header_map \<Rightarrow> eio_error + http_headers"
  ce_poll :: "url \<Rightarrow> http_headers option \<Rightarrow> eio_error + (eio_error + bytes) list"
  ce_ws :: "url \<Rightarrow> http_headers option \<Rightarrow> eio_error + (unit + ws_message) list"
  ce_set_scheme :: "ustr \<Rightarrow> url \<Rightarrow> url option"

definition polling_url :: "url \<Rightarrow> url" where
  "polling_url u = append_pair (str ''transport'') (str ''polling'') u"

text \<open>
  Every polling request gets a checksum of the time as a further pair, against caches; the
  time as text and the checksum are arguments.
\<close>

definition append_hash :: "(bytes \<Rightarrow> 32 word) \<Rightarrow> ustr \<Rightarrow> url \<Rightarrow> url" where
  "append_hash adler32 now_str u =
     (let hash = adler32 (as_bytes now_str) in append_pair (str ''t'') (dec (unat hash)) u)"

text \<open>
  The websocket goes to the same address under another scheme. Whether a URL takes a scheme
  is decided by the URL library (\<open>ce_set_scheme\<close>); its refusal is unwrapped, a panic, which is
  the value \<open>None\<close>.
\<close>

definition websocket_url :: "(ustr \<Rightarrow> url \<Rightarrow> url option) \<Rightarrow> url \<Rightarrow> url option" where
  "websocket_url set_scheme u =
     map_option (append_pair (str ''transport'') (str ''websocket''))
       (if scheme u = str ''https'' then set_scheme (str ''wss'') u else set_scheme (str ''ws'') u)"

text \<open>
  What the URL library documents of setting the scheme to that of a websocket: an address
  with a host and one of the schemes of the web takes it and keeps its query, an address with
  a scheme outside of these and of files refuses it.
\<close>

definition web_scheme :: "ustr \<Rightarrow> bool" where
  "web_scheme s \<longleftrightarrow> s \<in> {str ''http'', str ''https'', str ''ws'', str ''wss'', str ''ftp''}"

definition lawful_set_scheme :: "(ustr \<Rightarrow> url \<Rightarrow> url option) \<Rightarrow> bool" where
  "lawful_set_scheme set_scheme \<longleftrightarrow>
     (\<forall>s\<in>{str ''ws'', str ''wss''}. \<forall>u.
        (web_scheme (scheme u) \<and> authority u \<noteq> [] \<longrightarrow>
           (\<exists>u'. set_scheme s u = Some u' \<and> scheme u' = s \<and> query u' = query u)) \<and>
        (\<not> web_scheme (scheme u) \<and> scheme u \<noteq> str ''file'' \<longrightarrow> set_scheme s u = None))"

text \<open>A polling transport and its stream; a websocket and its messages.\<close>

definition client_polling_new :: "client_env \<Rightarrow> url \<Rightarrow> http_headers option \<Rightarrow> eio_error + (eio_error + bytes) list" where
  "client_polling_new env u h = ce_poll env (polling_url u) h"

definition websocket_connect ::
  "client_env \<Rightarrow> url \<Rightarrow> http_headers option \<Rightarrow> (eio_error + (unit + ws_message) list) option" where
  "websocket_connect env u h = map_option (\<lambda>u. ce_ws env u h) (websocket_url (ce_set_scheme env) u)"

definition convert_headers :: "client_env \<Rightarrow> socket_builder \<Rightarrow> eio_error + http_headers option" where
  "convert_headers env b =
     (case b_headers b of
        Some m \<Rightarrow> try_bind (ce_headers env m) (\<lambda>h. Inr (Some h))
      | None \<Rightarrow> Inr None)"

text \<open>The handshake takes the first item of a transport; the builder keeps the session.\<close>

definition handshake_with_transport ::
  "client_env \<Rightarrow> (eio_error + bytes) option \<Rightarrow> socket_builder \<Rightarrow> eio_error + socket_builder" where
  "handshake_with_transport env item b =
     (if b_handshake b \<noteq> None then Inr b
      else
        try_bind (ok_or item IncompletePacket) (\<lambda>r.
        try_bind r (\<lambda>bs.
        try_bind (packet_try_from (ce_decode env) bs) (\<lambda>p.
        try_bind (handshake_try_from (ce_from_slice env) p) (\<lambda>hs.
        Inr (b\<lparr>b_handshake := Some hs, b_url := append_pair (str ''sid'') (hs_sid hs) (b_url b)\<rparr>))))))"

definition first_item :: "(eio_error + bytes) list \<Rightarrow> (eio_error + bytes) option" where
  "first_item items = (case items of [] \<Rightarrow> None | item # _ \<Rightarrow> Some item)"

definition builder_handshake :: "client_env \<Rightarrow> socket_builder \<Rightarrow> eio_error + socket_builder" where
  "builder_handshake env b =
     (if b_handshake b \<noteq> None then Inr b
      else
        try_bind (convert_headers env b) (\<lambda>h.
        try_bind (client_polling_new env (b_url b) h) (\<lambda>items.
        handshake_with_transport env (first_item items) b)))"

definition builder_websocket_upgrade :: "socket_builder \<Rightarrow> bool" where
  "builder_websocket_upgrade b =
     (case b_handshake b of
        None \<Rightarrow> False
      | Some hs \<Rightarrow> list_ex (\<lambda>u. to_lowercase u = str ''websocket'') (hs_upgrades hs))"

text \<open>
  A panic is the value \<open>None\<close>: the conversion of headers, the missing handshake and the
  scheme of a websocket are unwrapped.
\<close>

definition build_websocket :: "client_env \<Rightarrow> instant \<Rightarrow> socket_builder \<Rightarrow> (eio_error + eio_socket) option" where
  "build_websocket env now b =
     (case convert_headers env b of
        Inl e \<Rightarrow> Some (Inl e)
      | Inr h \<Rightarrow>
          (case websocket_connect env (b_url b) h of
             None \<Rightarrow> None
           | Some (Inl e) \<Rightarrow> Some (Inl e)
           | Some (Inr msgs) \<Rightarrow>
               (case (if b_handshake b \<noteq> None
                      then try_bind
                        (snd (websocket_upgrade (ce_encode env) (ce_net env) (case msgs of [] \<Rightarrow> None | m # _ \<Rightarrow> Some m) []))
                        (\<lambda>_. Inr (b, tl msgs))
                      else try_bind (handshake_with_transport env (fst (websocket_next msgs)) b)
                        (\<lambda>b. Inr (b, snd (websocket_next msgs)))) of
                  Inl e \<Rightarrow> Some (Inl e)
                | Inr (b, msgs) \<Rightarrow>
                    (case b_handshake b of
                       None \<Rightarrow> None
                     | Some hs \<Rightarrow>
                         Some (Inr (socket_new now Websocket (socket_stream (ce_decode env) (websocket_stream msgs)) hs None
                           (b_should_pong b) False))))))"

definition build_polling :: "client_env \<Rightarrow> instant \<Rightarrow> socket_builder \<Rightarrow> (eio_error + eio_socket) option" where
  "build_polling env now b =
     (case builder_handshake env b of
        Inl e \<Rightarrow> Some (Inl e)
      | Inr b \<Rightarrow>
          (case convert_headers env b of
             Inl _ \<Rightarrow> None
           | Inr h \<Rightarrow>
               (case client_polling_new env (b_url b) h of
                  Inl e \<Rightarrow> Some (Inl e)
                | Inr items \<Rightarrow>
                    (case b_handshake b of
                       None \<Rightarrow> None
                     | Some hs \<Rightarrow>
                         Some (Inr (socket_new now ClientPolling (socket_stream (ce_decode env) items) hs None
                           (b_should_pong b) False))))))"

definition build_websocket_with_upgrade ::
  "client_env \<Rightarrow> instant \<Rightarrow> socket_builder \<Rightarrow> (eio_error + eio_socket) option" where
  "build_websocket_with_upgrade env now b =
     (case builder_handshake env b of
        Inl e \<Rightarrow> Some (Inl e)
      | Inr b \<Rightarrow>
          if builder_websocket_upgrade b then build_websocket env now b
          else Some (Inl IllegalWebsocketUpgrade))"

definition build :: "client_env \<Rightarrow> instant \<Rightarrow> socket_builder \<Rightarrow> (eio_error + eio_socket) option" where
  "build env now b =
     (case builder_handshake env b of
        Inl e \<Rightarrow> Some (Inl e)
      | Inr b \<Rightarrow>
          if builder_websocket_upgrade b then build_websocket_with_upgrade env now b
          else build_polling env now b)"

text \<open>
  Falling back starts over: the servers may answer the second time in another way, so the
  second attempt has an environment of its own.
\<close>

definition build_with_fallback ::
  "client_env \<Rightarrow> client_env \<Rightarrow> instant \<Rightarrow> socket_builder \<Rightarrow> (eio_error + eio_socket) option" where
  "build_with_fallback env env' now b =
     (case build env now b of
        None \<Rightarrow> None
      | Some (Inl _) \<Rightarrow> build_polling env' now b
      | Some (Inr s) \<Rightarrow> Some (Inr s))"

section \<open>Lemmas on the handshake\<close>

lemma handshake_with_transport_Inr:
  assumes "handshake_with_transport env item b = Inr b'" and "b_handshake b = None"
  obtains hs where "b' = b\<lparr>b_handshake := Some hs, b_url := append_pair (str ''sid'') (hs_sid hs) (b_url b)\<rparr>"
  using assms by (auto simp: handshake_with_transport_def try_bind_Inr_iff)

lemma builder_handshake_Inr:
  assumes "builder_handshake env b = Inr b'" and "b_handshake b = None"
  obtains hs h where "b' = b\<lparr>b_handshake := Some hs, b_url := append_pair (str ''sid'') (hs_sid hs) (b_url b)\<rparr>"
    and "convert_headers env b = Inr h" and "convert_headers env b' = Inr h"
proof -
  from assms obtain h items where h: "convert_headers env b = Inr h"
    and t: "handshake_with_transport env (first_item items) b = Inr b'"
    by (auto simp: builder_handshake_def try_bind_Inr_iff)
  from handshake_with_transport_Inr [OF t assms(2)] obtain hs where
    b': "b' = b\<lparr>b_handshake := Some hs, b_url := append_pair (str ''sid'') (hs_sid hs) (b_url b)\<rparr>" .
  moreover have "convert_headers env b' = convert_headers env b" using b' by (simp add: convert_headers_def)
  ultimately show thesis using h that by simp
qed

lemma builder_handshake_again: "b_handshake b \<noteq> None \<Longrightarrow> builder_handshake env b = Inr b"
  by (simp add: builder_handshake_def)

lemma build_polling_known:
  assumes "b_handshake b = Some hs" and "convert_headers env b = Inr h"
  shows "build_polling env now b = Some (map_sum id
    (\<lambda>items. socket_new now ClientPolling (socket_stream (ce_decode env) items) hs None (b_should_pong b) False)
    (client_polling_new env (b_url b) h))"
  using assms by (simp add: build_polling_def builder_handshake_again split: sum.splits)

lemma build_polling_eq:
  assumes "builder_handshake env b = Inr b'" and "b_handshake b' \<noteq> None"
  shows "build_polling env now b = build_polling env now b'"
  using assms by (simp add: build_polling_def builder_handshake_again)

lemma build_not_open:
  assumes "build env now b = Some (Inr s)"
  shows "\<not> connected s"
proof -
  have "\<not> connected s" if "build_websocket env now b = Some (Inr s) \<or> build_polling env now b = Some (Inr s)" for b
    using that by (auto simp: build_websocket_def build_polling_def socket_new_def split: sum.splits option.splits)
  with assms show ?thesis
    by (auto simp: build_def build_websocket_with_upgrade_def split: sum.splits if_splits)
qed

text \<open>The address of a builder to which websockets can be opened.\<close>

definition web_address :: "url \<Rightarrow> bool" where
  "web_address u \<longleftrightarrow> web_scheme (scheme u) \<and> authority u \<noteq> []"

lemma web_address_append_pair [simp]: "web_address (append_pair k v u) = web_address u"
  by (simp add: web_address_def append_pair_def)

lemma web_address_builder_new [simp]: "web_address (b_url (socket_builder_new u)) = web_address u"
  by (simp add: web_address_def append_pair_def socket_builder_new_def Let_def)

lemma lawful_set_schemeD:
  assumes "lawful_set_scheme f" and "s \<in> {str ''ws'', str ''wss''}"
  shows "web_address u \<Longrightarrow> \<exists>u'. f s u = Some u' \<and> query u' = query u"
    and "\<not> web_scheme (scheme u) \<Longrightarrow> scheme u \<noteq> str ''file'' \<Longrightarrow> f s u = None"
  using bspec [OF assms(1) [unfolded lawful_set_scheme_def] assms(2)] by (auto simp only: web_address_def)

lemma websocket_url_scheme:
  "\<exists>s\<in>{str ''ws'', str ''wss''}. websocket_url f u = map_option (append_pair (str ''transport'') (str ''websocket'')) (f s u)"
  unfolding websocket_url_def by (cases "scheme u = str ''https''") auto

lemma websocket_url_web:
  assumes "lawful_set_scheme f" and "web_address u"
  obtains w where "websocket_url f u = Some w" and "query w = query u @ [(str ''transport'', str ''websocket'')]"
proof -
  obtain s where s: "s \<in> {str ''ws'', str ''wss''}"
    "websocket_url f u = map_option (append_pair (str ''transport'') (str ''websocket'')) (f s u)"
    using websocket_url_scheme by blast
  from lawful_set_schemeD(1) [OF assms(1) s(1) assms(2)] obtain u' where "f s u = Some u'" "query u' = query u" by blast
  with s(2) that show thesis by (simp add: append_pair_def)
qed

lemma websocket_url_other:
  assumes "lawful_set_scheme f" and "\<not> web_scheme (scheme u)" and "scheme u \<noteq> str ''file''"
  shows "websocket_url f u = None"
proof -
  obtain s where s: "s \<in> {str ''ws'', str ''wss''}"
    "websocket_url f u = map_option (append_pair (str ''transport'') (str ''websocket'')) (f s u)"
    using websocket_url_scheme by blast
  then show ?thesis using lawful_set_schemeD(2) [OF assms(1) s(1) assms(2,3)] by (simp only: option.map)
qed

lemma websocket_url_no_panic:
  assumes "lawful_set_scheme f" and "web_address u"
  shows "websocket_url f u \<noteq> None"
  using websocket_url_web [OF assms] by blast

lemma build_websocket_no_panic:
  assumes "lawful_set_scheme (ce_set_scheme env)" and "web_address (b_url b)"
  shows "build_websocket env now b \<noteq> None"
proof (cases "b_handshake b")
  case None
  have "b_handshake b' \<noteq> None" if "handshake_with_transport env item b = Inr b'" for item b'
    using that None by (auto simp: handshake_with_transport_def try_bind_Inr_iff)
  with None websocket_url_no_panic [OF assms] show ?thesis
    by (fastforce simp: build_websocket_def websocket_connect_def try_bind_Inr_iff split: sum.splits option.splits)
qed (use websocket_url_no_panic [OF assms] in
  \<open>auto simp: build_websocket_def websocket_connect_def try_bind_Inr_iff split: sum.splits option.splits\<close>)

lemma build_websocket_panics:
  assumes "lawful_set_scheme (ce_set_scheme env)" and "\<not> web_scheme (scheme (b_url b))" and "scheme (b_url b) \<noteq> str ''file''"
    and "convert_headers env b = Inr h"
  shows "build_websocket env now b = None"
  using assms(4) websocket_url_other [OF assms(1-3)] by (simp add: build_websocket_def websocket_connect_def)

lemma build_polling_no_panic:
  assumes "b_handshake b = None"
  shows "build_polling env now b \<noteq> None"
    and "builder_handshake env b = Inr b' \<Longrightarrow> build_polling env now b' \<noteq> None"
proof -
  have "build_polling env now b \<noteq> None \<and>
      (\<forall>b'. builder_handshake env b = Inr b' \<longrightarrow> build_polling env now b' \<noteq> None)"
  proof (cases "builder_handshake env b")
    case (Inr b')
    then obtain hs h where b': "b' = b\<lparr>b_handshake := Some hs, b_url := append_pair (str ''sid'') (hs_sid hs) (b_url b)\<rparr>"
      and h: "convert_headers env b' = Inr h"
      by (rule builder_handshake_Inr [OF _ assms])
    then have "b_handshake b' = Some hs" by simp
    with build_polling_known [OF this h] build_polling_eq [OF Inr] Inr show ?thesis by simp
  qed (simp add: build_polling_def)
  then show "build_polling env now b \<noteq> None"
    and "builder_handshake env b = Inr b' \<Longrightarrow> build_polling env now b' \<noteq> None" by blast+
qed

lemma handshake_web_address:
  assumes "builder_handshake env b = Inr b'" and "b_handshake b = None" and "web_address (b_url b)"
  shows "web_address (b_url b')"
  by (rule builder_handshake_Inr [OF assms(1,2)]) (use assms(3) in simp)

lemma build_never_panics:
  assumes "b_handshake b = None" and "lawful_set_scheme (ce_set_scheme env)" and "web_address (b_url b)"
  shows "build env now b \<noteq> None" and "build_websocket_with_upgrade env now b \<noteq> None"
    and "build_with_fallback env env' now b \<noteq> None"
proof -
  have ws: "\<exists>r. build_websocket env now b' = Some r" if "builder_handshake env b = Inr b'" for b'
    using build_websocket_no_panic [OF assms(2) handshake_web_address [OF that assms(1,3)]] by auto
  have again: "builder_handshake env b' = Inr b'" if "builder_handshake env b = Inr b'" for b'
    by (rule builder_handshake_Inr [OF that assms(1)]) (simp add: builder_handshake_again)
  show "build env now b \<noteq> None"
    using build_polling_no_panic(2) [OF assms(1)] ws again
    by (auto simp: build_def build_websocket_with_upgrade_def split: sum.splits)
  then show "build_with_fallback env env' now b \<noteq> None"
    using build_polling_no_panic(1) [OF assms(1)] by (auto simp: build_with_fallback_def split: option.splits sum.splits)
  show "build_websocket_with_upgrade env now b \<noteq> None"
    using ws by (auto simp: build_websocket_with_upgrade_def split: sum.splits)
qed

section \<open>Properties\<close>

text \<open>
  C21: When building a socket panics. A fresh builder never panics over polling, since the
  headers that building a polling transport unwraps have been checked by the handshake and
  after a successful handshake there is a session. For an address of the web, that is, with a
  host and one of the schemes of the web, no other way to build panics either; for an address
  with another scheme, that of files aside, building a websocket from headers that can be
  converted panics, since the URL refuses the scheme of websockets.
\<close>

theorem build_no_panic:
  assumes "b_handshake b = None" and "lawful_set_scheme (ce_set_scheme env)"
  shows "build_polling env now b \<noteq> None \<and>
    (web_address (b_url b) \<longrightarrow> build_websocket env now b \<noteq> None \<and> build_websocket_with_upgrade env now b \<noteq> None \<and>
       build env now b \<noteq> None \<and> build_with_fallback env env' now b \<noteq> None) \<and>
    (\<not> web_scheme (scheme (b_url b)) \<and> scheme (b_url b) \<noteq> str ''file'' \<and> convert_headers env b = Inr h \<longrightarrow>
       build_websocket env now b = None)"
  using build_polling_no_panic(1) [OF assms(1)] build_websocket_no_panic [OF assms(2)] build_never_panics [OF assms]
    build_websocket_panics [OF assms(2)] by simp

definition example_url :: url where
  "example_url = \<lparr>scheme = str ''http'', authority = str ''h'', url_path = str ''/'', query = []\<rparr>"

definition example_handshake :: handshake_packet where
  "example_handshake = \<lparr>hs_sid = str ''MA'', hs_upgrades = [str ''websocket''], hs_ping_interval = 25,
     hs_ping_timeout = 20, hs_max_payload = 1000\<rparr>"

text \<open>A server whose polling works and whose websockets do not.\<close>

definition example_client_env :: client_env where
  "example_client_env = \<lparr>ce_encode = rfc_encode, ce_decode = rfc_decode, ce_net = (\<lambda>_ _. Inr 200),
     ce_from_slice = (\<lambda>_. Some example_handshake), ce_headers = (\<lambda>_. Inr []),
     ce_poll = (\<lambda>_ _. Inr [Inr [48]]), ce_ws = (\<lambda>_ _. Inl WsError),
     ce_set_scheme = (\<lambda>s u. if web_scheme (scheme u) then Some (u\<lparr>scheme := s\<rparr>) else None)\<rparr>"

lemma example_set_scheme: "lawful_set_scheme (ce_set_scheme example_client_env)"
  by (simp add: lawful_set_scheme_def example_client_env_def)

lemma example_web_address: "web_address (b_url (socket_builder_new example_url))"
  unfolding web_address_builder_new by (simp add: web_address_def web_scheme_def example_url_def)

lemma example_client_handshake:
  "builder_handshake example_client_env (socket_builder_new u) =
     Inr ((socket_builder_new u)\<lparr>b_handshake := Some example_handshake,
       b_url := append_pair (str ''sid'') (str ''MA'') (b_url (socket_builder_new u))\<rparr>)"
  by (simp add: builder_handshake_def socket_builder_new_def Let_def convert_headers_def client_polling_new_def
      example_client_env_def first_item_def handshake_with_transport_def packet_try_from_def packet_type_try_from_def
      handshake_try_from_def example_handshake_def)

theorem build_no_panic_witness:
  "build_with_fallback example_client_env example_client_env 0 (socket_builder_new example_url) \<noteq> None \<and>
   build_websocket example_client_env 0 (socket_builder_new (example_url\<lparr>scheme := str ''foo''\<rparr>)) = None"
  using build_no_panic [OF _ example_set_scheme, of "socket_builder_new example_url" 0 example_client_env]
    build_no_panic [OF _ example_set_scheme, of "socket_builder_new (example_url\<lparr>scheme := str ''foo''\<rparr>)" 0 _ None]
    example_web_address
  by (simp add: socket_builder_new_def append_pair_def convert_headers_def web_scheme_def Let_def)

text \<open>
  Building with fallback succeeds whenever polling works when it is fallen back to. If
  the polling handshake and the polling transport of its session can then be opened, the
  result is a socket, not yet open: the one of the first attempt if that succeeded, and a
  polling socket of the new session in every other case, whatever went wrong before. The
  address is one of the web, so that the first attempt does not panic.
\<close>

theorem fallback_total:
  assumes "b_handshake b = None" and "builder_handshake env' b = Inr b'" and "convert_headers env' b = Inr h"
    and "client_polling_new env' (b_url b') h = Inr items" and "lawful_set_scheme (ce_set_scheme env)" and "web_address (b_url b)"
  shows "\<exists>s. build_with_fallback env env' now b = Some (Inr s) \<and> \<not> connected s \<and>
    (if \<exists>s1. build env now b = Some (Inr s1) then build env now b = Some (Inr s)
     else transport s = ClientPolling \<and> b_handshake b' = Some (connection_data s))"
proof -
  obtain hs where hs: "b_handshake b' = Some hs" and h: "convert_headers env' b' = Inr h"
    by (rule builder_handshake_Inr [OF assms(2,1)]) (use assms(3) in simp)
  let ?p = "socket_new now ClientPolling (socket_stream (ce_decode env') items) hs None (b_should_pong b') False"
  have poll: "build_polling env' now b = Some (Inr ?p)"
    using build_polling_known [OF hs h, of now] build_polling_eq [OF assms(2), of now] assms(4) hs by simp
  obtain r where r: "build env now b = Some r" using build_never_panics(1) [OF assms(1,5,6), of now] by auto
  show ?thesis
  proof (cases r)
    case (Inl e)
    with r poll hs show ?thesis by (simp add: build_with_fallback_def socket_new_def)
  next
    case (Inr s)
    with r build_not_open [of env now b s] show ?thesis by (simp add: build_with_fallback_def)
  qed
qed

theorem fallback_total_witness:
  "\<exists>s. build_with_fallback example_client_env example_client_env 0 (socket_builder_new example_url) = Some (Inr s) \<and>
    \<not> connected s"
  using fallback_total [OF _ example_client_handshake [of example_url], of None "[Inr [48]]" example_client_env 0]
    example_set_scheme example_web_address
  by (auto simp: socket_builder_new_def Let_def convert_headers_def client_polling_new_def example_client_env_def)

end
