(* ===== verification/Sio_Client.thy ===== *)
theory Sio_Client
  imports Sio_Socket Engine_Client
begin

text \<open>
  The Socket.IO client (\<open>socketio/src/client\<close>): the builder with its settings, the client
  that wraps a socket, reconnection and the polling task. The backoff that measures the
  waiting between attempts is a library: its operations are arguments, its state is kept in
  the client, and the waits it gives are recorded. The environment in which an attempt to
  connect is made is an argument, which may differ from attempt to attempt.
\<close>

section \<open>The builder\<close>

datatype client_transport = TAny | TWebsocket | TWebsocketUpgrade | TPolling

record client_builder =
  cb_address :: ustr
  cb_on :: "sio_event set"
  cb_namespace :: ustr
  cb_opening_headers :: "header_map option"
  cb_transport_type :: client_transport
  cb_reconnect :: bool
  cb_max_reconnect_attempts :: "usize option"
  cb_reconnect_delay_min :: u64
  cb_reconnect_delay_max :: u64

definition client_builder_new :: "ustr \<Rightarrow> client_builder" where
  "client_builder_new address =
     \<lparr>cb_address = address, cb_on = {}, cb_namespace = str ''/'', cb_opening_headers = None,
      cb_transport_type = TAny, cb_reconnect = True, cb_max_reconnect_attempts = None,
      cb_reconnect_delay_min = 1000, cb_reconnect_delay_max = 5000\<rparr>"

definition cb_set_namespace :: "ustr \<Rightarrow> client_builder \<Rightarrow> client_builder" where
  "cb_set_namespace ns b =
     (let ns = (if \<not> (ns \<noteq> [] \<and> hd ns = 47) then str ''/'' @ ns else ns) in b\<lparr>cb_namespace := ns\<rparr>)"

text \<open>The callback is inserted by a task; the model takes it as inserted at once.\<close>

definition cb_register :: "sio_event \<Rightarrow> client_builder \<Rightarrow> client_builder" where
  "cb_register event b = b\<lparr>cb_on := insert event (cb_on b)\<rparr>"

definition cb_opening_header :: "ustr \<Rightarrow> bytes \<Rightarrow> client_builder \<Rightarrow> client_builder" where
  "cb_opening_header k v b =
     (case cb_opening_headers b of
        Some m \<Rightarrow> b\<lparr>cb_opening_headers := Some (fst (header_insert k v m))\<rparr>
      | None \<Rightarrow> b\<lparr>cb_opening_headers := Some (fst (header_insert k v header_map_new))\<rparr>)"

definition cb_set_transport_type :: "client_transport \<Rightarrow> client_builder \<Rightarrow> client_builder" where
  "cb_set_transport_type t b = b\<lparr>cb_transport_type := t\<rparr>"

definition cb_set_reconnect :: "bool \<Rightarrow> client_builder \<Rightarrow> client_builder" where
  "cb_set_reconnect r b = b\<lparr>cb_reconnect := r\<rparr>"

definition cb_reconnect_delay :: "u64 \<Rightarrow> u64 \<Rightarrow> client_builder \<Rightarrow> client_builder" where
  "cb_reconnect_delay lo hi b = b\<lparr>cb_reconnect_delay_min := lo, cb_reconnect_delay_max := hi\<rparr>"

definition cb_set_max_reconnect_attempts :: "usize \<Rightarrow> client_builder \<Rightarrow> client_builder" where
  "cb_set_max_reconnect_attempts n b = b\<lparr>cb_max_reconnect_attempts := Some n\<rparr>"

text \<open>
  Connecting a socket: the engine socket is built over the chosen transport, then the
  socket opens it and sends its connect packet. A panic is the value \<open>None\<close>. An attempt is
  given by its time and what the engine's builder meets at first and when it falls back; in
  the loop of reconnection also by the time at which the backoff is asked before it.
\<close>

record attempt =
  at_asked :: instant
  at_first :: client_env
  at_fallback :: client_env
  at_now :: instant

definition connect_socket ::
  "sio_env \<Rightarrow> (ustr \<Rightarrow> url option) \<Rightarrow> attempt \<Rightarrow> client_builder \<Rightarrow> (sio_error + sio_socket) option" where
  "connect_socket env parse_url at b =
     (case parse_url (cb_address b) of
        None \<Rightarrow> Some (Inl SInvalidUrl)
      | Some u \<Rightarrow>
          let u = (if url_path u = str ''/'' then u\<lparr>url_path := str ''/socket.io/''\<rparr> else u);
              eb = socket_builder_new u;
              eb = (case cb_opening_headers b of Some h \<Rightarrow> builder_headers h eb | None \<Rightarrow> eb);
              built = (case cb_transport_type b of
                         TAny \<Rightarrow> build_with_fallback (at_first at) (at_fallback at) (at_now at) eb
                       | TPolling \<Rightarrow> build_polling (at_first at) (at_now at) eb
                       | TWebsocket \<Rightarrow> build_websocket (at_first at) (at_now at) eb
                       | TWebsocketUpgrade \<Rightarrow> build_websocket_with_upgrade (at_first at) (at_now at) eb)
          in (case built of
                None \<Rightarrow> None
              | Some (Inl e) \<Rightarrow> Some (Inl (SIncompleteResponseFromEngineIo e))
              | Some (Inr s) \<Rightarrow>
                  (case sio_connect env (at_now at) (sio_socket_new s False (cb_namespace b) (cb_on b)) of
                     (sk, Inl e) \<Rightarrow> Some (Inl e)
                   | (sk, Inr _) \<Rightarrow> Some (Inr sk))))"

section \<open>The client\<close>

text \<open>
  The operations of the backoff: a new one with its smallest and greatest interval in
  milliseconds at the time of its creation, and the time to wait when it is asked.
\<close>

record 'b backoff =
  backoff_new :: "u64 \<Rightarrow> u64 \<Rightarrow> instant \<Rightarrow> 'b"
  next_backoff :: "instant \<Rightarrow> 'b \<Rightarrow> nat option \<times> 'b"

record 'b sio_client =
  cl_builder :: client_builder
  cl_socket :: sio_socket
  cl_connected :: bool
  cl_backoff :: 'b

definition client_new ::
  "'b backoff \<Rightarrow> sio_env \<Rightarrow> (ustr \<Rightarrow> url option) \<Rightarrow> attempt \<Rightarrow> client_builder \<Rightarrow> (sio_error + 'b sio_client) option" where
  "client_new lib env parse_url at b =
     map_option (\<lambda>r. try_bind r (\<lambda>sk. Inr \<lparr>cl_builder = b, cl_socket = sk, cl_connected = True,
         cl_backoff = backoff_new lib (cb_reconnect_delay_min b) (cb_reconnect_delay_max b) (at_now at)\<rparr>))
       (connect_socket env parse_url at b)"

text \<open>The second component tells whether the polling task has been started.\<close>

definition cb_connect ::
  "'b backoff \<Rightarrow> sio_env \<Rightarrow> (ustr \<Rightarrow> url option) \<Rightarrow> attempt \<Rightarrow> client_builder \<Rightarrow> ((sio_error + 'b sio_client) \<times> bool) option" where
  "cb_connect lib env parse_url at b =
     map_option (\<lambda>client. (client, case client of Inr c \<Rightarrow> True | Inl e \<Rightarrow> False)) (client_new lib env parse_url at b)"

definition with_socket :: "(sio_socket \<Rightarrow> sio_socket \<times> 'a) \<Rightarrow> 'b sio_client \<Rightarrow> 'b sio_client \<times> 'a" where
  "with_socket f c = (let (sk, r) = f (cl_socket c) in (c\<lparr>cl_socket := sk\<rparr>, r))"

definition client_emit :: "sio_env \<Rightarrow> sio_event \<Rightarrow> sio_payload \<Rightarrow> 'b sio_client \<Rightarrow> 'b sio_client \<times> (sio_error + unit)" where
  "client_emit env event d = with_socket (sio_emit env event d)"

definition client_emit_with_ack ::
  "sio_env \<Rightarrow> instant \<Rightarrow> sio_event \<Rightarrow> sio_payload \<Rightarrow> nat \<Rightarrow> 'b sio_client \<Rightarrow> 'b sio_client \<times> (sio_error + unit)" where
  "client_emit_with_ack env now event d timeout = with_socket (sio_emit_with_ack env now event d timeout)"

definition client_ack :: "sio_env \<Rightarrow> usize \<Rightarrow> sio_payload \<Rightarrow> 'b sio_client \<Rightarrow> 'b sio_client \<times> (sio_error + unit)" where
  "client_ack env i d = with_socket (sio_ack env i d)"

definition disconnect_socket :: "sio_env \<Rightarrow> 'b sio_client \<Rightarrow> 'b sio_client \<times> (sio_error + unit)" where
  "disconnect_socket env = with_socket (sio_disconnect env)"

definition client_disconnect :: "sio_env \<Rightarrow> 'b sio_client \<Rightarrow> 'b sio_client \<times> (sio_error + unit)" where
  "client_disconnect env c =
     (if \<not> cl_connected c then (c, Inr ()) else disconnect_socket env (c\<lparr>cl_connected := False\<rparr>))"

definition client_poll_packet :: "sio_env \<Rightarrow> instant \<Rightarrow> 'b sio_client \<Rightarrow> 'b sio_client \<times> raw_item" where
  "client_poll_packet env now = with_socket (sio_poll_packet env now)"

section \<open>Reconnection\<close>

definition do_reconnect ::
  "sio_env \<Rightarrow> (ustr \<Rightarrow> url option) \<Rightarrow> attempt \<Rightarrow> 'b sio_client \<Rightarrow> ('b sio_client \<times> (sio_error + unit)) option" where
  "do_reconnect env parse_url at c =
     (case connect_socket env parse_url at (cl_builder c) of
        None \<Rightarrow> None
      | Some (Inl e) \<Rightarrow> Some (c, Inl e)
      | Some (Inr new_socket) \<Rightarrow> Some (c\<lparr>cl_socket := new_socket\<rparr>, Inr ()))"

text \<open>
  The loop of attempts. The counter of attempts is a \<open>usize\<close>, which wraps around; the turn of
  the loop selects the next attempt. The result holds what the backoff has given before each
  attempt: a time to wait, or nothing, and then the attempt is made at once. The loop may run
  forever: fuel bounds the turns, and \<open>None\<close> is a loop that has not ended or has panicked.
\<close>

fun reconnect_loop ::
  "nat \<Rightarrow> 'b backoff \<Rightarrow> sio_env \<Rightarrow> (ustr \<Rightarrow> url option) \<Rightarrow> (nat \<Rightarrow> attempt) \<Rightarrow> nat \<Rightarrow> usize \<Rightarrow> 'b sio_client \<Rightarrow>
     ('b sio_client \<times> nat option list) option" where
  "reconnect_loop 0 lib env parse_url ats turn reconnect_attempts c = None"
| "reconnect_loop (Suc fuel) lib env parse_url ats turn reconnect_attempts c =
     (if (case cb_max_reconnect_attempts (cl_builder c) of
            Some max_reconnect_attempts \<Rightarrow> reconnect_attempts > max_reconnect_attempts
          | None \<Rightarrow> False)
      then Some (c, [])
      else
        let reconnect_attempts = reconnect_attempts + 1;
            at = ats turn;
            (wait, b) = next_backoff lib (at_asked at) (cl_backoff c);
            c = c\<lparr>cl_backoff := b\<rparr> in
        (case do_reconnect env parse_url at c of
           None \<Rightarrow> None
         | Some (c, Inr _) \<Rightarrow> Some (c, [wait])
         | Some (c, Inl _) \<Rightarrow>
             map_option (apsnd (Cons wait)) (reconnect_loop fuel lib env parse_url ats (turn + 1) reconnect_attempts c)))"

definition client_reconnect ::
  "nat \<Rightarrow> 'b backoff \<Rightarrow> sio_env \<Rightarrow> (ustr \<Rightarrow> url option) \<Rightarrow> (nat \<Rightarrow> attempt) \<Rightarrow> 'b sio_client \<Rightarrow>
     ('b sio_client \<times> nat option list) option" where
  "client_reconnect fuel lib env parse_url ats c =
     (if cb_reconnect (cl_builder c) then reconnect_loop fuel lib env parse_url ats 0 0 c else Some (c, []))"

text \<open>
  One turn of the polling task: an error of the engine disconnects and reconnects. The
  second component tells whether the task goes on; a reconnection that does not end and a
  panic are \<open>None\<close>.
\<close>

definition poll_callback_turn ::
  "nat \<Rightarrow> 'b backoff \<Rightarrow> sio_env \<Rightarrow> (ustr \<Rightarrow> url option) \<Rightarrow> (nat \<Rightarrow> attempt) \<Rightarrow> instant \<Rightarrow> 'b sio_client \<Rightarrow>
     ('b sio_client \<times> bool) option" where
  "poll_callback_turn fuel lib env parse_url ats now c =
     (case client_poll_packet env now c of
        (c, RawPanic) \<Rightarrow> None
      | (c, RawItem (Inl (SIncompleteResponseFromEngineIo e))) \<Rightarrow>
          (case client_reconnect fuel lib env parse_url ats (fst (disconnect_socket env c)) of
             None \<Rightarrow> None
           | Some (c, _) \<Rightarrow> Some (c, cl_connected c))
      | (c, _) \<Rightarrow> Some (c, cl_connected c))"

text \<open>
  The polling task: its turns, each at its time and with the attempts that a reconnection in
  it would make, until it ends.
\<close>

fun poll_callback ::
  "nat \<Rightarrow> 'b backoff \<Rightarrow> sio_env \<Rightarrow> (ustr \<Rightarrow> url option) \<Rightarrow> ((nat \<Rightarrow> attempt) \<times> instant) list \<Rightarrow> 'b sio_client \<Rightarrow>
     ('b sio_client \<times> bool) option" where
  "poll_callback fuel lib env parse_url [] c = Some (c, True)"
| "poll_callback fuel lib env parse_url ((ats, now) # turns) c =
     (case poll_callback_turn fuel lib env parse_url ats now c of
        None \<Rightarrow> None
      | Some (c, True) \<Rightarrow> poll_callback fuel lib env parse_url turns c
      | Some (c, False) \<Rightarrow> Some (c, False))"

section \<open>Lemmas\<close>

lemma lift_engine_ok [simp]: "apsnd lift_engine x = (s, Inr u) \<longleftrightarrow> x = (s, Inr u)"
  by (cases x; cases "snd x") (auto simp: lift_engine_def)

lemma socket_emit_ok:
  assumes "socket_emit encode net p s = (s', Inr ())"
  obtains w where "transport_wire encode (transport s) (packet_data encode p) = Inr w"
    and "s' = s\<lparr>wire_out := wire_out s @ [w]\<rparr>" and "connected s"
  using assms
  by (auto simp: socket_emit_def transport_emit_wire transport_outcome_def split: sum.splits if_splits)

lemma build_fresh:
  assumes "build_with_fallback env env' now b = Some (Inr s) \<or> build_polling env now b = Some (Inr s) \<or>
    build_websocket env now b = Some (Inr s) \<or> build_websocket_with_upgrade env now b = Some (Inr s)"
  shows "wire_out s = [] \<and> event_tx s = None \<and> \<not> server_end s"
proof -
  have ws: "build_websocket env now b = Some (Inr s) \<Longrightarrow> wire_out s = [] \<and> event_tx s = None \<and> \<not> server_end s" for b
    by (auto simp: build_websocket_def socket_new_def split: sum.splits option.splits)
  have poll: "build_polling env now b = Some (Inr s) \<Longrightarrow> wire_out s = [] \<and> event_tx s = None \<and> \<not> server_end s" for env b
    by (auto simp: build_polling_def socket_new_def split: sum.splits option.splits)
  have up: "build_websocket_with_upgrade env now b = Some (Inr s) \<Longrightarrow> wire_out s = [] \<and> event_tx s = None \<and> \<not> server_end s" for b
    using ws by (auto simp: build_websocket_with_upgrade_def split: sum.splits if_splits)
  have "build_with_fallback env env' now b = Some (Inr s) \<Longrightarrow> wire_out s = [] \<and> event_tx s = None \<and> \<not> server_end s"
    using poll up by (auto simp: build_with_fallback_def build_def split: option.splits sum.splits if_splits)
  with ws poll up assms show ?thesis by blast
qed

lemmas build_fresh_rules =
  build_fresh [OF disjI1] build_fresh [OF disjI2, OF disjI1]
  build_fresh [OF disjI2, OF disjI2, OF disjI1] build_fresh [OF disjI2, OF disjI2, OF disjI2]

text \<open>The two packets a client sends when it connects.\<close>

definition opening_packets :: "sio_env \<Rightarrow> ustr \<Rightarrow> eio_packet list" where
  "opening_packets env ns =
     [packet_new Pong [],
      packet_new Message (bytes_from_sio_packet (env_to_string env) (sio_packet_new Connect ns None None 0 None))]"

lemma sio_connect_ok:
  assumes "sio_connect env now sk = (sk', Inr ())" and "\<not> is_server sk"
    and "event_tx (engine sk) = None" and "\<not> server_end (engine sk)"
  shows "connected (engine sk') \<and> sk_nsp sk' = sk_nsp sk \<and> sk_connected sk' = sk_connected sk \<and> on sk' = on sk \<and>
    (\<exists>ws. try_map (transport_wire (env_encode env) (transport (engine sk)))
        (map (packet_data (env_encode env)) (opening_packets env (sk_nsp sk))) = Inr ws \<and>
      wire_out (engine sk') = wire_out (engine sk) @ ws)"
proof -
  let ?enc = "env_encode env" and ?s = "(engine sk)\<lparr>connected := True, last_ping := now\<rparr>"
  let ?c = "sio_packet_new Connect (sk_nsp sk) None None 0 None"
  have "socket_connect ?enc (env_net env) now (engine sk) = socket_emit ?enc (env_net env) (packet_new Pong []) ?s"
    using assms(3,4) by (simp add: socket_connect_def send_event_def)
  then obtain s1 where s1: "socket_emit ?enc (env_net env) (packet_new Pong []) ?s = (s1, Inr ())"
    and send: "raw_send env ?c s1 = (engine sk', Inr ())" and sk': "sk' = sk\<lparr>engine := engine sk'\<rparr>"
    using assms(1,2)
    by (auto simp: sio_connect_def with_engine_def raw_connect_def split: prod.splits sum.splits)
  obtain w1 where w1: "transport_wire ?enc (transport (engine sk)) (packet_data ?enc (packet_new Pong [])) = Inr w1"
    "s1 = ?s\<lparr>wire_out := wire_out (engine sk) @ [w1]\<rparr>"
    using socket_emit_ok [OF s1] by auto
  have "socket_emit ?enc (env_net env) (packet_new Message (bytes_from_sio_packet (env_to_string env) ?c)) s1 = (engine sk', Inr ())"
    using send w1(2)
    by (simp add: raw_send_def is_engineio_connected_def is_connected_def sio_packet_new_def)
  then obtain w2 where "transport_wire ?enc (transport s1) (packet_data ?enc (packet_new Message (bytes_from_sio_packet (env_to_string env) ?c))) = Inr w2"
    "engine sk' = s1\<lparr>wire_out := wire_out s1 @ [w2]\<rparr>"
    by (rule socket_emit_ok)
  with w1 show ?thesis by (subst sk', subst sk', subst sk') (simp add: opening_packets_def)
qed

text \<open>An attempt to connect to an address of the web, or to no address at all, does not panic.\<close>

lemma connect_socket_no_panic:
  assumes "\<And>u. parse_url (cb_address b) = Some u \<Longrightarrow> web_address u" and "lawful_set_scheme (ce_set_scheme (at_first at))"
  shows "connect_socket env parse_url at b \<noteq> None"
proof (cases "parse_url (cb_address b)")
  case (Some u)
  let ?u = "if url_path u = str ''/'' then u\<lparr>url_path := str ''/socket.io/''\<rparr> else u"
  let ?eb = "case cb_opening_headers b of Some h \<Rightarrow> builder_headers h (socket_builder_new ?u) | None \<Rightarrow> socket_builder_new ?u"
  have fresh: "b_handshake ?eb = None"
    by (simp add: socket_builder_new_def builder_headers_def Let_def split: option.splits)
  have "web_address ?u" using assms(1) [OF Some] by (simp add: web_address_def)
  then have "web_address (b_url (socket_builder_new ?u))" by (simp only: web_address_builder_new)
  moreover have "b_url ?eb = b_url (socket_builder_new ?u)"
    by (cases "cb_opening_headers b") (simp_all add: builder_headers_def)
  ultimately have web: "web_address (b_url ?eb)" by simp
  note no_panic = build_polling_no_panic(1) [OF fresh] build_never_panics(2,3) [OF fresh assms(2) web]
    build_websocket_no_panic [OF assms(2) web]
  have "(case cb_transport_type b of
      TAny \<Rightarrow> build_with_fallback (at_first at) (at_fallback at) (at_now at) ?eb
    | TPolling \<Rightarrow> build_polling (at_first at) (at_now at) ?eb
    | TWebsocket \<Rightarrow> build_websocket (at_first at) (at_now at) ?eb
    | TWebsocketUpgrade \<Rightarrow> build_websocket_with_upgrade (at_first at) (at_now at) ?eb) \<noteq> None"
    by (cases "cb_transport_type b") (simp_all only: client_transport.case no_panic not_False_eq_True)
  then obtain r where r: "(case cb_transport_type b of
      TAny \<Rightarrow> build_with_fallback (at_first at) (at_fallback at) (at_now at) ?eb
    | TPolling \<Rightarrow> build_polling (at_first at) (at_now at) ?eb
    | TWebsocket \<Rightarrow> build_websocket (at_first at) (at_now at) ?eb
    | TWebsocketUpgrade \<Rightarrow> build_websocket_with_upgrade (at_first at) (at_now at) ?eb) = Some r"
    by blast
  show ?thesis unfolding connect_socket_def Let_def Some option.case r
    by (auto split: sum.splits prod.splits)
qed (simp add: connect_socket_def)

text \<open>An attempt to connect as the loop sees it: a panic, an error or a new socket.\<close>

lemma connect_socket_cases:
  obtains (panicked) "connect_socket env parse_url at b = None"
  | (failed) e where "connect_socket env parse_url at b = Some (Inl e)"
  | (connected) sk where "connect_socket env parse_url at b = Some (Inr sk)"
  by (metis option.exhaust sum.exhaust)

text \<open>The waits that the backoff gives at a sequence of times, and its state after them.\<close>

fun backoff_waits :: "'b backoff \<Rightarrow> instant list \<Rightarrow> 'b \<Rightarrow> nat option list \<times> 'b" where
  "backoff_waits lib [] b = ([], b)"
| "backoff_waits lib (t # ts) b =
     (let (wait, b) = next_backoff lib t b; (waits, b) = backoff_waits lib ts b in (wait # waits, b))"

definition reconnected ::
  "'b backoff \<Rightarrow> (nat \<Rightarrow> attempt) \<Rightarrow> nat list \<Rightarrow> 'b sio_client \<Rightarrow> 'b sio_client \<times> nat option list" where
  "reconnected lib ats made c =
     (let (waits, b) = backoff_waits lib (map (\<lambda>k. at_asked (ats k)) made) (cl_backoff c) in (c\<lparr>cl_backoff := b\<rparr>, waits))"

lemma reconnected_simps [simp]:
  "reconnected lib ats [] c = (c, [])"
  "reconnected lib ats (k # ks) c =
     (let (wait, b) = next_backoff lib (at_asked (ats k)) (cl_backoff c) in
      apsnd (Cons wait) (reconnected lib ats ks (c\<lparr>cl_backoff := b\<rparr>)))"
  "cl_builder (fst (reconnected lib ats ks c)) = cl_builder c"
  "length (snd (reconnected lib ats ks c)) = length ks"
proof -
  show "reconnected lib ats [] c = (c, [])" by (simp add: reconnected_def)
  show "reconnected lib ats (k # ks) c =
     (let (wait, b) = next_backoff lib (at_asked (ats k)) (cl_backoff c) in
      apsnd (Cons wait) (reconnected lib ats ks (c\<lparr>cl_backoff := b\<rparr>)))"
    by (simp add: reconnected_def Let_def case_prod_unfold)
  show "cl_builder (fst (reconnected lib ats ks c)) = cl_builder c" by (simp add: reconnected_def Let_def case_prod_unfold)
  have "length (fst (backoff_waits lib ts b)) = length ts" for ts b
    by (induction ts arbitrary: b) (simp_all add: Let_def case_prod_unfold)
  then show "length (snd (reconnected lib ats ks c)) = length ks" by (simp add: reconnected_def Let_def case_prod_unfold)
qed

text \<open>The counter of the loop is the number of its turn until it exceeds a limit below the greatest \<open>usize\<close>.\<close>

lemma word_attempts:
  fixes m :: usize
  shows "n \<le> unat m \<Longrightarrow> word_of_nat n \<le> m" and "m \<noteq> - 1 \<Longrightarrow> m < word_of_nat (unat m + 1)"
proof -
  have bound: "unat m < 2 ^ 64" using unsigned_less [of m, where 'a = nat] by simp
  then show "n \<le> unat m \<Longrightarrow> word_of_nat n \<le> m" by (simp add: word_le_nat_alt unat_of_nat take_bit_nat_eq_self)
  have "unat (- 1 :: usize) = 2 ^ 64 - 1" by (simp add: unsigned_minus_1_eq_mask mask_eq_exp_minus_1)
  then have "unat m \<noteq> 2 ^ 64 - 1" if "m \<noteq> - 1" using that by (metis word_unat_eq_iff)
  with bound have "unat (word_of_nat (unat m + 1) :: usize) = unat m + 1" if "m \<noteq> - 1"
    using that by (subst unat_of_nat) (simp add: take_bit_nat_eq_self)
  then show "m \<noteq> - 1 \<Longrightarrow> m < word_of_nat (unat m + 1)" by (simp only: word_less_nat_alt) simp
qed

lemma reconnect_loop_step:
  assumes "case cb_max_reconnect_attempts (cl_builder c) of Some m \<Rightarrow> i \<le> m | None \<Rightarrow> True"
    and "connect_socket env parse_url (ats n) (cl_builder c) = Some (Inl e)"
  shows "reconnect_loop (Suc fuel) lib env parse_url ats n i c =
    (let (wait, b) = next_backoff lib (at_asked (ats n)) (cl_backoff c) in
     map_option (apsnd (Cons wait)) (reconnect_loop fuel lib env parse_url ats (n + 1) (i + 1) (c\<lparr>cl_backoff := b\<rparr>)))"
  using assms by (auto simp: do_reconnect_def Let_def case_prod_unfold split: option.splits)

lemma reconnect_loop_fails:
  assumes "\<And>j. n \<le> j \<Longrightarrow> j \<le> unat m \<Longrightarrow> \<exists>e. connect_socket env parse_url (ats j) (cl_builder c) = Some (Inl e)"
    and "cb_max_reconnect_attempts (cl_builder c) = Some m" and "m \<noteq> - 1" and "n \<le> unat m + 1" and "unat m + 1 - n < fuel"
  shows "reconnect_loop fuel lib env parse_url ats n (word_of_nat n) c = Some (reconnected lib ats [n..<unat m + 1] c)"
  using assms
proof (induction fuel arbitrary: n c)
  case (Suc fuel)
  show ?case
  proof (cases "n \<le> unat m")
    case True
    then obtain e where "connect_socket env parse_url (ats n) (cl_builder c) = Some (Inl e)" using Suc.prems(1) by blast
    from reconnect_loop_step [where c = c and n = n and i = "word_of_nat n" and ats = ats, OF _ this]
      True Suc.prems Suc.IH [of "n + 1"] word_attempts(1) [OF True] show ?thesis
      by (simp add: Let_def case_prod_unfold upt_conv_Cons add.commute del: upt_Suc reconnect_loop.simps(2))
  next
    case False
    with Suc.prems(4) have "n = unat m + 1" by simp
    with Suc.prems(2) word_attempts(2) [OF Suc.prems(3)] show ?thesis by simp
  qed
qed simp

lemma reconnect_loop_succeeds:
  assumes "\<And>j. n \<le> j \<Longrightarrow> j < k \<Longrightarrow> \<exists>e. connect_socket env parse_url (ats j) (cl_builder c) = Some (Inl e)"
    and "connect_socket env parse_url (ats k) (cl_builder c) = Some (Inr sk)" and "n \<le> k" and "k - n < fuel"
    and "case cb_max_reconnect_attempts (cl_builder c) of Some m \<Rightarrow> k \<le> unat m | None \<Rightarrow> True"
  shows "reconnect_loop fuel lib env parse_url ats n (word_of_nat n) c =
    Some (apfst (\<lambda>c. c\<lparr>cl_socket := sk\<rparr>) (reconnected lib ats [n..<k + 1] c))"
  using assms
proof (induction fuel arbitrary: n c)
  case (Suc fuel)
  have limit: "case cb_max_reconnect_attempts (cl_builder c) of Some m \<Rightarrow> (word_of_nat n :: usize) \<le> m | None \<Rightarrow> True"
    using Suc.prems(3,5) word_attempts(1) [of n] by (auto split: option.splits)
  show ?case
  proof (cases "n = k")
    case True
    with Suc.prems limit show ?thesis
      by (auto simp: do_reconnect_def Let_def case_prod_unfold upt_conv_Cons split: option.splits)
  next
    case False
    then obtain e where "connect_socket env parse_url (ats n) (cl_builder c) = Some (Inl e)" using Suc.prems(1,3) by force
    from reconnect_loop_step [where c = c and n = n and ats = ats, OF limit this] False Suc.prems Suc.IH [of "n + 1"] show ?thesis
      by (simp add: Let_def case_prod_unfold upt_conv_Cons add.commute del: reconnect_loop.simps(2))
  qed
qed simp

text \<open>No counter exceeds the greatest \<open>usize\<close>.\<close>

lemma reconnect_loop_endless:
  assumes "\<And>j. \<exists>e. connect_socket env parse_url (ats j) (cl_builder c) = Some (Inl e)"
    and "cb_max_reconnect_attempts (cl_builder c) \<in> {None, Some (- 1)}"
  shows "reconnect_loop fuel lib env parse_url ats n i c = None"
  using assms
proof (induction fuel arbitrary: n i c)
  case (Suc fuel)
  from Suc.prems(1) [of n] obtain e where "connect_socket env parse_url (ats n) (cl_builder c) = Some (Inl e)" by blast
  moreover have "case cb_max_reconnect_attempts (cl_builder c) of Some m \<Rightarrow> i \<le> m | None \<Rightarrow> True" using Suc.prems(2) by auto
  ultimately show ?case using reconnect_loop_step [where c = c and i = i and n = n and ats = ats] Suc
    by (simp add: Let_def case_prod_unfold del: reconnect_loop.simps(2))
qed simp

text \<open>Over polling, on a network that accepts every output, connecting succeeds.\<close>

lemma reliable_sio_connect:
  assumes "reliable (env_net env)" and "event_tx (engine sk) = None" and "transport (engine sk) = ClientPolling"
    and "\<not> is_server sk" and "\<not> server_end (engine sk)"
  shows "\<exists>sk'. sio_connect env now sk = (sk', Inr ())"
proof -
  have emit: "\<exists>w. socket_emit (env_encode env) (env_net env) p s = (s\<lparr>wire_out := wire_out s @ [w]\<rparr>, Inr ())"
    if "connected s" "transport s = ClientPolling" for p s
    using reliable_emit [OF assms(1) that(1)] that(2)
    by (intro exI [of _ "Post (polling_body (env_encode env) (packet_data (env_encode env) p))"]) (simp add: transport_wire_def)
  let ?s = "(engine sk)\<lparr>connected := True, last_ping := now\<rparr>"
  obtain w where "socket_emit (env_encode env) (env_net env) (packet_new Pong []) ?s = (?s\<lparr>wire_out := wire_out ?s @ [w]\<rparr>, Inr ())"
    using emit [of ?s] assms(3) by auto
  then have conn: "raw_connect env now (is_server sk) (engine sk) = (?s\<lparr>wire_out := wire_out ?s @ [w]\<rparr>, Inr ())"
    using assms(2,4,5) by (simp add: raw_connect_def socket_connect_def send_event_def lift_engine_def)
  let ?p = "packet_new Message (bytes_from_sio_packet (env_to_string env) (sio_packet_new Connect (sk_nsp sk) None None 0 None))"
  obtain w2 where "socket_emit (env_encode env) (env_net env) ?p (?s\<lparr>wire_out := wire_out ?s @ [w]\<rparr>) =
      (?s\<lparr>wire_out := (wire_out ?s @ [w]) @ [w2]\<rparr>, Inr ())"
    using emit [of "?s\<lparr>wire_out := wire_out ?s @ [w]\<rparr>" ?p] assms(3) by auto
  with conn show ?thesis
    by (simp add: sio_connect_def with_engine_def raw_send_def is_engineio_connected_def is_connected_def
        sio_packet_new_def lift_engine_def)
qed

section \<open>Properties\<close>

text \<open>
  C20: When reconnection with a limit of attempts ends. For an address of the web and a limit
  below the greatest usize it terminates, whatever the attempts lead to: it ends with the
  first successful attempt, whose socket it installs, or after one attempt more than the limit
  allows, with the socket unchanged; before each attempt the backoff is asked once, and its
  waits are kept. A limit of zero still allows one attempt. With the greatest usize as the
  limit the counter, which wraps around as it does without overflow checks, never exceeds it:
  as long as attempts fail, the loop does not end.
\<close>

theorem reconnect_terminates:
  assumes "cb_reconnect (cl_builder c)" and "cb_max_reconnect_attempts (cl_builder c) = Some m" and "unat m + 2 \<le> fuel"
    and "\<And>u. parse_url (cb_address (cl_builder c)) = Some u \<Longrightarrow> web_address u"
    and "\<And>k. lawful_set_scheme (ce_set_scheme (at_first (ats k)))"
  shows "(m \<noteq> - 1 \<longrightarrow>
      (\<exists>k\<le>unat m. \<exists>sk. connect_socket env parse_url (ats k) (cl_builder c) = Some (Inr sk) \<and>
         (\<forall>j<k. \<exists>e. connect_socket env parse_url (ats j) (cl_builder c) = Some (Inl e)) \<and>
         client_reconnect fuel lib env parse_url ats c =
           Some (apfst (\<lambda>c. c\<lparr>cl_socket := sk\<rparr>) (reconnected lib ats [0..<k + 1] c))) \<or>
       ((\<forall>j\<le>unat m. \<exists>e. connect_socket env parse_url (ats j) (cl_builder c) = Some (Inl e)) \<and>
         client_reconnect fuel lib env parse_url ats c = Some (reconnected lib ats [0..<unat m + 1] c))) \<and>
    (m = - 1 \<and> (\<forall>k. \<exists>e. connect_socket env parse_url (ats k) (cl_builder c) = Some (Inl e)) \<longrightarrow>
      (\<forall>fuel. client_reconnect fuel lib env parse_url ats c = None))"
proof (intro conjI impI)
  let ?P = "\<lambda>k. \<exists>sk. connect_socket env parse_url (ats k) (cl_builder c) = Some (Inr sk)"
  have fails: "\<exists>e. connect_socket env parse_url (ats j) (cl_builder c) = Some (Inl e)" if "\<not> ?P j" for j
    using that connect_socket_no_panic [of parse_url "cl_builder c" "ats j" env] assms(4,5)
    by (cases rule: connect_socket_cases [of env parse_url "ats j" "cl_builder c"]) auto
  assume m: "m \<noteq> - 1"
  show "(\<exists>k\<le>unat m. \<exists>sk. connect_socket env parse_url (ats k) (cl_builder c) = Some (Inr sk) \<and>
       (\<forall>j<k. \<exists>e. connect_socket env parse_url (ats j) (cl_builder c) = Some (Inl e)) \<and>
       client_reconnect fuel lib env parse_url ats c =
         Some (apfst (\<lambda>c. c\<lparr>cl_socket := sk\<rparr>) (reconnected lib ats [0..<k + 1] c))) \<or>
     ((\<forall>j\<le>unat m. \<exists>e. connect_socket env parse_url (ats j) (cl_builder c) = Some (Inl e)) \<and>
       client_reconnect fuel lib env parse_url ats c = Some (reconnected lib ats [0..<unat m + 1] c))"
  proof (cases "\<exists>k\<le>unat m. ?P k")
    case True
    define k where "k = (LEAST k. ?P k)"
    obtain sk where sk: "connect_socket env parse_url (ats k) (cl_builder c) = Some (Inr sk)"
      using True LeastI_ex [of ?P] by (auto simp: k_def)
    have k: "k \<le> unat m" using True Least_le [of ?P] by (fastforce simp: k_def)
    have before: "\<exists>e. connect_socket env parse_url (ats j) (cl_builder c) = Some (Inl e)" if "j < k" for j
      using not_less_Least [of j ?P] that fails by (auto simp: k_def)
    have "reconnect_loop fuel lib env parse_url ats 0 (word_of_nat 0) c =
        Some (apfst (\<lambda>c. c\<lparr>cl_socket := sk\<rparr>) (reconnected lib ats [0..<k + 1] c))"
      by (rule reconnect_loop_succeeds) (use before sk k assms in auto)
    then have "client_reconnect fuel lib env parse_url ats c =
        Some (apfst (\<lambda>c. c\<lparr>cl_socket := sk\<rparr>) (reconnected lib ats [0..<k + 1] c))"
      using assms(1) by (simp add: client_reconnect_def)
    with sk k before show ?thesis by blast
  next
    case False
    with fails reconnect_loop_fails [of 0 m env parse_url ats c fuel lib] assms(1-3) m show ?thesis
      by (auto simp: client_reconnect_def)
  qed
qed (use assms(1,2) reconnect_loop_endless [of env parse_url ats c] in \<open>simp add: client_reconnect_def\<close>)

text \<open>A backoff that gives the same wait until it is too old, for evaluation.\<close>

definition example_backoff :: "(instant \<times> nat) backoff" where
  "example_backoff = \<lparr>backoff_new = \<lambda>lo hi now. (now, unat lo),
     next_backoff = \<lambda>now (start, wait). (if start + 900000 < now then None else Some wait, (start, wait))\<rparr>"

definition example_client :: "(instant \<times> nat) sio_client" where
  "example_client =
     \<lparr>cl_builder = cb_set_max_reconnect_attempts 2 (client_builder_new (str ''h'')),
      cl_socket = example_sio {}, cl_connected = True, cl_backoff = backoff_new example_backoff 1000 5000 0\<rparr>"

definition example_attempt :: attempt where
  "example_attempt = \<lparr>at_asked = 0, at_first = example_client_env, at_fallback = example_client_env, at_now = 0\<rparr>"

lemma example_client_simps [simp]:
  "cl_builder example_client = cb_set_max_reconnect_attempts 2 (client_builder_new (str ''h''))"
  "cl_connected example_client" "cl_backoff example_client = (0, 1000)"
  "next_backoff example_backoff now (start, wait) = (if start + 900000 < now then None else Some wait, (start, wait))"
  by (simp_all add: example_client_def example_backoff_def)

lemma example_reconnected:
  "reconnected example_backoff (\<lambda>_. example_attempt) [0..<3] example_client = (example_client, [Some 1000, Some 1000, Some 1000])"
  by (simp add: reconnected_def example_attempt_def upt_rec)

theorem reconnect_terminates_witness:
  "client_reconnect 4 example_backoff example_env (\<lambda>_. None) (\<lambda>_. example_attempt) example_client =
    Some (example_client, [Some 1000, Some 1000, Some 1000])"
  using example_reconnected reconnect_terminates [of example_client 2 4 "\<lambda>_. None" "\<lambda>_. example_attempt" example_env example_backoff]
    example_set_scheme
  by (simp add: example_attempt_def cb_set_max_reconnect_attempts_def client_builder_new_def connect_socket_def)

text \<open>
  Without a limit, reconnection goes on through any number of failures and ends with the
  first attempt that succeeds; the new socket replaces the old one.
\<close>

theorem reconnect_unlimited:
  assumes "cb_reconnect (cl_builder c)" and "cb_max_reconnect_attempts (cl_builder c) = None"
    and "connect_socket env parse_url (ats k) (cl_builder c) = Some (Inr sk)"
    and "\<forall>j<k. \<exists>e. connect_socket env parse_url (ats j) (cl_builder c) = Some (Inl e)"
  shows "client_reconnect (Suc k) lib env parse_url ats c =
    Some (apfst (\<lambda>c. c\<lparr>cl_socket := sk\<rparr>) (reconnected lib ats [0..<k + 1] c))"
proof -
  have "reconnect_loop (Suc k) lib env parse_url ats 0 (word_of_nat 0) c =
      Some (apfst (\<lambda>c. c\<lparr>cl_socket := sk\<rparr>) (reconnected lib ats [0..<k + 1] c))"
    by (rule reconnect_loop_succeeds) (use assms in auto)
  with assms(1) show ?thesis by (simp add: client_reconnect_def)
qed

text \<open>
  C35: An error of the socket that is not an error of the engine, such as a packet that cannot
  be decoded, is not recovered from. The polling task goes on without reconnecting, and from
  then on every turn of it changes nothing and never ends: no packet is received any more.
\<close>

theorem decode_error_stalls:
  assumes "client_poll_packet env now c = (c', RawItem (Inl e))" and "\<forall>x. e \<noteq> SIncompleteResponseFromEngineIo x"
    and "cl_connected c"
  shows "poll_callback_turn fuel lib env parse_url ats now c = Some (c', True) \<and>
    (\<forall>fuel' lib' env' parse_url' ats' later. poll_callback_turn fuel' lib' env' parse_url' ats' later c' = Some (c', True))"
proof -
  obtain sk' where p: "sio_poll_packet env now (cl_socket c) = (sk', RawItem (Inl e))" and c': "c' = c\<lparr>cl_socket := sk'\<rparr>"
    using assms(1) by (auto simp: client_poll_packet_def with_socket_def split: prod.splits)
  have "ended sk'" using sio_poll_outcome [OF p] by simp
  then have "sio_poll_packet env' later sk' = (sk', RawEnd)" for env' later
    by (simp add: sio_poll_packet.simps [of env' later sk'] raw_poll_packet_def)
  moreover have "poll_callback_turn fuel lib env parse_url ats now c = Some (c', True)"
    using assms c' by (cases e) (simp_all add: poll_callback_turn_def)
  ultimately show ?thesis using assms(3) c' by (simp add: poll_callback_turn_def client_poll_packet_def with_socket_def)
qed

lemma garbage_poll:
  assumes "\<not> ended sk" and "generator (engine sk) = [Inr (packet_new Message [120])]"
  shows "\<exists>sk'. sio_poll_packet env now sk = (sk', RawItem (Inl (SInvalidPacketType 120)))"
proof -
  have "from_utf8 [120] = Some [120]" by (simp add: from_utf8_Some_iff scalar_def)
  then have bad: "sio_packet_try_from from_str [120] = Inl (SInvalidPacketType 120)" for from_str
    by (simp add: sio_packet_try_from_def sio_packet_type_from_char_def)
  let ?s = "handle_incoming_packet (env_encode env) (env_net env) now (packet_new Message [120]) ((engine sk)\<lparr>generator := []\<rparr>)"
  have "socket_poll_next (env_encode env) (env_net env) now (engine sk) = (?s, Some (Inr (packet_new Message [120])))"
    using assms(2) by (simp add: socket_poll_next_def)
  then have "raw_stream_next env now (engine sk) = (?s, RawItem (Inl (SInvalidPacketType 120)))"
    by (simp add: raw_stream_next.simps [of env now "engine sk"] handle_engineio_packet_def bad)
  with assms(1) show ?thesis by (simp add: sio_poll_packet.simps [of env now sk] raw_poll_packet_def)
qed

theorem decode_error_stalls_witness:
  "\<exists>c' :: (instant \<times> nat) sio_client. \<forall>fuel' lib' env' parse_url' ats' later.
     poll_callback_turn fuel' lib' env' parse_url' ats' later c' = Some (c', True)"
proof -
  let ?sk = "(example_sio {})\<lparr>engine := (example_socket ClientPolling)\<lparr>generator := [Inr (packet_new Message [120])]\<rparr>\<rparr>"
  let ?c = "example_client\<lparr>cl_socket := ?sk\<rparr>"
  obtain sk' where "sio_poll_packet example_env 0 ?sk = (sk', RawItem (Inl (SInvalidPacketType 120)))"
    using garbage_poll [of ?sk example_env 0] by auto
  then have "client_poll_packet example_env 0 ?c = (?c\<lparr>cl_socket := sk'\<rparr>, RawItem (Inl (SInvalidPacketType 120)))"
    by (simp add: client_poll_packet_def with_socket_def)
  from decode_error_stalls [OF this, of 0 example_backoff "\<lambda>_. None" "\<lambda>_. example_attempt"] show ?thesis
    by (intro exI [of _ "?c\<lparr>cl_socket := sk'\<rparr>"]) simp
qed



text \<open>
  A client that has connected is open and has introduced itself: its engine socket is
  connected, and all it has sent is a pong that starts the ping cycle and the connect packet
  of its namespace, in this order.
\<close>

theorem client_introduction:
  assumes "connect_socket env parse_url at b = Some (Inr sk)"
  shows "connected (engine sk) \<and> sk_connected sk \<and> sk_nsp sk = cb_namespace b \<and> on sk = cb_on b \<and>
    (\<exists>t. try_map (transport_wire (env_encode env) t)
        (map (packet_data (env_encode env)) (opening_packets env (cb_namespace b))) = Inr (wire_out (engine sk)))"
proof -
  obtain s where conn: "sio_connect env (at_now at) (sio_socket_new s False (cb_namespace b) (cb_on b)) = (sk, Inr ())"
    and s: "wire_out s = [] \<and> event_tx s = None \<and> \<not> server_end s"
    using assms by (auto simp: connect_socket_def Let_def split: option.splits sum.splits prod.splits client_transport.splits
        dest: build_fresh_rules)
  let ?sk = "sio_socket_new s False (cb_namespace b) (cb_on b)"
  have "\<not> is_server ?sk" "event_tx (engine ?sk) = None" "\<not> server_end (engine ?sk)" "wire_out (engine ?sk) = []"
    "sk_nsp ?sk = cb_namespace b" "sk_connected ?sk" "on ?sk = cb_on b"
    using s by (simp_all add: sio_socket_new_def)
  with sio_connect_ok [OF conn] show ?thesis by auto
qed

definition example_polling_builder :: client_builder where
  "example_polling_builder = cb_set_transport_type TPolling (client_builder_new (str ''h''))"

lemma example_connects:
  "\<exists>sk. connect_socket example_env (\<lambda>_. Some example_url) example_attempt example_polling_builder = Some (Inr sk)"
proof -
  let ?u = "example_url\<lparr>url_path := str ''/socket.io/''\<rparr>"
  let ?s = "socket_new 0 ClientPolling (socket_stream rfc_decode [Inr [48]]) example_handshake None True False"
  have s: "build_polling example_client_env 0 (socket_builder_new ?u) = Some (Inr ?s)"
    unfolding build_polling_def example_client_handshake
    by (simp add: convert_headers_def client_polling_new_def example_client_env_def socket_builder_new_def Let_def)
  obtain sk where "sio_connect example_env 0 (sio_socket_new ?s False (str ''/'') {}) = (sk, Inr ())"
    using reliable_sio_connect [OF example_env_laws(3), of "sio_socket_new ?s False (str ''/'') {}"]
    by (auto simp: sio_socket_new_def socket_new_def)
  with s show ?thesis
    by (simp add: example_polling_builder_def connect_socket_def example_attempt_def cb_set_transport_type_def
        client_builder_new_def example_url_def Let_def)
qed

theorem client_introduction_witness:
  "\<exists>sk. connect_socket example_env (\<lambda>_. Some example_url) example_attempt example_polling_builder = Some (Inr sk) \<and>
    connected (engine sk)"
proof -
  obtain sk where "connect_socket example_env (\<lambda>_. Some example_url) example_attempt example_polling_builder = Some (Inr sk)"
    using example_connects by blast
  with client_introduction [OF this] show ?thesis by blast
qed

text \<open>Disconnecting leaves what the socket still has to read.\<close>

lemma disconnect_keeps_stream:
  "generator (engine (fst (sio_disconnect env sk))) = generator (engine sk) \<and> ended (fst (sio_disconnect env sk)) = ended sk"
proof -
  have emit: "generator (fst (socket_emit encode net p s)) = generator s" for encode net p s
    by (auto simp: socket_emit_def on_error_def split: prod.splits sum.splits)
  have "generator (fst (raw_disconnect env s)) = generator s" for s
    by (simp add: raw_disconnect_def socket_disconnect_eq emit Let_def)
  moreover have "generator (fst (raw_send env (sio_packet_new t n None None 0 None) s)) = generator s" for t n s
    by (simp add: raw_send_def sio_packet_new_def emit Let_def)
  ultimately show ?thesis
    by (auto simp: sio_disconnect_def with_engine_def Let_def case_prod_unfold split: sum.splits prod.splits)
qed

text \<open>
  C30: A client that has been disconnected may come back. If the poll after the disconnection
  meets an error of the engine, the polling task reconnects all the same and then ends: the
  client has a new open socket, which has introduced itself to the server and which nobody
  polls, and disconnecting the client again does nothing, as it counts as disconnected.
\<close>

theorem disconnected_client_reconnects:
  assumes "cl_connected c" and "client_disconnect env c = (c1, r)" and "cb_reconnect (cl_builder c)"
    and "client_poll_packet env1 now c1 = (c2, RawItem (Inl (SIncompleteResponseFromEngineIo e)))"
    and "connect_socket env1 parse_url (ats 0) (cl_builder c) = Some (Inr sk)" and "0 < fuel"
  shows "\<exists>c3. poll_callback fuel lib env1 parse_url ((ats, now) # turns) c1 = Some (c3, False) \<and>
    cl_socket c3 = sk \<and> sk_connected sk \<and> connected (engine sk) \<and> client_disconnect env' c3 = (c3, Inr ())"
proof -
  have c1: "cl_builder c1 = cl_builder c" "\<not> cl_connected c1"
    using assms(1,2) by (auto simp: client_disconnect_def disconnect_socket_def with_socket_def split: prod.splits)
  define c2' where "c2' = fst (disconnect_socket env1 c2)"
  have c2': "cl_builder c2' = cl_builder c" "\<not> cl_connected c2'"
    using c1 assms(4) by (auto simp: c2'_def client_poll_packet_def disconnect_socket_def with_socket_def split: prod.splits)
  let ?c = "fst (reconnected lib ats [0] c2')"
  have "client_reconnect fuel lib env1 parse_url ats c2' = Some (apfst (\<lambda>c. c\<lparr>cl_socket := sk\<rparr>) (reconnected lib ats [0] c2'))"
    unfolding client_reconnect_def using reconnect_loop_succeeds [of 0 0 env1 parse_url ats c2' sk fuel lib] assms(3,5,6) c2'
    by (simp del: reconnected_simps split: option.splits)
  moreover have c3: "\<not> cl_connected ?c"
    using c2'(2) by (simp add: Let_def case_prod_unfold)
  ultimately have "poll_callback fuel lib env1 parse_url ((ats, now) # turns) c1 = Some (?c\<lparr>cl_socket := sk\<rparr>, False)"
    using assms(4) c2'_def by (simp add: poll_callback_turn_def apfst_def map_prod_def case_prod_unfold del: reconnected_simps)
  then show ?thesis
    using client_introduction [OF assms(5)] c3 by (auto simp: client_disconnect_def simp del: reconnected_simps)
qed

theorem disconnected_client_reconnects_witness:
  "let c = \<lparr>cl_builder = example_polling_builder,
       cl_socket = (example_sio {})\<lparr>engine := (example_socket ClientPolling)\<lparr>generator := [Inl HttpError]\<rparr>\<rparr>,
       cl_connected = True, cl_backoff = (0, 1000)\<rparr>
   in \<exists>c3. poll_callback 1 example_backoff example_env (\<lambda>_. Some example_url) [(\<lambda>_. example_attempt, 5)]
       (fst (client_disconnect example_env c)) = Some (c3, False) \<and> connected (engine (cl_socket c3))"
proof -
  define c where "c = \<lparr>cl_builder = example_polling_builder,
       cl_socket = (example_sio {})\<lparr>engine := (example_socket ClientPolling)\<lparr>generator := [Inl HttpError]\<rparr>\<rparr>,
       cl_connected = True, cl_backoff = (0 :: nat, 1000 :: nat)\<rparr>"
  obtain c1 r where d: "client_disconnect example_env c = (c1, r)" by fastforce
  then have "cl_socket c1 = fst (sio_disconnect example_env (cl_socket c))"
    by (auto simp: c_def client_disconnect_def disconnect_socket_def with_socket_def split: prod.splits)
  then have stream: "generator (engine (cl_socket c1)) = [Inl HttpError]" "\<not> ended (cl_socket c1)"
    using disconnect_keeps_stream [of example_env "cl_socket c"] by (simp_all add: c_def)
  have "\<exists>c2. client_poll_packet example_env 5 c1 = (c2, RawItem (Inl (SIncompleteResponseFromEngineIo HttpError)))"
    using stream by (simp add: client_poll_packet_def with_socket_def sio_poll_packet.simps [of _ _ "cl_socket c1"]
        raw_poll_packet_def raw_stream_next.simps [of _ _ "engine (cl_socket c1)"] socket_poll_next_def)
  then obtain c2 where "client_poll_packet example_env 5 c1 = (c2, RawItem (Inl (SIncompleteResponseFromEngineIo HttpError)))"
    by blast
  moreover obtain sk where "connect_socket example_env (\<lambda>_. Some example_url) example_attempt (cl_builder c) = Some (Inr sk)"
    using example_connects by (auto simp: c_def)
  moreover have "cl_connected c" "cb_reconnect (cl_builder c)"
    by (simp_all add: c_def example_polling_builder_def cb_set_transport_type_def client_builder_new_def)
  ultimately have "\<exists>c3. poll_callback 1 example_backoff example_env (\<lambda>_. Some example_url) [(\<lambda>_. example_attempt, 5)] c1 =
      Some (c3, False) \<and> connected (engine (cl_socket c3))"
    using disconnected_client_reconnects [of c example_env c1 r example_env 5 c2 HttpError "\<lambda>_. Some example_url"
        "\<lambda>_. example_attempt" sk 1 example_backoff "[]"] d by auto
  with d show ?thesis unfolding c_def [symmetric] Let_def by simp
qed

text \<open>
  The states of a client from its creation: calls change its socket or its flag, the polling
  task reconnects it.
\<close>

inductive client_reach :: "'b backoff \<Rightarrow> 'b sio_client \<Rightarrow> 'b sio_client \<Rightarrow> bool" for lib c0 where
  reach_new: "client_reach lib c0 c0"
| reach_socket: "client_reach lib c0 c \<Longrightarrow> client_reach lib c0 (c\<lparr>cl_socket := sk\<rparr>)"
| reach_disconnected: "client_reach lib c0 c \<Longrightarrow> client_reach lib c0 (c\<lparr>cl_connected := False\<rparr>)"
| reach_reconnect: "client_reach lib c0 c \<Longrightarrow> client_reconnect fuel lib env parse_url ats c = Some (c', waits) \<Longrightarrow>
    client_reach lib c0 c'"

lemma reconnect_start:
  assumes "\<forall>now b. start (snd (next_backoff lib now b)) = start b"
    and "client_reconnect fuel lib env parse_url ats c = Some (c', waits)"
  shows "start (cl_backoff c') = start (cl_backoff c) \<and>
    ((\<forall>b k. start b = start (cl_backoff c) \<longrightarrow> fst (next_backoff lib (at_asked (ats k)) b) = None) \<longrightarrow> set waits \<subseteq> {None})"
proof -
  have "start (cl_backoff c') = start (cl_backoff c) \<and>
    ((\<forall>b k. start b = start (cl_backoff c) \<longrightarrow> fst (next_backoff lib (at_asked (ats k)) b) = None) \<longrightarrow> set waits \<subseteq> {None})"
    if "reconnect_loop fuel lib env parse_url ats n i c = Some (c', waits)" for n i
    using that
  proof (induction fuel arbitrary: n i c waits)
    case (Suc fuel)
    let ?c = "c\<lparr>cl_backoff := snd (next_backoff lib (at_asked (ats n)) (cl_backoff c))\<rparr>"
    have start: "start (cl_backoff ?c) = start (cl_backoff c)" using assms(1) by simp
    show ?case
    proof (cases rule: connect_socket_cases [of env parse_url "ats n" "cl_builder c"])
      case panicked
      with Suc.prems start show ?thesis by (auto simp: do_reconnect_def Let_def case_prod_unfold split: if_splits)
    next
      case (failed e)
      with Suc.prems Suc.IH [of "n + 1" "i + 1" ?c] start show ?thesis
        by (auto simp: do_reconnect_def Let_def case_prod_unfold split: if_splits)
    next
      case (connected sk)
      with Suc.prems start show ?thesis by (auto simp: do_reconnect_def Let_def case_prod_unfold split: if_splits)
    qed
  qed simp
  with assms(2) show ?thesis by (auto simp: client_reconnect_def split: if_splits)
qed

lemma reach_start:
  assumes "client_reach lib c0 c" and "\<forall>now b. start (snd (next_backoff lib now b)) = start b"
  shows "start (cl_backoff c) = start (cl_backoff c0)"
  using assms by (induction rule: client_reach.induct) (auto dest: reconnect_start)

text \<open>
  C31: A client that is old enough reconnects without any pause. The backoff is created with
  the client and never reset; it gives no wait once it is older than the time after which the
  library stops retries. In whatever state a client of that age is, and however many of the
  attempts of a reconnection fail, all of them are made without waiting.
\<close>

theorem old_client_never_pauses:
  assumes "\<forall>now b. start (snd (next_backoff lib now b)) = start b"
    and "\<forall>now b. start b + max_elapsed < now \<longrightarrow> fst (next_backoff lib now b) = None"
    and "\<forall>lo hi now. start (backoff_new lib lo hi now) = now"
    and "client_new lib env0 parse_url0 at0 builder = Some (Inr c0)" and "client_reach lib c0 c"
    and "\<forall>k. at_now at0 + max_elapsed < at_asked (ats k)"
    and "client_reconnect fuel lib env parse_url ats c = Some (c', waits)"
  shows "waits = replicate (length waits) None"
proof -
  have "start (cl_backoff c0) = at_now at0"
    using assms(3,4) by (auto simp: client_new_def try_bind_Inr_iff)
  then have "start (cl_backoff c) = at_now at0" using reach_start [OF assms(5,1)] by simp
  then have "set waits \<subseteq> {None}" using reconnect_start [OF assms(1,7)] assms(2,6) by simp
  then show ?thesis by (intro replicate_eqI) auto
qed

theorem old_client_never_pauses_witness:
  "\<exists>c0. client_new example_backoff example_env (\<lambda>_. Some example_url) example_attempt
      (cb_set_max_reconnect_attempts 2 example_polling_builder) = Some (Inr c0) \<and>
    client_reconnect 4 example_backoff example_env (\<lambda>_. None) (\<lambda>_. example_attempt\<lparr>at_asked := 900001\<rparr>) c0 =
      Some (c0, [None, None, None])"
proof -
  let ?b = "cb_set_max_reconnect_attempts 2 example_polling_builder" and ?at = "example_attempt\<lparr>at_asked := 900001\<rparr>"
  obtain sk where sk: "connect_socket example_env (\<lambda>_. Some example_url) example_attempt ?b = Some (Inr sk)"
    using example_connects by (auto simp: connect_socket_def cb_set_max_reconnect_attempts_def)
  define c0 where "c0 = \<lparr>cl_builder = ?b, cl_socket = sk, cl_connected = True, cl_backoff = (0 :: nat, 1000 :: nat)\<rparr>"
  have new: "client_new example_backoff example_env (\<lambda>_. Some example_url) example_attempt ?b = Some (Inr c0)"
    unfolding client_new_def sk c0_def
    by (simp add: example_backoff_def example_attempt_def example_polling_builder_def
        cb_set_max_reconnect_attempts_def cb_set_transport_type_def client_builder_new_def)
  have at: "at_asked ?at = 900001" "at_now ?at = 0" by (simp_all add: example_attempt_def)
  have "client_reconnect 4 example_backoff example_env (\<lambda>_. None) (\<lambda>_. ?at) c0 =
      Some (reconnected example_backoff (\<lambda>_. ?at) [0..<unat (2 :: usize) + 1] c0)"
    unfolding client_reconnect_def
    using reconnect_loop_fails [where m = 2 and n = 0 and c = c0 and fuel = 4 and env = example_env and parse_url = "\<lambda>_. None"
        and ats = "\<lambda>_. ?at" and lib = example_backoff]
    by (simp add: c0_def connect_socket_def example_polling_builder_def cb_set_max_reconnect_attempts_def
        cb_set_transport_type_def client_builder_new_def)
  then obtain c' waits where run: "client_reconnect 4 example_backoff example_env (\<lambda>_. None) (\<lambda>_. ?at) c0 = Some (c', waits)"
    and len: "length waits = 3" and c': "c' = c0"
    by (cases "reconnected example_backoff (\<lambda>_. ?at) [0..<unat (2 :: usize) + 1] c0")
      (auto simp: reconnected_def c0_def upt_rec at)
  have "waits = replicate (length waits) None"
    by (rule old_client_never_pauses [where start = fst and max_elapsed = 900000, OF _ _ _ new reach_new _ run])
      (simp_all add: example_backoff_def example_attempt_def case_prod_unfold)
  then have "waits = [None, None, None]" using len by (simp add: numeral_3_eq_3)
  with run c' new show ?thesis by blast
qed

end
