(* ===== verification/Sio_Callbacks.thy ===== *)
theory Sio_Callbacks
  imports Sio_Sessions Sio_Client
begin

text \<open>
  Callbacks (\<open>socketio/src/callback.rs\<close>) and their calls (\<open>socketio/src/socket.rs\<close>,
  \<open>socketio/src/server/client.rs\<close>). The other theories record which callback is started with
  which arguments; here callbacks have a body, a sequence of calls on the handle they get, and
  recorded calls are carried out one after the other, as the tasks that run them do when they
  do not overlap. The lemmas follow a message into a socket that reads it, and a turn of a
  server's polling task with the callback it starts. The programs are in theory \<open>Sio_Programs\<close>.
\<close>

section \<open>Callbacks\<close>

text \<open>
  A statement of a body is a call whose result is ignored or expected to be a success; in the
  second case an error panics, which ends the task of the callback.
\<close>

datatype 'c stmt = Ignore 'c | Expect 'c

record 'c callback =
  inner :: "sio_payload option \<Rightarrow> usize option \<Rightarrow> 'c stmt list"

definition callback_new :: "(sio_payload option \<Rightarrow> usize option \<Rightarrow> 'c stmt list) \<Rightarrow> 'c callback" where
  "callback_new f = \<lparr>inner = f\<rparr>"

text \<open>
  A body in a state: \<open>exec\<close> carries out one call, and \<open>None\<close> is a call that the model cannot
  carry out.
\<close>

fun run_body ::
  "('c \<Rightarrow> 's \<Rightarrow> ('s \<times> (sio_error + unit)) option) \<Rightarrow> 'c stmt list \<Rightarrow> 's \<Rightarrow> 's option" where
  "run_body exec [] st = Some st"
| "run_body exec (Ignore c # body) st =
     (case exec c st of None \<Rightarrow> None | Some (st, _) \<Rightarrow> run_body exec body st)"
| "run_body exec (Expect c # body) st =
     (case exec c st of None \<Rightarrow> None | Some (st, Inl _) \<Rightarrow> Some st | Some (st, Inr _) \<Rightarrow> run_body exec body st)"

text \<open>
  The callbacks of a socket: those of its events, and those of the acknowledgements it waits
  for, by their ids. An acknowledgement gets no id to acknowledge.
\<close>

record 'c handlers =
  on_event :: "sio_event \<Rightarrow> 'c callback option"
  on_ack :: "usize \<Rightarrow> 'c callback option"

fun call_body :: "'c handlers \<Rightarrow> sio_call \<Rightarrow> 'c stmt list" where
  "call_body hs (EventCall e d i) = (case on_event hs e of None \<Rightarrow> [] | Some cb \<Rightarrow> inner cb d i)"
| "call_body hs (AckCall i d) = (case on_ack hs i of None \<Rightarrow> [] | Some cb \<Rightarrow> inner cb d None)"

fun run_calls ::
  "('c \<Rightarrow> 's \<Rightarrow> ('s \<times> (sio_error + unit)) option) \<Rightarrow> 'c handlers \<Rightarrow> sio_call list \<Rightarrow> 's \<Rightarrow> 's option" where
  "run_calls exec hs [] st = Some st"
| "run_calls exec hs (c # cs) st =
     (case run_body exec (call_body hs c) st of None \<Rightarrow> None | Some st \<Rightarrow> run_calls exec hs cs st)"

text \<open>The calls that a step has recorded.\<close>

definition new_calls :: "sio_socket \<Rightarrow> sio_socket \<Rightarrow> sio_call list" where
  "new_calls sk sk' = drop (length (calls sk)) (calls sk')"

section \<open>Calls on the handle of a server's client\<close>

datatype server_call =
    DoJoin "room list"
  | DoLeave "room list"
  | DoEmitTo "room list" sio_event sio_payload
  | DoEmitToWithAck "room list" sio_event sio_payload nat
  | DoEmit sio_event sio_payload
  | DoEmitWithAck sio_event sio_payload nat
  | DoAck usize sio_payload
  | DoDisconnect

text \<open>
  A call on the socket behind a handle, which the registry holds; the socket of a client that
  is not registered lives only in its handles, and a call on it is not modelled.
\<close>

definition on_handle ::
  "srv_env \<Rightarrow> server_client \<Rightarrow> (sio_env \<Rightarrow> sio_socket \<Rightarrow> sio_socket \<times> (sio_error + unit)) \<Rightarrow> sio_server \<Rightarrow>
     (sio_server \<times> (sio_error + unit)) option" where
  "on_handle env c f srv =
     (case (client (se_decode env) (sc_sid c) (sc_nsp c) srv, sio_sid_decode (se_decode env) (sc_sid c)) of
        (Some sk, Some esid) \<Rightarrow>
          Some (on_client esid (sc_sid c) (sc_nsp c) (f (server_env (se_env env) esid srv)) sk srv)
      | _ \<Rightarrow> None)"

fun server_exec ::
  "srv_env \<Rightarrow> instant \<Rightarrow> server_client \<Rightarrow> server_call \<Rightarrow> sio_server \<Rightarrow> (sio_server \<times> (sio_error + unit)) option" where
  "server_exec env now c (DoJoin names) srv = Some (sc_join c names srv, Inr ())"
| "server_exec env now c (DoLeave names) srv = Some (sc_leave c names srv, Inr ())"
| "server_exec env now c (DoEmitTo names e d) srv =
     Some (sc_emit_to (se_env env) (se_decode env) (se_order env) c names e d srv, Inr ())"
| "server_exec env now c (DoEmitToWithAck names e d timeout) srv =
     Some (sc_emit_to_with_ack (se_env env) (se_decode env) (se_order env) now c names e d timeout srv, Inr ())"
| "server_exec env now c (DoEmit e d) srv = on_handle env c (\<lambda>env. sio_emit env e d) srv"
| "server_exec env now c (DoEmitWithAck e d timeout) srv =
     on_handle env c (\<lambda>env. sio_emit_with_ack env now e d timeout) srv"
| "server_exec env now c (DoAck i d) srv = on_handle env c (\<lambda>env. sio_ack env i d) srv"
| "server_exec env now c DoDisconnect srv = on_handle env c sio_disconnect srv"

text \<open>A turn of the polling task of a client, with the callbacks that it starts.\<close>

definition server_turn ::
  "srv_env \<Rightarrow> server_call handlers \<Rightarrow> instant \<Rightarrow> server_client \<Rightarrow> sio_server \<Rightarrow> sio_server option" where
  "server_turn env hs now c srv =
     (let srv' = poll_client env now (sc_sid c) (sc_nsp c) srv in
      case (client (se_decode env) (sc_sid c) (sc_nsp c) srv, client (se_decode env) (sc_sid c) (sc_nsp c) srv') of
        (Some sk, Some sk') \<Rightarrow> run_calls (server_exec env now c) hs (new_calls sk sk') srv'
      | _ \<Rightarrow> Some srv')"

section \<open>Calls on the socket of a client\<close>

datatype client_call =
    SocketEmit sio_event sio_payload
  | SocketEmitWithAck sio_event sio_payload nat
  | SocketAck usize sio_payload
  | SocketDisconnect

fun client_exec ::
  "sio_env \<Rightarrow> instant \<Rightarrow> client_call \<Rightarrow> sio_socket \<Rightarrow> (sio_socket \<times> (sio_error + unit)) option" where
  "client_exec env now (SocketEmit e d) sk = Some (sio_emit env e d sk)"
| "client_exec env now (SocketEmitWithAck e d timeout) sk = Some (sio_emit_with_ack env now e d timeout sk)"
| "client_exec env now (SocketAck i d) sk = Some (sio_ack env i d sk)"
| "client_exec env now SocketDisconnect sk = Some (sio_disconnect env sk)"

definition client_turn :: "sio_env \<Rightarrow> client_call handlers \<Rightarrow> instant \<Rightarrow> sio_socket \<Rightarrow> sio_socket option" where
  "client_turn env hs now sk =
     (let (sk', _) = sio_poll_packet env now sk in run_calls (client_exec env now) hs (new_calls sk sk') sk')"

section \<open>Messages that a socket reads\<close>

text \<open>The head of a packet is a text message of the engine; without binaries it is the whole packet.\<close>

lemma built_head_text:
  assumes "serde_json (env_to_string env) (env_from_str env)" and "wf_nsp ns" and "0x1e \<notin> set ns"
    and "proper_payload d" and "case e of Some ev \<Rightarrow> wf_str (string_from_event ev) | None \<Rightarrow> True"
  shows "text_packet (packet_new Message (bytes_from_sio_packet (env_to_string env) (build_packet_for_payload d e ns i b)))"
proof -
  let ?p = "build_packet_for_payload d e ns i b"
  let ?m = "packet_new Message (bytes_from_sio_packet (env_to_string env) ?p)"
  have wf: "wf_sio_packet ?p" by (rule wf_built [OF assms(2,4,5)])
  have "sio_packet_try_from (env_from_str env) (edata ?m) = Inr (received ?p)"
    using serde_json.sio_packet_encode_decode [OF assms(1) wf] by simp
  then have "from_utf8 (edata ?m) \<noteq> None" by (cases "from_utf8 (edata ?m)") (simp_all add: sio_packet_try_from_def)
  with built_engine_packets [OF assms(1) wf] assms(3) show ?thesis by (simp add: text_packet_def engine_packets_def)
qed

lemma text_built_packet:
  assumes "serde_json (env_to_string env) (env_from_str env)" and "wf_nsp ns" and "0x1e \<notin> set ns"
    and "proper_payload d" and "raw_binaries (payload_raws d) = []"
    and "case e of Some ev \<Rightarrow> wf_str (string_from_event ev) | None \<Rightarrow> True"
  shows "\<exists>m. engine_packets (env_to_string env) (build_packet_for_payload d e ns i b) = [m] \<and> text_packet m \<and>
    eptype m = Message \<and> edata m = bytes_from_sio_packet (env_to_string env) (build_packet_for_payload d e ns i b)"
  using built_head_text [OF assms(1-4,6)] built_attachments [OF assms(4)] assms(5) by (simp add: engine_packets_def)

lemma text_event_packet:
  assumes "serde_json (env_to_string env) (env_from_str env)" and "wf_nsp ns" and "0x1e \<notin> set ns"
    and "proper_payload d" and "raw_binaries (payload_raws d) = []" and "wf_str (string_from_event e)"
  shows "\<exists>m. engine_packets (env_to_string env) (build_packet_for_payload d (Some e) ns i False) = [m] \<and> text_packet m \<and>
    eptype m = Message \<and> edata m = bytes_from_sio_packet (env_to_string env) (build_packet_for_payload d (Some e) ns i False)"
  using text_built_packet [OF assms(1-5), of "Some e"] assms(6) by simp

text \<open>
  A socket that has this message as its next item starts the callback of the event, or that of
  the acknowledgement it waits for.
\<close>

lemma text_built_arrives:
  assumes "serde_json (env_to_string env) (env_from_str env)" and "wf_nsp ns" and "proper_payload d"
    and "raw_binaries (payload_raws d) = []" and "case e of Some ev \<Rightarrow> wf_str (string_from_event ev) | None \<Rightarrow> True"
    and "eptype m = Message" and "edata m = bytes_from_sio_packet (env_to_string env) (build_packet_for_payload d e ns i b)"
    and "generator s = [Inr m]"
  shows "\<exists>s'. raw_stream_next env later s = (s', RawItem (Inr (arrived (build_packet_for_payload d e ns i b) [])))"
proof -
  let ?p = "build_packet_for_payload d e ns i b"
  have wf: "wf_sio_packet ?p" "unat (attachment_count ?p) = length ([] :: eio_packet list)"
    using wf_built [OF assms(2,3,5)] built_attachments [OF assms(3)] assms(4) by simp_all
  have "\<exists>s'. raw_stream_next env later s = (s', RawItem (Inr (arrived ?p (map edata ([] :: eio_packet list))))) \<and> generator s' = []"
    by (rule raw_stream_arrived [OF assms(1) wf _ assms(6,7)]) (use assms(8) in simp_all)
  then show ?thesis by auto
qed

lemma text_event_polled:
  assumes "serde_json (env_to_string env) (env_from_str env)" and "wf_nsp ns" and "proper_payload d"
    and "raw_binaries (payload_raws d) = []" and "proper_event e" and "wf_str (string_from_event e)"
    and "eptype m = Message" and "edata m = bytes_from_sio_packet (env_to_string env) (build_packet_for_payload d (Some e) ns i False)"
    and "generator (engine rk) = [Inr m]" and "\<not> ended rk" and "sk_nsp rk = ns" and "e \<in> on rk"
  shows "\<exists>rk' q. sio_poll_packet env later rk = (rk', RawItem (Inr q)) \<and>
    calls rk' = calls rk @ [EventCall e (Some (payload_of_raws (payload_raws d))) i]"
proof -
  obtain s' where "raw_stream_next env later (engine rk) = (s', RawItem (Inr (arrived (build_packet_for_payload d (Some e) ns i False) [])))"
    using text_built_arrives [OF assms(1-4) _ assms(7,8,9), of later] assms(6) by auto
  from sio_poll_arrived [OF this assms(10)] assms(4,11,12) handle_built_event [OF assms(3,5), of "rk\<lparr>engine := s'\<rparr>" ns env later i]
  show ?thesis by simp
qed

lemma text_ack_polled:
  assumes "serde_json (env_to_string env) (env_from_str env)" and "wf_nsp ns" and "proper_payload d"
    and "raw_binaries (payload_raws d) = []"
    and "eptype m = Message" and "edata m = bytes_from_sio_packet (env_to_string env) (build_packet_for_payload d None ns (Some i) True)"
    and "generator (engine rk) = [Inr m]" and "\<not> ended rk" and "sk_nsp rk = ns"
    and "outstanding_acks rk = pre @ a # post" and "ack_id a = i"
    and "i \<notin> ack_id ` set pre" and "i \<notin> ack_id ` set post" and "later - time_started a < ack_timeout a"
  shows "\<exists>rk' q. sio_poll_packet env later rk = (rk', RawItem (Inr q)) \<and> outstanding_acks rk' = pre @ post \<and>
    calls rk' = calls rk @ [AckCall i (Some (payload_of_raws (payload_raws d)))]"
proof -
  obtain s' where "raw_stream_next env later (engine rk) = (s', RawItem (Inr (arrived (build_packet_for_payload d None ns (Some i) True) [])))"
    using text_built_arrives [OF assms(1-4) _ assms(5-7), of later] by auto
  from sio_poll_arrived [OF this assms(8)] assms(4,9)
    handle_built_ack [OF assms(3), of "rk\<lparr>engine := s'\<rparr>" ns pre a post i later env] assms(10-14)
  show ?thesis by simp
qed

text \<open>A pending event is in the body of the next polling response, which starts its callback.\<close>

lemma pending_event_polled:
  assumes "base64 (env_encode env) decode" and "serde_json (env_to_string env) (env_from_str env)"
    and "wf_nsp ns" and "0x1e \<notin> set ns" and "proper_payload d" and "raw_binaries (payload_raws d) = []"
    and "proper_event e" and "wf_str (string_from_event e)" and "polling_session esid (event_messages env ns e d) es"
  shows "\<exists>es' body. polling_handle_request (env_encode env) decode to_string net now (Some (Some (PollingGet esid))) es =
      (es', HttpResponse 200 (Some body)) \<and> polling_session esid [] es' \<and>
    (\<forall>rk later. generator (engine rk) = socket_stream decode (client_polling_stream [Inr [Inr (as_bytes body)]]) \<and>
        \<not> ended rk \<and> sk_nsp rk = ns \<and> e \<in> on rk \<longrightarrow>
      (\<exists>rk' q. sio_poll_packet env later rk = (rk', RawItem (Inr q)) \<and>
        calls rk' = calls rk @ [EventCall e (Some (payload_of_raws (payload_raws d))) None]))"
proof -
  let ?p = "build_packet_for_payload d (Some e) ns None False"
  obtain m where m: "engine_packets (env_to_string env) ?p = [m]" "list_all text_packet [m]" "eptype m = Message"
    "edata m = bytes_from_sio_packet (env_to_string env) ?p"
    using text_event_packet [OF assms(2-6,8)] by auto
  have "polling_session esid (map (bytes_from_packet (env_encode env)) [m]) es" using assms(9) m(1) by (simp add: event_messages_def)
  from polling_session_get [OF assms(1) this _ m(2), of to_string net now] obtain es' body where
    get: "polling_handle_request (env_encode env) decode to_string net now (Some (Some (PollingGet esid))) es =
      (es', HttpResponse 200 (Some body))"
    "socket_stream decode (client_polling_stream [Inr [Inr (as_bytes body)]]) = [Inr m]" "polling_session esid [] es'"
    by auto
  with text_event_polled [OF assms(2,3,5-8) m(3,4)] show ?thesis by metis
qed

lemma pending_ack_polled:
  assumes "base64 (env_encode env) decode" and "serde_json (env_to_string env) (env_from_str env)"
    and "wf_nsp ns" and "0x1e \<notin> set ns" and "proper_payload d" and "raw_binaries (payload_raws d) = []"
    and "polling_session esid (map (bytes_from_packet (env_encode env))
      (engine_packets (env_to_string env) (build_packet_for_payload d None ns (Some i) True))) es"
    and "\<not> ended rk" and "sk_nsp rk = ns" and "outstanding_acks rk = pre @ a # post" and "ack_id a = i"
    and "i \<notin> ack_id ` set pre" and "i \<notin> ack_id ` set post" and "later - time_started a < ack_timeout a"
  shows "\<exists>es' body rk' q. polling_handle_request (env_encode env) decode to_string net now (Some (Some (PollingGet esid))) es =
      (es', HttpResponse 200 (Some body)) \<and>
    sio_poll_packet env later (rk\<lparr>engine := (engine rk)\<lparr>generator :=
      socket_stream decode (client_polling_stream [Inr [Inr (as_bytes body)]])\<rparr>\<rparr>) = (rk', RawItem (Inr q)) \<and>
    outstanding_acks rk' = pre @ post \<and> calls rk' = calls rk @ [AckCall i (Some (payload_of_raws (payload_raws d)))]"
proof -
  let ?p = "build_packet_for_payload d None ns (Some i) True"
  obtain m where m: "engine_packets (env_to_string env) ?p = [m]" "list_all text_packet [m]" "eptype m = Message"
    "edata m = bytes_from_sio_packet (env_to_string env) ?p"
    using text_built_packet [OF assms(2-6), of None] by auto
  have "polling_session esid (map (bytes_from_packet (env_encode env)) [m]) es" using assms(7) m(1) by simp
  from polling_session_get [OF assms(1) this _ m(2), of to_string net now] obtain es' body where
    get: "polling_handle_request (env_encode env) decode to_string net now (Some (Some (PollingGet esid))) es =
      (es', HttpResponse 200 (Some body))"
    "socket_stream decode (client_polling_stream [Inr [Inr (as_bytes body)]]) = [Inr m]"
    by auto
  let ?rk = "rk\<lparr>engine := (engine rk)\<lparr>generator := [Inr m]\<rparr>\<rparr>"
  have "\<exists>rk' q. sio_poll_packet env later ?rk = (rk', RawItem (Inr q)) \<and> outstanding_acks rk' = pre @ post \<and>
      calls rk' = calls ?rk @ [AckCall i (Some (payload_of_raws (payload_raws d)))]"
    by (rule text_ack_polled [OF assms(2,3,5,6) m(3,4) _ _ _ _ assms(11-14)]) (use assms(8-10) in simp_all)
  with get show ?thesis by fastforce
qed

text \<open>A body that the client cannot decode is an error of the engine, which only the callback of errors hears of, and which ends the stream.\<close>

lemma refused_body_polled:
  assumes "payload_try_from decode bs = Inl err" and "generator (engine rk) = socket_stream decode (client_polling_stream [Inr [Inr bs]])"
    and "\<not> ended rk"
  shows "\<exists>rk'. sio_poll_packet env now rk = (rk', RawItem (Inl (SIncompleteResponseFromEngineIo err))) \<and>
    calls rk' = calls rk @ (if EvError \<in> on rk
      then [EventCall EvError (Some (PJson (JString (env_error_text env (SIncompleteResponseFromEngineIo err))))) None] else []) \<and>
    outstanding_acks rk' = outstanding_acks rk \<and> ended rk'"
proof -
  have "generator (engine rk) = [Inl err]" using assms(1,2) by (simp add: parse_payload_def)
  then have "\<exists>s'. raw_stream_next env now (engine rk) = (s', RawItem (Inl (SIncompleteResponseFromEngineIo err)))"
    by (simp add: raw_stream_next.simps [of env now "engine rk"] socket_poll_next_def Let_def)
  with assms(3) show ?thesis
    by (auto simp: sio_poll_packet.simps [of env now rk] raw_poll_packet_def sio_callback_def split: if_splits)
qed

lemma pending_binaries_refused:
  assumes "base64 (env_encode env) decode" and "serde_json (env_to_string env) (env_from_str env)"
    and "wf_nsp ns" and "0x1e \<notin> set ns" and "proper_payload d" and "raw_binaries (payload_raws d) \<noteq> []"
    and "case e of Some ev \<Rightarrow> wf_str (string_from_event ev) | None \<Rightarrow> True" and "list_all text_packet ts"
    and "polling_session esid (map (bytes_from_packet (env_encode env))
      (ts @ engine_packets (env_to_string env) (build_packet_for_payload d e ns i b))) es"
  shows "\<exists>es' body. polling_handle_request (env_encode env) decode to_string net now (Some (Some (PollingGet esid))) es =
      (es', HttpResponse 200 (Some body)) \<and> polling_session esid [] es' \<and>
    payload_try_from decode (as_bytes body) = Inl (InvalidPacketType 89)"
proof -
  let ?p = "build_packet_for_payload d e ns i b" and ?enc = "env_encode env"
  let ?m = "packet_new Message (bytes_from_sio_packet (env_to_string env) ?p)"
  obtain x xs where bin: "raw_binaries (payload_raws d) = x # xs" using assms(6) by (cases "raw_binaries (payload_raws d)") auto
  let ?ps = "(ts @ [?m]) @ packet_new MessageBinary x # map (packet_new MessageBinary) xs"
  have texts: "list_all text_packet (ts @ [?m])" using built_head_text [OF assms(2-5,7)] assms(8) by simp
  have "list_all queue_packet (map (packet_new MessageBinary) xs)" by (simp add: list_all_iff queue_packet_def)
  from base64.mixed_body_refused [OF assms(1) texts this, of x] obtain body where
    body: "build_polling_payload ?enc (map (bytes_from_packet ?enc) ?ps) = Some body"
    "payload_try_from decode (as_bytes body) = Inl (InvalidPacketType 89)"
    by blast
  have "polling_session esid (map (bytes_from_packet ?enc) ?ps) es"
    using assms(9) bin built_attachments [OF assms(5)] by (simp add: engine_packets_def)
  from polling_session_answer [OF this _ body(1)] body(2) show ?thesis by fastforce
qed

text \<open>Reading messages leaves alone what the engine socket sends.\<close>

definition outward :: "eio_socket \<Rightarrow> transport_type \<times> bool \<times> wire list" where
  "outward s = (transport s, connected s, wire_out s)"

definition all_messages :: "eio_socket \<Rightarrow> bool" where
  "all_messages s \<longleftrightarrow> (\<forall>p. Inr p \<in> set (generator s) \<longrightarrow> message_packet p)"

lemma outward_generator [simp]: "outward (s\<lparr>generator := g\<rparr>) = outward s"
  by (simp add: outward_def)

lemma outward_incoming:
  "message_packet p \<Longrightarrow> outward (handle_incoming_packet encode net now p s) = outward s"
  by (auto simp: outward_def message_packet_def handle_incoming_packet_def handle_packet_def handle_data_def
      send_event_def ponged_def Let_def split: option.splits)

lemma outward_next:
  "socket_poll_next encode net now s = (s', item) \<Longrightarrow> all_messages s \<Longrightarrow>
   outward s' = outward s \<and> all_messages s' \<and> (\<forall>p. item = Some (Inr p) \<longrightarrow> message_packet p)"
  by (cases "generator s")
    (auto simp: socket_poll_next_def all_messages_def outward_incoming Let_def split: sum.splits)

lemma outward_attachments:
  "read_attachments env now n atts s = (s', r) \<Longrightarrow> all_messages s \<Longrightarrow> outward s' = outward s"
proof (induction n arbitrary: atts s)
  case (Suc n)
  obtain s1 item where "socket_poll_next (env_encode env) (env_net env) now s = (s1, item)" by fastforce
  with outward_next [OF this Suc.prems(2)] Suc show ?case
    by (auto split: option.splits sum.splits if_splits)
qed simp

lemma outward_stream:
  assumes "raw_stream_next env now s = (s', item)" and "all_messages s"
  shows "outward s' = outward s"
proof -
  obtain s1 it where it: "socket_poll_next (env_encode env) (env_net env) now s = (s1, it)" by fastforce
  note next_item = outward_next [OF it assms(2)]
  have "outward s2 = outward s1" if "handle_engineio_packet env now p s1 = (s2, r)" for p s2 r
    using that next_item outward_attachments
    by (fastforce simp: handle_engineio_packet_def split: sum.splits prod.splits option.splits if_splits)
  with assms(1) it next_item show ?thesis
    by (auto simp: raw_stream_next.simps [of env now s] message_packet_def split: option.splits sum.splits prod.splits if_splits)
qed

text \<open>An event that a client sends over posts, and the socket that reads it.\<close>

lemma built_posts:
  assumes "base64 (env_encode env) decode" and "serde_json (env_to_string env) (env_from_str env)"
    and "reliable (env_net env)" and "connected s" and "transport s = ClientPolling"
    and "wf_nsp ns" and "0x1e \<notin> set ns" and "proper_payload d" and "wf_str (string_from_event e)"
  shows "\<exists>ws. raw_send env (build_packet_for_payload d (Some e) ns i False) s = (s\<lparr>wire_out := wire_out s @ ws\<rparr>, Inr ()) \<and>
    socket_stream decode (post_receive ws) =
      map Inr (engine_packets (env_to_string env) (build_packet_for_payload d (Some e) ns i False))"
proof -
  let ?p = "build_packet_for_payload d (Some e) ns i False"
  have "wf_sio_packet ?p" using wf_built [OF assms(6,8)] assms(9) by simp
  from built_engine_packets [OF assms(2) this] assms(7)
  have "list_all payload_packet (engine_packets (env_to_string env) ?p)" by simp
  from base64.post_delivery [OF assms(1,3-5) this] assms(4) show ?thesis
    by (auto simp: raw_send_packets lift_engine_def)
qed

lemma built_read:
  assumes "serde_json (env_to_string env) (env_from_str env)" and "wf_nsp ns" and "proper_payload d"
    and "proper_event e" and "wf_str (string_from_event e)"
    and "generator (engine rk) = map Inr (engine_packets (env_to_string env) (build_packet_for_payload d (Some e) ns i False))"
    and "\<not> ended rk" and "sk_nsp rk = ns" and "e \<in> on rk"
  shows "\<exists>s' q. sio_poll_packet env now rk =
      (rk\<lparr>engine := s', calls := calls rk @ [EventCall e (Some (payload_of_raws (payload_raws d))) i]\<rparr>, RawItem (Inr q)) \<and>
    outward s' = outward (engine rk)"
proof -
  let ?p = "build_packet_for_payload d (Some e) ns i False"
  let ?bs = "map (packet_new MessageBinary) (raw_binaries (payload_raws d))"
  have wf: "wf_sio_packet ?p" using wf_built [OF assms(2,3)] assms(5) by simp
  have count: "unat (attachment_count ?p) = length ?bs" using built_attachments [OF assms(3)] by simp
  have gen: "generator (engine rk) = Inr (packet_new Message (bytes_from_sio_packet (env_to_string env) ?p)) # map Inr ?bs @ []"
    using assms(6) built_attachments [OF assms(3)] by (simp add: engine_packets_def)
  have "list_all message_packet ?bs" by (simp add: list_all_iff message_packet_def)
  from raw_stream_arrived [OF assms(1) wf count this _ _ gen, of now] obtain s' where
    s': "raw_stream_next env now (engine rk) = (s', RawItem (Inr (arrived ?p (raw_binaries (payload_raws d)))))"
    by (auto simp: comp_def)
  moreover have "all_messages (engine rk)" unfolding all_messages_def gen by (auto simp: message_packet_def)
  ultimately have "outward s' = outward (engine rk)" by (rule outward_stream)
  with sio_poll_arrived [OF s' assms(7)] assms(8,9) handle_built_event [OF assms(3,4), of "rk\<lparr>engine := s'\<rparr>" ns env now i]
  show ?thesis by (auto simp: arrived_built [OF assms(3)])
qed

text \<open>The polling task of a registered client reads the event of its session.\<close>

lemma poll_event:
  assumes "serde_json (env_to_string (se_env env)) (env_from_str (se_env env))"
    and "client (se_decode env) sid ns srv = Some sk" and "sio_sid_decode (se_decode env) sid = Some esid"
    and "polling_session esid bs (engine_server srv)" and "sockets (engine_server srv) esid = Some s"
    and "generator s = map Inr (engine_packets (env_to_string (se_env env)) (build_packet_for_payload d (Some e) ns i False))"
    and "wf_nsp ns" and "proper_payload d" and "proper_event e" and "wf_str (string_from_event e)"
    and "\<not> ended sk" and "sk_nsp sk = ns" and "e \<in> on sk"
  shows "\<exists>sk'. client (se_decode env) sid ns (poll_client env now sid ns srv) = Some sk' \<and> sk_connected sk' = sk_connected sk \<and>
    calls sk' = calls sk @ [EventCall e (Some (payload_of_raws (payload_raws d))) i] \<and>
    polling_session esid bs (engine_server (poll_client env now sid ns srv))"
proof -
  let ?env = "server_env (se_env env) esid srv" and ?s = "lend_events (engine_server srv) s"
  have env: "env_to_string ?env = env_to_string (se_env env)" "env_from_str ?env = env_from_str (se_env env)"
    by (simp_all add: server_env_def)
  have "\<exists>s' q. sio_poll_packet ?env now (sk\<lparr>engine := ?s\<rparr>) =
      (sk\<lparr>engine := s', calls := calls sk @ [EventCall e (Some (payload_of_raws (payload_raws d))) i]\<rparr>, RawItem (Inr q)) \<and>
    outward s' = outward ?s"
    using built_read [where env = ?env and rk = "sk\<lparr>engine := ?s\<rparr>" and now = now and i = i, unfolded env,
        OF assms(1,7-10)] assms(6,11-13) by (simp add: lend_events_def)
  then obtain s' q where poll: "sio_poll_packet ?env now (sk\<lparr>engine := ?s\<rparr>) =
      (sk\<lparr>engine := s', calls := calls sk @ [EventCall e (Some (payload_of_raws (payload_raws d))) i]\<rparr>, RawItem (Inr q))"
    and out: "transport s' = transport s" "connected s' = connected s" "wire_out s' = wire_out s"
    by (auto simp: outward_def lend_events_def)
  from assms(4,5) obtain h where h: "polling_handles (engine_server srv) esid = Some h" "pending h = bs"
    and s: "connected s" "transport s = ServerPolling"
    by (auto simp: polling_session_def)
  show ?thesis using assms(2,3,5) poll out h s
    by (simp add: poll_client_def client_poll_def on_client_def server_socket_def return_engine_def return_events_def
        polling_session_def client_def queued_def lend_events_def Let_def)
qed

section \<open>Turns with callbacks\<close>

lemma joined_addressed:
  assumes "names \<noteq> []"
  shows "sid \<in> sids_to_emit ns names (join ns names sid srv)"
proof -
  obtain name where name: "name \<in> set names" using assms by (cases names) auto
  let ?rs = "fold (join_one ns sid) names (ns_rooms srv)"
  have "(ns, name, sid) \<in> room_members ?rs" using name by (simp add: registry.members_join_all)
  then obtain nsp_rooms sids where "?rs ns = Some nsp_rooms" "nsp_rooms name = Some sids" "sid \<in> sids"
    by (auto simp: room_members_def)
  with name show ?thesis by (auto simp: sids_to_emit_def sids_loop_eq join_def)
qed

text \<open>The turn in which a client's event starts a callback that answers through rooms.\<close>

lemma room_turn:
  assumes "lawful env" and "srv_reach env srv"
    and json: "serde_json (env_to_string (se_env env)) (env_from_str (se_env env))"
    and client: "client (se_decode env) sid ns srv = Some sk" and esid: "sio_sid_decode (se_decode env) sid = Some esid"
    and session: "polling_session esid bs (engine_server srv)" and s: "sockets (engine_server srv) esid = Some s"
    and gen: "generator s = map Inr (engine_packets (env_to_string (se_env env)) (build_packet_for_payload d (Some e) ns i False))"
    and proper: "wf_nsp ns" "proper_payload d" "proper_event e" "wf_str (string_from_event e)"
    and sk: "\<not> ended sk" "sk_nsp sk = ns" "e \<in> on sk" and "sk_connected sk"
    and body: "call_body hs (EventCall e (Some (payload_of_raws (payload_raws d))) i) =
      [Ignore (DoJoin names), Ignore (DoEmitTo names e' d'), Ignore (DoLeave names)]" and "names \<noteq> []"
  shows "\<exists>srv'. server_turn env hs now \<lparr>sc_sid = sid, sc_nsp = ns\<rparr> srv = Some srv' \<and>
    polling_session esid (bs @ event_messages (se_env env) ns e' d') (engine_server srv')"
proof -
  let ?c = "\<lparr>sc_sid = sid, sc_nsp = ns\<rparr>" and ?srv1 = "poll_client env now sid ns srv"
  let ?srv2 = "sc_join ?c names ?srv1"
  let ?srv3 = "emit_to (se_env env) (se_decode env) (se_order env) ns names e' d' ?srv2"
  obtain sk' where sk': "client (se_decode env) sid ns ?srv1 = Some sk'" "sk_connected sk'"
    "calls sk' = calls sk @ [EventCall e (Some (payload_of_raws (payload_raws d))) i]"
    "polling_session esid bs (engine_server ?srv1)"
    using poll_event [OF json client esid session s gen proper sk] assms(16) by metis
  have "srv_reach env (srv_apply env (NsJoin ?c names) (srv_apply env (NsPoll now sid ns) srv))"
    using assms(2) by (intro srv_turn) simp_all
  then have reach: "srv_reach env ?srv2" by simp
  have "client (se_decode env) sid ns ?srv2 = Some sk'" "polling_session esid bs (engine_server ?srv2)"
    using sk'(1,4) esid by (simp_all add: sc_join_def join_def client_def)
  from emission_reaches [OF assms(1) reach this(1) esid sk'(2) this(2), of names e' d'] joined_addressed [OF assms(18)]
  have "polling_session esid (bs @ event_messages (se_env env) ns e' d') (engine_server ?srv3)"
    by (simp add: sc_join_def)
  moreover have "server_turn env hs now ?c srv = Some (sc_leave ?c names ?srv3)"
    using client sk'(1,3) body by (simp add: server_turn_def new_calls_def sc_emit_to_def Let_def)
  ultimately show ?thesis by (simp add: sc_leave_def leave_def)
qed

text \<open>The turn in which a client's event starts a callback that acknowledges it.\<close>

lemma on_handle_ack:
  assumes "client (se_decode env) sid ns srv = Some sk" and "sio_sid_decode (se_decode env) sid = Some esid"
    and "sk_connected sk" and "sk_nsp sk = ns" and "polling_session esid bs (engine_server srv)"
  shows "\<exists>srv'. on_handle env \<lparr>sc_sid = sid, sc_nsp = ns\<rparr> (\<lambda>env. sio_ack env i d) srv = Some (srv', Inr ()) \<and>
    polling_session esid (bs @ map (bytes_from_packet (env_encode (se_env env)))
      (engine_packets (env_to_string (se_env env)) (build_packet_for_payload d None ns (Some i) True))) (engine_server srv')"
proof -
  let ?es = "engine_server srv" and ?env = "se_env env"
  let ?ps = "engine_packets (env_to_string ?env) (build_packet_for_payload d None ns (Some i) True)"
  from assms(5) obtain s h where s: "sockets ?es esid = Some s" "connected s" "transport s = ServerPolling"
    and h: "polling_handles ?es esid = Some h" "pending h = bs"
    by (auto simp: polling_session_def)
  let ?s = "lend_events ?es s" and ?ws = "map (\<lambda>p. Queue (bytes_from_packet (env_encode ?env) p)) ?ps"
  have "server_net (env_net ?env) ?es esid out (Queue b) = Inr 200" for out b using h(1) by (simp add: server_net_def)
  then have "socket_emit_multi (env_encode ?env) (server_net (env_net ?env) ?es esid) ?ps ?s = (?s\<lparr>wire_out := wire_out ?s @ ?ws\<rparr>, Inr ())"
    using s by (intro queue_emit_multi) simp_all
  then have "sio_ack (server_env ?env esid srv) i d (sk\<lparr>engine := ?s\<rparr>) =
      (sk\<lparr>engine := ?s\<lparr>wire_out := wire_out ?s @ ?ws\<rparr>\<rparr>, Inr ())"
    using s assms(3,4)
    by (simp add: sio_ack_def with_engine_def raw_ack_def raw_send_packets server_env_def lift_engine_def)
  then show ?thesis using s h assms(1,2)
    by (simp add: on_handle_def on_client_def server_socket_def return_engine_def return_events_def polling_session_def
        comp_def Let_def)
qed

lemma ack_turn:
  assumes json: "serde_json (env_to_string (se_env env)) (env_from_str (se_env env))"
    and client: "client (se_decode env) sid ns srv = Some sk" and esid: "sio_sid_decode (se_decode env) sid = Some esid"
    and "lawful env" and "srv_reach env srv"
    and session: "polling_session esid bs (engine_server srv)" and s: "sockets (engine_server srv) esid = Some s"
    and gen: "generator s = map Inr (engine_packets (env_to_string (se_env env)) (build_packet_for_payload d (Some e) ns (Some i) False))"
    and proper: "wf_nsp ns" "proper_payload d" "proper_event e" "wf_str (string_from_event e)"
    and sk: "\<not> ended sk" "sk_nsp sk = ns" "e \<in> on sk" and "sk_connected sk"
    and body: "call_body hs (EventCall e (Some (payload_of_raws (payload_raws d))) (Some i)) \<in> {[Expect (DoAck i d')], [Ignore (DoAck i d')]}"
  shows "\<exists>srv'. server_turn env hs now \<lparr>sc_sid = sid, sc_nsp = ns\<rparr> srv = Some srv' \<and>
    polling_session esid (bs @ map (bytes_from_packet (env_encode (se_env env)))
      (engine_packets (env_to_string (se_env env)) (build_packet_for_payload d' None ns (Some i) True))) (engine_server srv')"
proof -
  let ?c = "\<lparr>sc_sid = sid, sc_nsp = ns\<rparr>" and ?srv1 = "poll_client env now sid ns srv"
  obtain sk' where sk': "client (se_decode env) sid ns ?srv1 = Some sk'" "sk_connected sk'"
    "calls sk' = calls sk @ [EventCall e (Some (payload_of_raws (payload_raws d))) (Some i)]"
    "polling_session esid bs (engine_server ?srv1)"
    using poll_event [OF json client esid session s gen proper sk] assms(16) by metis
  have "filed (se_decode env) ?srv1" using srv_reach_filed [OF assms(5,4)] by (rule poll_client_filed)
  from filed_client [OF this sk'(1)] have "sk_nsp sk' = ns" by (metis fst_conv identity_def)
  from on_handle_ack [OF sk'(1) esid sk'(2) this sk'(4), of i d'] obtain srv' where
    srv': "on_handle env ?c (\<lambda>env. sio_ack env i d') ?srv1 = Some (srv', Inr ())"
    "polling_session esid (bs @ map (bytes_from_packet (env_encode (se_env env)))
      (engine_packets (env_to_string (se_env env)) (build_packet_for_payload d' None ns (Some i) True))) (engine_server srv')"
    by blast
  with client sk'(1,3) body have "server_turn env hs now ?c srv = Some srv'"
    by (auto simp: server_turn_def new_calls_def Let_def)
  with srv'(2) show ?thesis by blast
qed

end
