(* ===== verification/Engine_Sessions.thy ===== *)
theory Engine_Sessions
  imports Engine_Http Engine_Client
begin

text \<open>
  What happens to a polling session of the Engine.IO server over several requests
  (\<open>engineio/src/server/http.rs\<close>, \<open>server.rs\<close>): the classification of the requests that a
  client of this repository makes, the posts of a client, which become items of the session's
  stream, and the upgrade of a session to a websocket, which hands the session over.
\<close>

section \<open>The requests of a client\<close>

text \<open>
  How the server reads a request for a URL of which a head and a body have arrived: at most
  the fixed number of bytes is read, of which the request parser takes the method and the
  headers, which end where the body starts; the URL parser yields the query of the URL.
\<close>

definition classify_url ::
  "ustr \<Rightarrow> url \<Rightarrow> (ustr \<times> bytes) list \<Rightarrow> ustr \<Rightarrow> bytes \<Rightarrow> bytes \<Rightarrow> ustr \<Rightarrow> request_type option option" where
  "classify_url verb u headers path head body addr =
     read_request_type
       (\<lambda>_. Some (\<lparr>req_method = Some verb, req_path = Some path, req_headers = headers\<rparr>, word_of_nat (length head)))
       (\<lambda>_. Some (query u)) (head @ body) addr max_payload"

text \<open>Headers that the server does not look at: all but the content length, and upgrades outside of websockets.\<close>

definition no_length :: "(ustr \<times> bytes) list \<Rightarrow> bool" where
  "no_length headers \<longleftrightarrow> list_all (\<lambda>h. to_lowercase (fst h) \<noteq> str ''content-length'') headers"

lemma header_loop_plain:
  assumes "no_length headers" and "to_uppercase verb \<noteq> str ''GET'' \<or> t \<noteq> str ''websocket''"
  shows "header_loop (headers @ rest) verb t sid n = header_loop rest verb t sid n"
  using assms by (induction headers) (auto simp: no_length_def simp del: str_simps)

lemma header_loop_upgrade:
  assumes "no_length headers" and "to_lowercase name = str ''upgrade''"
  shows "header_loop (headers @ (name, v) # rest) (str ''GET'') (str ''websocket'') sid n = Return (Some (WsUpgrade sid))"
proof -
  have "to_uppercase (str ''GET'') = str ''GET''" by (simp add: upper_char_def)
  with assms show ?thesis by (induction headers) (auto simp: no_length_def simp del: str_simps)
qed

lemma header_loop_length:
  assumes "no_length pre" and "no_length post" and "to_lowercase name = str ''content-length''"
    and "to_uppercase verb = str ''POST''"
  shows "header_loop (pre @ (name, as_bytes (dec (unat k))) # post) verb t sid n = ContentLength k"
proof -
  have verb: "to_uppercase verb \<noteq> str ''GET''" and name: "to_lowercase name \<noteq> str ''upgrade''" using assms(3,4) by simp_all
  have "header_loop post verb t sid m = ContentLength m" for m
    using header_loop_plain [OF assms(2), of verb t "[]"] verb by simp
  moreover have "from_utf8 (as_bytes (dec (unat k))) = Some (dec (unat k))" by (simp add: ascii_wf_str)
  ultimately show ?thesis using header_loop_plain [OF assms(1)] verb name assms(3)
    by (simp add: parse_usize_dec del: str_simps)
qed

lemma classify_get:
  "classify_url (str ''GET'') u headers path head body addr =
     (case query_loop (query u) None None of
        None \<Rightarrow> Some None
      | Some (sid, None) \<Rightarrow> Some None
      | Some (sid, Some t) \<Rightarrow>
          (case header_loop headers (str ''GET'') t sid 0 of
             Return r \<Rightarrow> Some r
           | ContentLength n \<Rightarrow> Some (Some (classify sid))))"
proof -
  have get: "to_uppercase (str ''GET'') = str ''GET''" "str ''GET'' \<noteq> str ''POST''" by (simp_all add: upper_char_def)
  show ?thesis
    unfolding classify_url_def read_request_type_def parse_request_type_def
    by (simp only: option.case prod.case http_request.simps get simp_thms if_False if_True)
qed

text \<open>A post whose head and body are within the bytes that are read is taken for its very body.\<close>

lemma read_post:
  assumes "parse (head @ body) = Some (req, word_of_nat (length head))" and "req_method req = Some verb"
    and "to_uppercase verb = str ''POST''" and "req_path req = Some path"
    and "query_pairs (str ''http://'' @ addr @ path) = Some pairs"
    and "query_loop pairs None None = Some (Some sid, Some t)"
    and "req_headers req = pre @ (name, as_bytes (dec (length body))) # post"
    and "no_length pre" and "no_length post" and "to_lowercase name = str ''content-length''"
    and "length (head @ body) \<le> unat max_payload"
  shows "read_request_type parse query_pairs (head @ body) addr max_payload = Some (Some (PollingPost sid body))"
    and "\<exists>b. peek_request_type parse query_pairs (head @ body) addr max_payload = Some (Some (PollingPost sid b))"
proof -
  let ?n = "word_of_nat (length body) :: usize" and ?i = "word_of_nat (length head) :: usize"
  have bound: "length head + length body \<le> 1000" using assms(11) by (simp add: max_payload_def)
  then have n: "unat ?i = length head" "unat ?n = length body" by (simp_all add: unat_of_nat take_bit_nat_eq_self)
  have all: "take (unat max_payload) (head @ body) = head @ body" using assms(11) by simp
  have len: "header_loop (req_headers req) verb t (Some sid) 0 = ContentLength ?n"
    using header_loop_length [OF assms(8-10,3), of ?n] assms(7) by (simp only: n)
  note post = parse_post [where parse = parse and query_pairs = query_pairs and addr = addr, OF assms(1-6) len]
  have "post_body (head @ body) ?i ?n False = Some (Some body)"
    using post_body_eq [of ?i "head @ body" ?n] bound by (simp add: n)
  with post [of False] show "read_request_type parse query_pairs (head @ body) addr max_payload = Some (Some (PollingPost sid body))"
    unfolding read_request_type_def all by simp
  show "\<exists>b. peek_request_type parse query_pairs (head @ body) addr max_payload = Some (Some (PollingPost sid b))"
    unfolding peek_request_type_def all post by (simp add: post_body_def)
qed

text \<open>The URL that a client uses after the handshake, and what the server makes of its query.\<close>

definition session_url :: "url \<Rightarrow> sid \<Rightarrow> url" where
  "session_url u sid = append_pair (str ''sid'') sid (b_url (socket_builder_new u))"

lemma query_loop_pairs:
  "query_loop ((str ''EIO'', dec ENGINE_IO_VERSION) # ps) sid t = query_loop ps sid t"
  "query_loop ((str ''sid'', s) # ps) sid t = query_loop ps (Some s) t"
  "query_loop ((str ''transport'', str ''polling'') # ps) sid t = query_loop ps sid (Some (str ''polling''))"
  "query_loop ((str ''transport'', str ''websocket'') # ps) sid t = query_loop ps sid (Some (str ''websocket''))"
  by (simp_all add: upper_char_def lower_char_def Let_def ENGINE_IO_VERSION_def dec.simps)

lemma builder_url_query:
  "query (b_url (socket_builder_new u)) = query u @ [(str ''EIO'', dec ENGINE_IO_VERSION)]"
  by (simp add: socket_builder_new_def append_pair_def Let_def)

lemma query_loop_hash: "query_loop [(str ''t'', v)] sid t = Some (sid, t)"
  by (simp add: upper_char_def lower_char_def Let_def)

lemma transport_url_query:
  "query (polling_url u) = query u @ [(str ''transport'', str ''polling'')]"
  "query (append_pair k v u) = query u @ [(k, v)]"
  "query (append_hash checksum now u) = query u @ [(str ''t'', dec (unat (checksum (as_bytes now))))]"
  by (simp_all add: polling_url_def append_hash_def append_pair_def Let_def)

lemma session_query:
  assumes "query u = []"
  shows "query_loop (query (append_hash checksum now (polling_url (session_url u sid)))) None None = Some (Some sid, Some (str ''polling''))"
  using assms by (simp add: session_url_def transport_url_query builder_url_query query_loop_pairs query_loop_hash
      del: query_loop.simps(2) str_simps)

section \<open>Posts\<close>

text \<open>
  What the HTTP library of a client writes for a post to the URL of its session, as the
  server's parsers read it: the method, the query of this URL with whatever checksum, the
  length of the body among whatever other headers, and the body where the head ends. This is
  required only of requests that fit into the bytes the server reads.
\<close>

definition posts_understood ::
  "http_env \<Rightarrow> ustr \<Rightarrow> url \<Rightarrow> sid \<Rightarrow> (bytes \<Rightarrow> bytes) \<Rightarrow> bool" where
  "posts_understood he addr u sid request \<longleftrightarrow>
     (\<forall>body. length (request body) \<le> unat max_payload \<longrightarrow>
        (\<exists>head path pre name post checksum now.
           request body = head @ body \<and>
           he_parse he (head @ body) =
             Some (\<lparr>req_method = Some (str ''POST''), req_path = Some path,
                    req_headers = pre @ (name, as_bytes (dec (length body))) # post\<rparr>, word_of_nat (length head)) \<and>
           no_length pre \<and> no_length post \<and> to_lowercase name = str ''content-length'' \<and>
           he_query_pairs he (str ''http://'' @ addr @ path) =
             Some (query (append_hash checksum now (polling_url (session_url u sid))))))"

text \<open>The bodies of a client's posts, each arriving over a connection of its own.\<close>

definition posted_bodies :: "wire list \<Rightarrow> bytes list" where
  "posted_bodies ws = concat (map (\<lambda>w. case w of Post b \<Rightarrow> [b] | _ \<Rightarrow> []) ws)"

definition posts_fit :: "(bytes \<Rightarrow> bytes) \<Rightarrow> wire list \<Rightarrow> bool" where
  "posts_fit request ws \<longleftrightarrow> list_all (\<lambda>b. length (request b) \<le> unat max_payload) (posted_bodies ws)"

definition post_connection :: "instant \<Rightarrow> ustr \<Rightarrow> bytes \<Rightarrow> connection" where
  "post_connection now addr arrived = \<lparr>conn_at = now, conn_addr = addr, conn_arrived = arrived,
     conn_accepted = False, conn_first = None, conn_second = None, conn_incoming = []\<rparr>"

text \<open>The server accepts these connections one after the other; the bytes are its responses.\<close>

definition handle_posts ::
  "http_env \<Rightarrow> instant \<Rightarrow> ustr \<Rightarrow> (bytes \<Rightarrow> bytes) \<Rightarrow> wire list \<Rightarrow> eio_server \<Rightarrow> eio_server \<times> bytes list" where
  "handle_posts he now addr request ws es =
     accept_loop he (map (\<lambda>b. Some (post_connection now addr (request b))) (posted_bodies ws)) es"

definition post_ok :: "http_env \<Rightarrow> bytes" where
  "post_ok he = write_stream (he_status_str he) (he_header_map he) 200 (Some (str ''ok''))"

lemma serve_post:
  assumes "posts_understood he addr u esid request" and "query u = []" and "length (request b) \<le> unat max_payload"
    and "polling_handles es esid = Some h"
  shows "serve_connection he (post_connection now addr (request b)) es =
    (es\<lparr>polling_handles := (polling_handles es)(esid \<mapsto> h\<lparr>posted := posted h @ [b]\<rparr>)\<rparr>, [post_ok he])"
proof -
  obtain head path pre name post checksum t where r: "request b = head @ b"
    "he_parse he (head @ b) = Some (\<lparr>req_method = Some (str ''POST''), req_path = Some path,
       req_headers = pre @ (name, as_bytes (dec (length b))) # post\<rparr>, word_of_nat (length head))"
    "no_length pre" "no_length post" "to_lowercase name = str ''content-length''"
    "he_query_pairs he (str ''http://'' @ addr @ path) =
       Some (query (append_hash checksum t (polling_url (session_url u esid))))"
    using assms(1,3) unfolding posts_understood_def by metis
  have verb: "to_uppercase (str ''POST'') = str ''POST''" by (simp add: upper_char_def)
  have fits: "length (head @ b) \<le> unat max_payload" using assms(3) r(1) by simp
  note read = read_post [where parse = "he_parse he" and query_pairs = "he_query_pairs he" and addr = addr and head = head
      and body = b, OF r(2) http_request.select_convs(1) verb http_request.select_convs(2) r(6) session_query [OF assms(2)]
      http_request.select_convs(3) r(3-5) fits]
  from read(2) obtain c where "peek_request_type (he_parse he) (he_query_pairs he) (head @ b) addr max_payload =
      Some (Some (PollingPost esid c))" by blast
  with read(1) assms(4) show ?thesis
    by (simp add: serve_connection_def handle_http_def post_connection_def r(1) polling_handle_request_def polling_post_def
        post_ok_def)
qed

lemma handle_posts_queue:
  assumes "posts_understood he addr u esid request" and "query u = []" and "posts_fit request ws"
    and "polling_handles es esid = Some h"
  shows "\<exists>es'. handle_posts he now addr request ws es = (es', replicate (length (posted_bodies ws)) (post_ok he)) \<and>
    polling_handles es' esid = Some (h\<lparr>posted := posted h @ posted_bodies ws\<rparr>) \<and> sockets es' = sockets es"
proof -
  have "\<exists>es'. accept_loop he (map (\<lambda>b. Some (post_connection now addr (request b))) bs) es =
        (es', replicate (length bs) (post_ok he)) \<and>
      polling_handles es' esid = Some (h\<lparr>posted := posted h @ bs\<rparr>) \<and> sockets es' = sockets es"
    if "list_all (\<lambda>b. length (request b) \<le> unat max_payload) bs" for bs
    using that assms(4)
  proof (induction bs arbitrary: es h)
    case (Cons b bs)
    let ?h = "h\<lparr>posted := posted h @ [b]\<rparr>"
    let ?es = "es\<lparr>polling_handles := (polling_handles es)(esid \<mapsto> ?h)\<rparr>"
    have "serve_connection he (post_connection now addr (request b)) es = (?es, [post_ok he])"
      using serve_post [OF assms(1,2)] Cons.prems by simp
    with Cons.IH [of ?es ?h] Cons.prems show ?case by auto
  qed simp
  with assms(3) show ?thesis by (simp add: handle_posts_def posts_fit_def)
qed

text \<open>A library that writes the same short head for every post, for evaluation.\<close>

definition example_post_env :: "url \<Rightarrow> sid \<Rightarrow> http_env" where
  "example_post_env u sid =
     \<lparr>he_encode = rfc_encode, he_decode = rfc_decode, he_to_string = print_json,
      he_parse = (\<lambda>buf. Some (\<lparr>req_method = Some (str ''POST''), req_path = Some (str ''/''),
        req_headers = [(str ''Host'', as_bytes (str ''h'')), (str ''Content-Length'', as_bytes (dec (length buf - 2))),
          (str ''Accept'', as_bytes (str ''*''))]\<rparr>, 2)),
      he_query_pairs = (\<lambda>_. Some (query (append_hash (\<lambda>_. 7) [] (polling_url (session_url u sid))))),
      he_status_str = (\<lambda>_. str ''200 OK''), he_header_map = id, he_net = (\<lambda>_ _. Inr 200), he_ws_net = (\<lambda>_ _. Inr 200)\<rparr>"

definition example_post :: "bytes \<Rightarrow> bytes" where
  "example_post body = [13, 10] @ body"

lemma example_posts_understood: "posts_understood (example_post_env u sid) addr u sid example_post"
proof -
  have plain: "no_length [(str ''Host'', as_bytes (str ''h''))]" "no_length [(str ''Accept'', as_bytes (str ''*''))]"
    "to_lowercase (str ''Content-Length'') = str ''content-length''"
    by (simp_all add: no_length_def lower_char_def)
  have "\<exists>head path pre name post checksum now. example_post body = head @ body \<and>
      he_parse (example_post_env u sid) (head @ body) =
        Some (\<lparr>req_method = Some (str ''POST''), req_path = Some path,
               req_headers = pre @ (name, as_bytes (dec (length body))) # post\<rparr>, word_of_nat (length head)) \<and>
      no_length pre \<and> no_length post \<and> to_lowercase name = str ''content-length'' \<and>
      he_query_pairs (example_post_env u sid) (str ''http://'' @ addr @ path) =
        Some (query (append_hash checksum now (polling_url (session_url u sid))))" for body
    by (rule exI [of _ "[13, 10]"], rule exI [of _ "str ''/''"], rule exI [of _ "[(str ''Host'', as_bytes (str ''h''))]"],
        rule exI [of _ "str ''Content-Length''"], rule exI [of _ "[(str ''Accept'', as_bytes (str ''*''))]"],
        rule exI [of _ "\<lambda>_. 7"], rule exI [of _ "[]"])
      (use plain in \<open>simp add: example_post_def example_post_env_def del: str_simps\<close>)
  then show ?thesis by (simp only: posts_understood_def) blast
qed

text \<open>
  The stream of a polling session reads the bodies from its queue: they become items of the
  stream, behind those that are still to be read.
\<close>

definition deliver_posts :: "(bytes \<Rightarrow> bytes option) \<Rightarrow> sid \<Rightarrow> eio_server \<Rightarrow> eio_server" where
  "deliver_posts decode sid srv =
     (case (sockets srv sid, polling_handles srv sid) of
        (Some s, Some h) \<Rightarrow>
          srv\<lparr>sockets := (sockets srv)(sid \<mapsto>
                s\<lparr>generator := generator s @ socket_stream decode (server_polling_stream (posted h))\<rparr>),
              polling_handles := (polling_handles srv)(sid \<mapsto> h\<lparr>posted := []\<rparr>)\<rparr>
      | _ \<Rightarrow> srv)"

lemma deliver_posts_session:
  assumes "polling_session sid bs srv" and "polling_handles srv sid = Some h" and "sockets srv sid = Some s"
  shows "polling_session sid bs (deliver_posts decode sid srv) \<and>
    sockets (deliver_posts decode sid srv) sid =
      Some (s\<lparr>generator := generator s @ socket_stream decode (server_polling_stream (posted h))\<rparr>)"
  using assms by (auto simp: deliver_posts_def polling_session_def)

section \<open>The upgrade of a session\<close>

lemma drain_polling_session:
  assumes "sockets srv sid = Some s" and "connected s" and "transport s = ServerPolling" and "polling_handles srv sid \<noteq> None"
  shows "\<exists>srv' s'. drain_polling encode net sid srv = srv' \<and> sockets srv' sid = Some s' \<and> connected s' \<and>
    transport s' = ServerPolling \<and> wire_out s' = wire_out s @ [Queue (bytes_from_packet encode packet_noop)]"
proof -
  let ?s = "lend_events srv s"
  have data: "packet_data encode packet_noop = Text (bytes_from_packet encode packet_noop)"
    by (simp add: packet_data_def packet_noop_def)
  have "server_net net srv sid out (Queue b) = Inr 200" for out b using assms(4) by (auto simp: server_net_def)
  then have "socket_emit encode (server_net net srv sid) packet_noop ?s =
      (?s\<lparr>wire_out := wire_out ?s @ [Queue (bytes_from_packet encode packet_noop)]\<rparr>, Inr ())"
    using assms(2,3) unfolding socket_emit_def data
    by (simp add: transport_emit_wire transport_wire_def polling_body_def transport_outcome_def)
  then show ?thesis using assms(1-3)
    by (simp add: drain_polling_def server_socket_def Let_def)
qed

text \<open>A session on a websocket, and what it sends.\<close>

definition websocket_session :: "sid \<Rightarrow> wire list \<Rightarrow> eio_server \<Rightarrow> bool" where
  "websocket_session sid ws srv \<longleftrightarrow>
     (\<exists>s. sockets srv sid = Some s \<and> connected s \<and> transport s = Websocket \<and> wire_out s = ws)"

lemma websocket_session_emit:
  assumes "websocket_session sid ws srv" and "reliable net" and "text_packet p"
  shows "websocket_session sid (ws @ [Ws (WsText (packet_text p))]) (fst (server_emit encode net sid p srv))"
proof -
  from assms(1) obtain s where s: "sockets srv sid = Some s" "connected s" "transport s = Websocket" "wire_out s = ws"
    by (auto simp: websocket_session_def)
  let ?s = "lend_events srv s" and ?w = "Ws (WsText (packet_text p))"
  have "transport_wire encode Websocket (packet_data encode p) = Inr ?w"
    using transport_wire_text [OF assms(3), of encode Websocket] by simp
  moreover have "server_net net srv sid out ?w = Inr 200" for out using assms(2) by (simp add: server_net_def reliable_def)
  ultimately have "socket_emit encode (server_net net srv sid) p ?s = (?s\<lparr>wire_out := wire_out ?s @ [?w]\<rparr>, Inr ())"
    using s by (simp add: socket_emit_def transport_emit_wire transport_outcome_def)
  then show ?thesis using s by (simp add: server_emit_def server_socket_def websocket_session_def)
qed

lemma websocket_session_emits:
  "websocket_session sid ws srv \<Longrightarrow> reliable net \<Longrightarrow> list_all text_packet ps \<Longrightarrow>
   websocket_session sid (ws @ map (\<lambda>p. Ws (WsText (packet_text p))) ps)
     (fold (\<lambda>p srv. fst (server_emit encode net sid p srv)) ps srv)"
proof (induction ps arbitrary: ws srv)
  case (Cons p ps)
  then show ?case using Cons.IH [OF websocket_session_emit [OF Cons.prems(1,2)], of p] by simp
qed simp

text \<open>Both probe messages have come: the polling handle is closed, and the socket gets the new transport.\<close>

lemma upgrade_result:
  assumes "reliable ws_net" and "sockets (drain_polling encode net sid srv) sid = Some s"
  shows "\<exists>srv'. websocket_handle encode decode to_string net ws_net now True (Some sid)
      (Some (Inr (WsText (str ''2probe'')))) (Some (Inr (WsText (str ''5'')))) incoming srv =
      (srv', [Ws (WsText (str ''3probe''))], Inr ()) \<and>
    polling_handles srv' sid = None \<and>
    (\<exists>tx. sockets srv' sid = Some (socket_upgrade decode Websocket incoming (s\<lparr>event_tx := tx\<rparr>)))"
proof -
  have pong: "bytes_from_packet encode (packet_new Pong probe) = as_bytes (str ''3probe'')"
    by (simp add: codec_simps probe_def)
  have utf8: "from_utf8 (as_bytes (str ''3probe'')) = Some (str ''3probe'')"
    by (rule from_utf8_as_bytes) (simp add: scalar_def)
  have "handle_probe encode net ws_net sid (Some (Inr (WsText (str ''2probe'')))) (Some (Inr (WsText (str ''5'')))) [] srv =
      (close_polling sid (drain_polling encode net sid srv), [Ws (WsText (str ''3probe''))], Inr sid)"
    using assms(1) unfolding handle_probe_def websocket_send_packet_def pong utf8 by (simp add: reliable_def Let_def)
  with assms(2) show ?thesis
    by (auto simp: websocket_handle_def store_transport_def server_handshake_packet_def server_socket_def
        close_polling_def lend_events_def Let_def)
qed

section \<open>Properties\<close>

text \<open>
  C25: The upgrade of a session hands it over to the websocket, without what is pending. When
  the two messages of the probe reach the server of an open polling session whose queue has
  room, it answers with the probe's pong and the session stays open: its stream is now what
  comes over the websocket, and text packets that the server emits later arrive over the
  websocket in their order. What was pending in the queue is gone: a later polling request is
  answered at once and without a body.
\<close>

theorem upgrade_hand_over:
  assumes "base64 encode decode" and "reliable net" and "reliable ws_net"
    and "polling_session sid bs srv" and "length bs < unat (polling_buffer srv)" and "list_all text_packet ps"
  shows "\<exists>srv' s' s''. websocket_handle encode decode to_string net ws_net now True (Some sid)
      (Some (Inr (WsText (str ''2probe'')))) (Some (Inr (WsText (str ''5'')))) incoming srv =
      (srv', [Ws (WsText (str ''3probe''))], Inr ()) \<and>
    sockets srv' sid = Some s' \<and> connected s' \<and> transport s' = Websocket \<and> generator s' = socket_stream decode incoming \<and>
    sockets (fold (\<lambda>p srv. fst (server_emit encode net sid p srv)) ps srv') sid = Some s'' \<and>
    socket_stream decode (ws_receive (drop (length (wire_out s')) (wire_out s''))) = map Inr ps \<and>
    polling_handle_request encode decode to_string net now (Some (Some (PollingGet sid))) srv' = (srv', HttpResponse 200 None)"
proof -
  obtain s where s: "sockets (drain_polling encode net sid srv) sid = Some s" "connected s"
    using assms(4) drain_polling_session [of srv sid _ encode net] by (auto simp: polling_session_def)
  obtain srv' tx where srv': "websocket_handle encode decode to_string net ws_net now True (Some sid)
      (Some (Inr (WsText (str ''2probe'')))) (Some (Inr (WsText (str ''5'')))) incoming srv =
      (srv', [Ws (WsText (str ''3probe''))], Inr ())" "polling_handles srv' sid = None"
    "sockets srv' sid = Some (socket_upgrade decode Websocket incoming (s\<lparr>event_tx := tx\<rparr>))"
    using upgrade_result [OF assms(3) s(1)] by blast
  let ?s' = "socket_upgrade decode Websocket incoming (s\<lparr>event_tx := tx\<rparr>)"
  have s': "connected ?s'" "transport ?s' = Websocket" "generator ?s' = socket_stream decode incoming"
    using s(2) by (simp_all add: socket_upgrade_def Let_def)
  then have "websocket_session sid (wire_out ?s') srv'" using srv'(3) by (simp add: websocket_session_def)
  from websocket_session_emits [OF this assms(2,6), of encode]
  obtain s'' where s'': "sockets (fold (\<lambda>p srv. fst (server_emit encode net sid p srv)) ps srv') sid = Some s''"
    "wire_out s'' = wire_out ?s' @ map (\<lambda>p. Ws (WsText (packet_text p))) ps"
    by (auto simp: websocket_session_def)
  have "ws_receive (map (\<lambda>p. Ws (WsText (packet_text p))) ps) = map (\<lambda>p. Inr (as_bytes (packet_text p))) ps" for ps
    by (induction ps) (simp_all add: ws_receive_def)
  then have "socket_stream decode (ws_receive (drop (length (wire_out ?s')) (wire_out s''))) = map Inr ps"
    using s''(2) base64.socket_stream_singles [OF assms(1,6)] by simp
  moreover have "polling_handle_request encode decode to_string net now (Some (Some (PollingGet sid))) srv' =
      (srv', HttpResponse 200 None)"
    using srv'(2) by (simp add: polling_handle_request_def polling_get_def server_polling_handle_def)
  ultimately show ?thesis using srv' s' s''(1) by blast
qed

theorem upgrade_hand_over_witness:
  "let srv = (the (builder_build (server_builder_new 80)))\<lparr>sockets := [[49] \<mapsto> example_socket ServerPolling],
       polling_handles := [[49] \<mapsto> \<lparr>posted = [], pending = [as_bytes (str ''4lost'')]\<rparr>]\<rparr>
   in \<exists>srv'. websocket_handle rfc_encode rfc_decode print_json (\<lambda>_ _. Inr 200) (\<lambda>_ _. Inr 200) 3 True (Some [49])
        (Some (Inr (WsText (str ''2probe'')))) (Some (Inr (WsText (str ''5'')))) [] srv =
        (srv', [Ws (WsText (str ''3probe''))], Inr ()) \<and>
      polling_handle_request rfc_encode rfc_decode print_json (\<lambda>_ _. Inr 200) 3 (Some (Some (PollingGet [49]))) srv' =
        (srv', HttpResponse 200 None)"
proof -
  let ?srv = "(the (builder_build (server_builder_new 80)))\<lparr>sockets := [[49] \<mapsto> example_socket ServerPolling],
       polling_handles := [[49] \<mapsto> \<lparr>posted = [], pending = [as_bytes (str ''4lost'')]\<rparr>]\<rparr>"
  have net: "reliable (\<lambda>_ _. Inr 200)" by (simp add: reliable_def)
  have srv: "polling_session [49] [as_bytes (str ''4lost'')] ?srv" by (simp add: polling_session_def)
  have room: "length [as_bytes (str ''4lost'')] < unat (polling_buffer ?srv)"
    by (simp add: builder_build_def server_builder_new_def)
  have packets: "list_all text_packet [packet_new Ping []]" by simp
  from upgrade_hand_over [OF rfc4648.base64_axioms net net srv room packets, of print_json 3 "[]"]
  show ?thesis unfolding Let_def by blast
qed

end
