(* ===== verification/Sio_Programs.thy ===== *)
theory Sio_Programs
  imports Sio_Callbacks Engine_Sessions
begin

text \<open>
  The programs that the repository writes with its callbacks, as tables of callbacks with
  their bodies: the server of the server's tests (\<open>socketio/src/server/server.rs\<close>), that of the
  client's tests (\<open>socketio/src/client/client.rs\<close>), and the server and the client of the examples
  (\<open>socketio/examples\<close>). What they only log is left out. Then whole exchanges between a
  client and such a server are followed, from the client's posts over the server's callback to
  the client's callback.
\<close>

section \<open>Tables of callbacks\<close>

text \<open>Calls of \<open>on\<close> one after the other: a later callback of the same event replaces an earlier one.\<close>

type_synonym 'c registration = "namespace \<times> sio_event \<times> 'c callback"

definition sb_ons :: "'c registration list \<Rightarrow> sio_server_builder \<Rightarrow> sio_server_builder" where
  "sb_ons regs b = fold (\<lambda>(ns, e, _). sb_register ns e) regs b"

definition on_table :: "'c registration list \<Rightarrow> namespace \<Rightarrow> sio_event \<Rightarrow> 'c callback option" where
  "on_table regs ns e = map_of (map (\<lambda>(ns, e, cb). ((ns, e), cb)) (rev regs)) (ns, e)"

lemma sb_register_on:
  "(\<exists>evs. sb_on (sb_register ns e b) ns' = Some evs \<and> e' \<in> evs) \<longleftrightarrow>
   (\<exists>evs. sb_on b ns' = Some evs \<and> e' \<in> evs) \<or> (ns', e') = (ns, e)"
  by (auto simp: sb_register_def split: option.splits)

lemma sb_ons_on:
  "(\<exists>evs. sb_on (sb_ons regs b) ns = Some evs \<and> e \<in> evs) \<longleftrightarrow>
   (\<exists>evs. sb_on b ns = Some evs \<and> e \<in> evs) \<or> (ns, e) \<in> set (map (\<lambda>(ns, e, cb). (ns, e)) regs)"
proof (induction regs arbitrary: b)
  case (Cons r regs)
  obtain ns' e' cb where r: "r = (ns', e', cb)" by (cases r)
  have "sb_ons (r # regs) b = sb_ons regs (sb_register ns' e' b)" by (simp add: sb_ons_def r)
  then show ?case using Cons.IH [of "sb_register ns' e' b"] by (auto simp: r sb_register_on)
qed (simp add: sb_ons_def)

lemma on_table_registered:
  "on_table regs ns e \<noteq> None \<longleftrightarrow> (ns, e) \<in> set (map (\<lambda>(ns, e, cb). (ns, e)) regs)"
proof -
  have "on_table regs ns e \<noteq> None \<longleftrightarrow> (ns, e) \<in> fst ` set (map (\<lambda>(ns, e, cb). ((ns, e), cb)) (rev regs))"
    unfolding on_table_def by (rule map_of_eq_None_iff [THEN arg_cong [where f = Not], simplified not_not])
  also have "\<dots> \<longleftrightarrow> (ns, e) \<in> set (map (\<lambda>(ns, e, cb). (ns, e)) regs)" by force
  finally show ?thesis .
qed

section \<open>The server of the server's tests\<close>

definition srv_echo_callback :: "server_call callback" where
  "srv_echo_callback = callback_new (\<lambda>_ _.
     [Ignore (DoJoin [str ''room 1'']),
      Ignore (DoEmitTo [str ''room 1''] (event_from_string (str ''echo'')) (payload_from_value (JString (str '''')))),
      Ignore (DoLeave [str ''room 1''])])"

definition srv_client_ack :: "server_call callback" where
  "srv_client_ack = callback_new (\<lambda>_ need_ack.
     case need_ack of
       Some i \<Rightarrow> [Expect (DoAck i (payload_from_value (JString (str ''ack to client''))))]
     | None \<Rightarrow> [])"

definition srv_server_recv_ack :: "server_call callback" where
  "srv_server_recv_ack = callback_new (\<lambda>_ _.
     [Expect (DoEmit (event_from_string (str ''server_recv_ack'')) (payload_from_value (JString (str ''''))))])"

definition srv_trigger_ack :: "server_call callback" where
  "srv_trigger_ack = callback_new (\<lambda>_ _.
     [Ignore (DoJoin [str ''room 2'']),
      Ignore (DoEmitToWithAck [str ''room 2''] (event_from_string (str ''server_ask_ack''))
        (payload_from_value (JBool True)) 400),
      Ignore (DoLeave [str ''room 2''])])"

definition srv_registrations :: "server_call registration list" where
  "srv_registrations =
     [(str ''/admin'', event_from_string (str ''echo''), srv_echo_callback),
      (str ''/admin'', event_from_string (str ''client_ack''), srv_client_ack),
      (str ''/admin'', event_from_string (str ''trigger_server_ack''), srv_trigger_ack)]"

definition srv_setup :: "u16 \<Rightarrow> sio_server option" where
  "srv_setup port = sb_build (sb_ons srv_registrations (sio_server_builder_new port))"

text \<open>Every acknowledgement that this server waits for has been asked for by one of its callbacks, with one callback.\<close>

definition srv_handlers :: "namespace \<Rightarrow> server_call handlers" where
  "srv_handlers ns = \<lparr>on_event = on_table srv_registrations ns, on_ack = (\<lambda>_. Some srv_server_recv_ack)\<rparr>"

section \<open>The server of the client's tests\<close>

definition cli_echo_callback :: "server_call callback" where
  "cli_echo_callback = callback_new (\<lambda>_ _.
     [Ignore (DoEmit (event_from_string (str ''echo'')) (payload_from_value (JString (str ''''))))])"

definition cli_client_ack :: "server_call callback" where
  "cli_client_ack = callback_new (\<lambda>payload need_ack.
     case need_ack of
       Some i \<Rightarrow>
         [Expect (DoAck i (case payload of Some d \<Rightarrow> d | None \<Rightarrow> payload_from_value (JString (str ''ackback''))))]
     | None \<Rightarrow> [])"

definition cli_server_recv_ack :: "server_call callback" where
  "cli_server_recv_ack = callback_new (\<lambda>_ _.
     [Expect (DoEmit (event_from_string (str ''server_recv_ack'')) (payload_from_value (JString (str ''''))))])"

definition cli_trigger_ack :: "server_call callback" where
  "cli_trigger_ack = callback_new (\<lambda>message _.
     let payload = (case message of
           Some d \<Rightarrow> d | None \<Rightarrow> payload_from_value (JObject [(str ''ack_back'', JBool True)]))
     in [Expect (DoEmitWithAck (event_from_string (str ''server_ask_ack'')) payload 400)])"

definition cli_connect_cb :: "server_call callback" where
  "cli_connect_cb = callback_new (\<lambda>_ _.
     [Expect (DoEmit (event_from_string (str ''test'')) (payload_from_value (JString (str ''Hello from the test event!'')))),
      Expect (DoEmit (event_from_string (str ''test'')) (PBinary [1, 2, 3])),
      Expect (DoEmit (event_from_string (str ''test''))
        (PMulti [raw_from_value (JNumber (PosInt 1)), raw_from_value (JString (str ''2'')),
           raw_from_bytes [3], raw_from_bytes (as_bytes (str ''4''))]))])"

definition cli_registrations :: "server_call registration list" where
  "cli_registrations =
     [(str ''/admin'', event_from_string (str ''echo''), cli_echo_callback),
      (str ''/admin'', event_from_string (str ''client_ack''), cli_client_ack),
      (str ''/admin'', event_from_string (str ''server_ack''), cli_trigger_ack),
      (str ''/admin'', EvConnect, cli_connect_cb)]"

definition cli_setup_server :: "u16 \<Rightarrow> sio_server option" where
  "cli_setup_server port = sb_build (sb_ons cli_registrations (sio_server_builder_new port))"

definition cli_handlers :: "namespace \<Rightarrow> server_call handlers" where
  "cli_handlers ns = \<lparr>on_event = on_table cli_registrations ns, on_ack = (\<lambda>_. Some cli_server_recv_ack)\<rparr>"

section \<open>The examples\<close>

definition ex_callback :: "server_call callback" where
  "ex_callback = callback_new (\<lambda>_ _.
     [Ignore (DoJoin [str ''room 1'']),
      Ignore (DoEmitTo [str ''room 1''] (event_from_string (str ''test'')) (payload_from_value (JString (str ''foo''))))])"

definition ex_ack_callback :: "server_call callback" where
  "ex_ack_callback = callback_new (\<lambda>payload ack.
     case ack of
       Some i \<Rightarrow>
         let payload = (case payload of Some d \<Rightarrow> d | None \<Rightarrow> payload_from_value (JString (str ''ack back'')))
         in [Ignore (DoAck i payload)]
     | None \<Rightarrow> [])"

definition ex_registrations :: "server_call registration list" where
  "ex_registrations =
     [(str ''/admin'', event_from_string (str ''foo''), ex_callback),
      (str ''/admin'', event_from_string (str ''ack''), ex_ack_callback)]"

definition ex_server :: "sio_server option" where
  "ex_server = sb_build (sb_ons ex_registrations (sio_server_builder_new 4209))"

definition ex_client_callback :: "client_call callback" where
  "ex_client_callback = callback_new (\<lambda>_ _.
     [Expect (SocketEmit (event_from_string (str ''test'')) (payload_from_value (JObject [(str ''got ack'', JBool True)])))])"

definition ex_client_builder :: client_builder where
  "ex_client_builder =
     cb_register (event_from_string (str ''error'')) (cb_register (event_from_string (str ''test''))
       (cb_set_namespace (str ''/admin'') (client_builder_new (str ''http://localhost:4209/''))))"

text \<open>The calls of the client after it has connected; it waits before the last.\<close>

definition ex_client_main :: "client_call stmt list" where
  "ex_client_main =
     [Expect (SocketEmit (event_from_string (str ''foo'')) (payload_from_value (JObject [(str ''token'', JNumber (PosInt 123))]))),
      Expect (SocketEmitWithAck (event_from_string (str ''ack''))
        (PMulti [raw_from_value (JObject [(str ''myAckData'', JNumber (PosInt 123))]), raw_from_value (JString (str ''4'')),
           raw_from_bytes (as_bytes (str ''binary''))]) 2000),
      Expect SocketDisconnect]"

section \<open>Clients of the client's tests\<close>

text \<open>An assertion that a call has succeeded panics like an expectation.\<close>

definition cli_integration_builder :: "ustr \<Rightarrow> client_builder" where
  "cli_integration_builder url = cb_register (event_from_string (str ''test'')) (client_builder_new url)"

definition cli_integration_main :: "client_call stmt list" where
  "cli_integration_main =
     (let payload = JObject [(str ''token'', JNumber (PosInt 123))] in
      [Expect (SocketEmit (event_from_string (str ''test'')) (PJson payload)),
       Expect (SocketEmitWithAck (event_from_string (str ''test'')) (PJson payload) 1000),
       Expect SocketDisconnect])"

definition cli_integration_ack :: "client_call callback" where
  "cli_integration_ack = callback_new (\<lambda>_ _.
     [Expect (SocketEmit (event_from_string (str ''test'')) (PJson (JObject [(str ''got ack'', JBool True)])))])"

definition cli_admin_builder :: "ustr \<Rightarrow> client_builder" where
  "cli_admin_builder url =
     cb_register (event_from_string (str ''message'')) (cb_register (event_from_string (str ''test''))
       (cb_opening_header (str ''accept-encoding'') (as_bytes (str ''application/json''))
         (cb_set_namespace (str ''/admin'') (client_builder_new url))))"

definition cli_builder_integration_main :: "client_call stmt list" where
  "cli_builder_integration_main =
     [Expect (SocketEmit (event_from_string (str ''message'')) (payload_from_value (JString (str ''Hello World'')))),
      Expect (SocketEmit (event_from_string (str ''binary'')) (payload_from_bytes [46, 88])),
      Expect (SocketEmitWithAck (event_from_string (str ''binary'')) (payload_from_value (JString (str ''pls ack''))) 1000)]"

text \<open>A call on the handle of a client, which goes to its current socket.\<close>

fun handle_exec ::
  "sio_env \<Rightarrow> instant \<Rightarrow> client_call \<Rightarrow> 'b sio_client \<Rightarrow> ('b sio_client \<times> (sio_error + unit)) option" where
  "handle_exec env now (SocketEmit e d) c = Some (client_emit env e d c)"
| "handle_exec env now (SocketEmitWithAck e d timeout) c = Some (client_emit_with_ack env now e d timeout c)"
| "handle_exec env now (SocketAck i d) c = Some (client_ack env i d c)"
| "handle_exec env now SocketDisconnect c = Some (client_disconnect env c)"

text \<open>
  The servers can be built, and in each namespace the events that start a callback are exactly
  those that have one in the table.
\<close>

lemma table_complete:
  "\<exists>srv. sb_build (sb_ons regs (sio_server_builder_new port)) = Some srv \<and>
    (\<forall>ns e. (\<exists>evs. ns_on srv ns = Some evs \<and> e \<in> evs) \<longleftrightarrow> on_table regs ns e \<noteq> None)"
proof -
  have "sb_builder (sb_ons regs b) = sb_builder b" for b
  proof (induction regs arbitrary: b)
    case (Cons r regs)
    obtain ns e cb where r: "r = (ns, e, cb)" by (cases r)
    have "sb_builder (sb_register ns e b) = sb_builder b" by (simp add: sb_register_def split: option.splits)
    with Cons.IH [of "sb_register ns e b"] show ?case by (simp add: sb_ons_def r)
  qed (simp add: sb_ons_def)
  then show ?thesis
    by (simp add: sb_build_def builder_build_def sio_server_builder_new_def server_builder_new_def sb_ons_on on_table_registered
        del: not_None_eq)
qed

section \<open>Posts of a client\<close>

definition posts_of :: "sio_env \<Rightarrow> eio_packet list \<Rightarrow> wire list" where
  "posts_of env ps = map (\<lambda>p. Post (bytes_from_packet (env_encode env) p)) ps"

lemma posts_of_append [simp]: "posts_of env (ps @ qs) = posts_of env ps @ posts_of env qs"
  by (simp add: posts_of_def)

lemma raw_send_posts:
  assumes "reliable (env_net env)" and "connected s" and "transport s = ClientPolling"
  shows "raw_send env p s = (s\<lparr>wire_out := wire_out s @ posts_of env (engine_packets (env_to_string env) p)\<rparr>, Inr ())"
proof -
  have "emit_multi_loop (env_encode env) (env_net env) ps s = (s\<lparr>wire_out := wire_out s @ posts_of env ps\<rparr>, Inr ())"
    if "transport s = ClientPolling" for ps and s
    using that by (induction ps arbitrary: s) (simp_all add: posts_of_def reliable_transport_emit [OF assms(1) post_wire])
  with assms(2,3) show ?thesis by (simp add: raw_send_packets socket_emit_multi_def lift_engine_def)
qed

lemma disconnect_posts:
  assumes "reliable (env_net env)" and "connected s" and "transport s = ClientPolling" and "event_tx s = None"
  shows "raw_disconnect env s =
    (s\<lparr>wire_out := wire_out s @ posts_of env [packet_new Close []], connected := False\<rparr>, Inr ())"
  using assms reliable_emit [OF assms(1,2), of "env_encode env" "packet_new Close []"]
  by (simp add: raw_disconnect_def is_engineio_connected_def socket_disconnect_def is_connected_def send_event_def
      posts_of_def post_wire lift_engine_def)

text \<open>The packets of the calls of a program, with the ids of the acknowledgements they ask for.\<close>

fun program_packets :: "ustr \<Rightarrow> usize \<Rightarrow> client_call list \<Rightarrow> sio_packet list" where
  "program_packets ns i [] = []"
| "program_packets ns i (SocketEmit e d # cs) = build_packet_for_payload d (Some e) ns None False # program_packets ns i cs"
| "program_packets ns i (SocketEmitWithAck e d timeout # cs) =
     build_packet_for_payload d (Some e) ns (Some i) False # program_packets ns (i + 1) cs"
| "program_packets ns i (SocketAck j d # cs) = build_packet_for_payload d None ns (Some j) True # program_packets ns i cs"
| "program_packets ns i (SocketDisconnect # cs) = sio_packet_new Disconnect ns None None 0 None # program_packets ns i cs"

fun proper_call :: "client_call \<Rightarrow> bool" where
  "proper_call (SocketEmit e d) \<longleftrightarrow> proper_payload d \<and> wf_str (string_from_event e)"
| "proper_call (SocketEmitWithAck e d timeout) \<longleftrightarrow> proper_payload d \<and> wf_str (string_from_event e)"
| "proper_call (SocketAck i d) \<longleftrightarrow> proper_payload d"
| "proper_call SocketDisconnect \<longleftrightarrow> True"

lemma program_packets_wf:
  assumes "wf_nsp ns" and "0x1e \<notin> set ns" and "list_all proper_call cs" and "p \<in> set (program_packets ns i cs)"
  shows "wf_sio_packet p \<and> 0x1e \<notin> set (nsp p)"
proof -
  have "wf_sio_packet (sio_packet_new Disconnect ns None None 0 None)"
    using assms(1) by (simp add: wf_sio_packet_def sio_packet_new_def has_attachment_count_def)
  then show ?thesis using assms
    by (induction ns i cs rule: program_packets.induct) (auto simp: wf_built sio_packet_new_def)
qed

text \<open>The calls that keep the connection, one after the other on a client that is connected over polling.\<close>

definition on_polling :: "ustr \<Rightarrow> 'b sio_client \<Rightarrow> bool" where
  "on_polling ns c \<longleftrightarrow> cl_connected c \<and> sk_connected (cl_socket c) \<and> connected (engine (cl_socket c)) \<and>
     transport (engine (cl_socket c)) = ClientPolling \<and> event_tx (engine (cl_socket c)) = None \<and> sk_nsp (cl_socket c) = ns"

lemma handle_exec_posts:
  assumes "reliable (env_net env)" and "on_polling ns c" and "call \<noteq> SocketDisconnect"
  shows "\<exists>c'. handle_exec env now call c = Some (c', Inr ()) \<and> on_polling ns c' \<and>
    wire_out (engine (cl_socket c')) = wire_out (engine (cl_socket c)) @
      posts_of env (concat (map (engine_packets (env_to_string env)) (program_packets ns (ack_id_gen (cl_socket c)) [call]))) \<and>
    ack_id_gen (cl_socket c') = (case call of SocketEmitWithAck _ _ _ \<Rightarrow> ack_id_gen (cl_socket c) + 1 | _ \<Rightarrow> ack_id_gen (cl_socket c))"
  using assms(2,3)
  by (cases call) (auto simp: on_polling_def client_emit_def client_emit_with_ack_def client_ack_def with_socket_def sio_emit_def
      sio_emit_with_ack_def sio_ack_def ack_id_generate_def with_engine_def raw_emit_def raw_ack_def raw_send_posts [OF assms(1)] Let_def)

lemma program_posts:
  assumes "reliable (env_net env)" and "on_polling ns c" and "SocketDisconnect \<notin> set cs"
  shows "\<exists>c'. (\<forall>rest. run_body (handle_exec env now) (map Expect cs @ rest) c = run_body (handle_exec env now) rest c') \<and> on_polling ns c' \<and>
    wire_out (engine (cl_socket c')) = wire_out (engine (cl_socket c)) @
      posts_of env (concat (map (engine_packets (env_to_string env)) (program_packets ns (ack_id_gen (cl_socket c)) cs)))"
  using assms(2,3)
proof (induction cs arbitrary: c)
  case (Cons call cs)
  then obtain c1 where c1: "handle_exec env now call c = Some (c1, Inr ())" "on_polling ns c1"
    "wire_out (engine (cl_socket c1)) = wire_out (engine (cl_socket c)) @
      posts_of env (concat (map (engine_packets (env_to_string env)) (program_packets ns (ack_id_gen (cl_socket c)) [call])))"
    "ack_id_gen (cl_socket c1) = (case call of SocketEmitWithAck _ _ _ \<Rightarrow> ack_id_gen (cl_socket c) + 1 | _ \<Rightarrow> ack_id_gen (cl_socket c))"
    using handle_exec_posts [OF assms(1), of ns c call now] by auto
  with Cons.IH [OF c1(2)] Cons.prems(2) show ?case by (cases call) auto
qed (auto simp: posts_of_def)

lemma disconnect_program_posts:
  assumes "reliable (env_net env)" and "on_polling ns c"
  shows "\<exists>c'. handle_exec env now SocketDisconnect c = Some (c', Inr ()) \<and> \<not> cl_connected c' \<and>
    \<not> sk_connected (cl_socket c') \<and> \<not> connected (engine (cl_socket c')) \<and>
    wire_out (engine (cl_socket c')) = wire_out (engine (cl_socket c)) @
      posts_of env (engine_packets (env_to_string env) (sio_packet_new Disconnect ns None None 0 None) @ [packet_new Close []])"
  using assms(2)
  by (auto simp: on_polling_def client_disconnect_def disconnect_socket_def with_socket_def sio_disconnect_def with_engine_def
      raw_send_posts [OF assms(1)] disconnect_posts [OF assms(1)] Let_def)

section \<open>Exchanges\<close>

text \<open>An open polling session with nothing pending in either direction.\<close>

definition idle_session :: "sid \<Rightarrow> eio_server \<Rightarrow> bool" where
  "idle_session esid es \<longleftrightarrow>
     (\<exists>s. sockets es esid = Some s \<and> connected s \<and> transport s = ServerPolling \<and> generator s = []) \<and>
     polling_handles es esid = Some \<lparr>posted = [], pending = []\<rparr>"

text \<open>What a socket has sent between two states.\<close>

definition sent_by :: "eio_socket \<Rightarrow> eio_socket \<Rightarrow> wire list" where
  "sent_by s s' = drop (length (wire_out s)) (wire_out s')"

lemma sent_by_emissions:
  assumes "reliable (env_net env)" and "sk_connected sk" and "connected (engine sk)" and "transport (engine sk) = ClientPolling"
  shows "sent_by (engine sk) (engine (fst (sio_emit env e d sk))) =
      posts_of env (engine_packets (env_to_string env) (build_packet_for_payload d (Some e) (sk_nsp sk) None False))"
    and "sent_by (engine sk) (engine (fst (sio_emit_with_ack env now e d timeout sk))) =
      posts_of env (engine_packets (env_to_string env) (build_packet_for_payload d (Some e) (sk_nsp sk) (Some (ack_id_gen sk)) False))"
  using assms(2) raw_send_posts [OF assms(1,3,4)]
  by (simp_all add: sent_by_def sio_emit_def sio_emit_with_ack_def ack_id_generate_def with_engine_def raw_emit_def Let_def)

text \<open>
  An event that a client posts to such a session is what its stream yields, when each of the
  requests fits into what the server reads.
\<close>

lemma event_posted:
  assumes "base64 (env_encode env) decode" and "serde_json (env_to_string env) (env_from_str env)"
    and "reliable (env_net env)" and "connected c" and "transport c = ClientPolling"
    and "wf_nsp ns" and "0x1e \<notin> set ns" and "proper_payload d" and "wf_str (string_from_event e)"
    and "idle_session esid es" and "posts_understood he addr u esid request" and "query u = []"
    and "posts_fit request (sent_by c (fst (raw_send env (build_packet_for_payload d (Some e) ns i False) c)))"
  shows "\<exists>ws es' rs s. raw_send env (build_packet_for_payload d (Some e) ns i False) c = (c\<lparr>wire_out := wire_out c @ ws\<rparr>, Inr ()) \<and>
    handle_posts he now addr request ws es = (es', rs) \<and> rs = replicate (length (posted_bodies ws)) (post_ok he) \<and>
    polling_session esid [] (deliver_posts decode esid es') \<and>
    sockets (deliver_posts decode esid es') esid = Some s \<and>
    generator s = map Inr (engine_packets (env_to_string env) (build_packet_for_payload d (Some e) ns i False))"
proof -
  obtain ws where ws: "raw_send env (build_packet_for_payload d (Some e) ns i False) c = (c\<lparr>wire_out := wire_out c @ ws\<rparr>, Inr ())"
    "socket_stream decode (post_receive ws) = map Inr (engine_packets (env_to_string env) (build_packet_for_payload d (Some e) ns i False))"
    using built_posts [OF assms(1-9)] by blast
  from assms(10) obtain s where s: "sockets es esid = Some s" "connected s" "transport s = ServerPolling" "generator s = []"
    and h: "polling_handles es esid = Some \<lparr>posted = [], pending = []\<rparr>"
    by (auto simp: idle_session_def)
  let ?h' = "\<lparr>posted = posted_bodies ws, pending = []\<rparr>"
  have fit: "posts_fit request ws" using assms(13) ws(1) by (simp add: sent_by_def)
  obtain es' where posts: "handle_posts he now addr request ws es = (es', replicate (length (posted_bodies ws)) (post_ok he))"
    "polling_handles es' esid = Some ?h'" "sockets es' = sockets es"
    using handle_posts_queue [OF assms(11,12) fit h, of now] by auto
  have "polling_session esid [] es'" using posts(2,3) s by (simp add: polling_session_def)
  from deliver_posts_session [OF this posts(2), of s decode] posts(3) s(1,4) ws(2)
  have "polling_session esid [] (deliver_posts decode esid es')"
    "sockets (deliver_posts decode esid es') esid = Some (s\<lparr>generator := map Inr (engine_packets (env_to_string env)
       (build_packet_for_payload d (Some e) ns i False))\<rparr>)"
    by (simp_all add: post_receive_def posted_bodies_def)
  with ws(1) posts(1) show ?thesis by fastforce
qed

text \<open>The same for the server: it is in a reachable state again, and the client's next turn reads the event.\<close>

lemma event_posted_server:
  assumes "lawful env" and "serde_json (env_to_string (se_env env)) (env_from_str (se_env env))"
    and "reliable (env_net (se_env env))" and "connected c" and "transport c = ClientPolling"
    and "wf_nsp ns" and "0x1e \<notin> set ns" and "proper_payload d" and "wf_str (string_from_event e)"
    and "srv_reach env srv" and "client (se_decode env) sid ns srv = Some sk"
    and "sio_sid_decode (se_decode env) sid = Some esid" and "idle_session esid (engine_server srv)"
    and "posts_understood he addr u esid request" and "query u = []"
    and "posts_fit request (sent_by c (fst (raw_send (se_env env) (build_packet_for_payload d (Some e) ns i False) c)))"
  obtains ws es rs s where
    "raw_send (se_env env) (build_packet_for_payload d (Some e) ns i False) c = (c\<lparr>wire_out := wire_out c @ ws\<rparr>, Inr ())"
    and "handle_posts he now addr request ws (engine_server srv) = (es, rs)"
    and "rs = replicate (length (posted_bodies ws)) (post_ok he)"
    and "srv_reach env (srv\<lparr>engine_server := deliver_posts (se_decode env) esid es\<rparr>)"
    and "client (se_decode env) sid ns (srv\<lparr>engine_server := deliver_posts (se_decode env) esid es\<rparr>) = Some sk"
    and "sk_nsp sk = ns"
    and "polling_session esid [] (engine_server (srv\<lparr>engine_server := deliver_posts (se_decode env) esid es\<rparr>))"
    and "sockets (engine_server (srv\<lparr>engine_server := deliver_posts (se_decode env) esid es\<rparr>)) esid = Some s"
    and "generator s = map Inr (engine_packets (env_to_string (se_env env)) (build_packet_for_payload d (Some e) ns i False))"
proof -
  have b64: "base64 (env_encode (se_env env)) (se_decode env)" using assms(1) by (simp add: lawful_def)
  obtain ws es rs s where posted:
    "raw_send (se_env env) (build_packet_for_payload d (Some e) ns i False) c = (c\<lparr>wire_out := wire_out c @ ws\<rparr>, Inr ())"
    "handle_posts he now addr request ws (engine_server srv) = (es, rs)"
    "rs = replicate (length (posted_bodies ws)) (post_ok he)"
    "polling_session esid [] (deliver_posts (se_decode env) esid es)" "sockets (deliver_posts (se_decode env) esid es) esid = Some s"
    "generator s = map Inr (engine_packets (env_to_string (se_env env)) (build_packet_for_payload d (Some e) ns i False))"
    using event_posted [OF b64 assms(2-9,13-16)] by blast
  have "srv_reach env (srv_apply env (NsEngine (deliver_posts (se_decode env) esid es)) srv)"
    using assms(10) by (intro srv_turn) simp_all
  then have reach: "srv_reach env (srv\<lparr>engine_server := deliver_posts (se_decode env) esid es\<rparr>)" by simp
  have found: "client (se_decode env) sid ns (srv\<lparr>engine_server := deliver_posts (se_decode env) esid es\<rparr>) = Some sk"
    using assms(11,12) by (simp add: client_def)
  from filed_client [OF srv_reach_filed [OF assms(10,1)] assms(11)] have "sk_nsp sk = ns" by (metis fst_conv identity_def)
  with posted reach found that show thesis by simp
qed

text \<open>A client that waits for an acknowledgement, and the callback of the server that sends it.\<close>

definition awaiting :: "instant \<Rightarrow> nat \<Rightarrow> wire list \<Rightarrow> sio_socket \<Rightarrow> sio_socket" where
  "awaiting now timeout ws ck =
     ck\<lparr>ack_id_gen := ack_id_gen ck + 1,
        outstanding_acks := outstanding_acks ck @ [\<lparr>ack_id = ack_id_gen ck, ack_timeout = timeout, time_started = now\<rparr>],
        engine := (engine ck)\<lparr>wire_out := wire_out (engine ck) @ ws\<rparr>\<rparr>"

lemma awaiting_fields [simp]:
  "outstanding_acks (awaiting now timeout ws ck) =
     outstanding_acks ck @ [\<lparr>ack_id = ack_id_gen ck, ack_timeout = timeout, time_started = now\<rparr>]"
  "wire_out (engine (awaiting now timeout ws ck)) = wire_out (engine ck) @ ws"
  "ended (awaiting now timeout ws ck) = ended ck" "sk_nsp (awaiting now timeout ws ck) = sk_nsp ck"
  "calls (awaiting now timeout ws ck) = calls ck"
  by (simp_all add: awaiting_def)

lemma ack_exchange:
  assumes "lawful env" and "serde_json (env_to_string (se_env env)) (env_from_str (se_env env))"
    and "reliable (env_net (se_env env))" and "sk_connected ck" and "connected (engine ck)"
    and "transport (engine ck) = ClientPolling" and "sk_nsp ck = ns" and "wf_nsp ns" and "0x1e \<notin> set ns"
    and "proper_payload d" and "proper_event e" and "wf_str (string_from_event e)"
    and "srv_reach env srv" and "client (se_decode env) sid ns srv = Some sk"
    and "sio_sid_decode (se_decode env) sid = Some esid" and "idle_session esid (engine_server srv)"
    and "sk_connected sk" and "\<not> ended sk" and "e \<in> on sk"
    and "posts_understood he addr u esid request" and "query u = []"
    and "posts_fit request (sent_by (engine ck) (engine (fst (sio_emit_with_ack (se_env env) now e d timeout ck))))"
    and body: "call_body hs (EventCall e (Some (payload_of_raws (payload_raws d))) (Some (ack_id_gen ck))) \<in>
      {[Expect (DoAck (ack_id_gen ck) d')], [Ignore (DoAck (ack_id_gen ck) d')]}"
  obtains ws es rs srv' where "sio_emit_with_ack (se_env env) now e d timeout ck = (awaiting now timeout ws ck, Inr ())"
    and "handle_posts he now addr request ws (engine_server srv) = (es, rs)"
    and "rs = replicate (length (posted_bodies ws)) (post_ok he)"
    and "server_turn env hs now \<lparr>sc_sid = sid, sc_nsp = ns\<rparr> (srv\<lparr>engine_server := deliver_posts (se_decode env) esid es\<rparr>) = Some srv'"
    and "polling_session esid (map (bytes_from_packet (env_encode (se_env env)))
      (engine_packets (env_to_string (se_env env)) (build_packet_for_payload d' None ns (Some (ack_id_gen ck)) True))) (engine_server srv')"
proof -
  let ?env = "se_env env" and ?i = "ack_id_gen ck"
  have "engine (fst (sio_emit_with_ack ?env now e d timeout ck)) =
      fst (raw_send ?env (build_packet_for_payload d (Some e) ns (Some ?i) False) (engine ck))"
    using assms(4,7) by (simp add: sio_emit_with_ack_def ack_id_generate_def with_engine_def Let_def case_prod_unfold)
  with assms(22) have fit: "posts_fit request (sent_by (engine ck)
      (fst (raw_send ?env (build_packet_for_payload d (Some e) ns (Some ?i) False) (engine ck))))" by simp
  from event_posted_server [OF assms(1-3,5,6,8-10,12-16,20,21) fit, of now] obtain ws es rs s where posted:
    "raw_send ?env (build_packet_for_payload d (Some e) ns (Some ?i) False) (engine ck) =
      ((engine ck)\<lparr>wire_out := wire_out (engine ck) @ ws\<rparr>, Inr ())"
    "handle_posts he now addr request ws (engine_server srv) = (es, rs)"
    "rs = replicate (length (posted_bodies ws)) (post_ok he)"
    and srv: "srv_reach env (srv\<lparr>engine_server := deliver_posts (se_decode env) esid es\<rparr>)"
    "client (se_decode env) sid ns (srv\<lparr>engine_server := deliver_posts (se_decode env) esid es\<rparr>) = Some sk" "sk_nsp sk = ns"
    and session: "polling_session esid [] (engine_server (srv\<lparr>engine_server := deliver_posts (se_decode env) esid es\<rparr>))"
    "sockets (engine_server (srv\<lparr>engine_server := deliver_posts (se_decode env) esid es\<rparr>)) esid = Some s"
    "generator s = map Inr (engine_packets (env_to_string ?env) (build_packet_for_payload d (Some e) ns (Some ?i) False))"
    by blast
  have emit: "sio_emit_with_ack ?env now e d timeout ck = (awaiting now timeout ws ck, Inr ())"
    using posted(1) assms(4,7) by (simp add: sio_emit_with_ack_def ack_id_generate_def with_engine_def awaiting_def Let_def)
  obtain srv' where "server_turn env hs now \<lparr>sc_sid = sid, sc_nsp = ns\<rparr>
      (srv\<lparr>engine_server := deliver_posts (se_decode env) esid es\<rparr>) = Some srv'"
    "polling_session esid (map (bytes_from_packet (env_encode ?env))
      (engine_packets (env_to_string ?env) (build_packet_for_payload d' None ns (Some ?i) True))) (engine_server srv')"
    using ack_turn [OF assms(2) srv(2) assms(15,1) srv(1) session assms(8,10-12,18) srv(3) assms(19,17) body, of now, unfolded append_Nil] by blast
  with emit posted(2,3) show thesis by (rule that)
qed

section \<open>Properties\<close>

text \<open>
  C3: The echo server of the tests answers. On a network that accepts every output, a client
  on polling emits an event whose callback is the echo callback, to a server in any state that
  a built server reaches in which the client's session is open and idle. When each of the
  posts, head and body together, is within the thousand bytes that the server reads, the
  server answers all of them with success; in the next
  turn of the client's polling task the callback joins its room, emits to it and leaves it;
  the client's next polling request is answered with a body, and whichever socket of the
  namespace with a callback for the echo receives this body starts this callback once, with
  the payload of the echo.
\<close>

theorem echo_answered:
  assumes "lawful env" and "serde_json (env_to_string (se_env env)) (env_from_str (se_env env))"
    and "reliable (env_net (se_env env))" and "sk_connected ck" and "connected (engine ck)"
    and "transport (engine ck) = ClientPolling" and "sk_nsp ck = ns" and "wf_nsp ns" and "0x1e \<notin> set ns"
    and "proper_payload d" and "proper_event e" and "wf_str (string_from_event e)"
    and "srv_reach env srv" and "client (se_decode env) sid ns srv = Some sk"
    and "sio_sid_decode (se_decode env) sid = Some esid" and "idle_session esid (engine_server srv)"
    and "sk_connected sk" and "\<not> ended sk" and "e \<in> on sk" and "on_event hs e = Some srv_echo_callback"
    and "posts_understood he addr u esid request" and "query u = []"
    and "posts_fit request (sent_by (engine ck) (engine (fst (sio_emit (se_env env) e d ck))))"
  shows "\<exists>ws es rs srv' es' body.
    sio_emit (se_env env) e d ck = (ck\<lparr>engine := (engine ck)\<lparr>wire_out := wire_out (engine ck) @ ws\<rparr>\<rparr>, Inr ()) \<and>
    handle_posts he now addr request ws (engine_server srv) = (es, rs) \<and>
    rs = replicate (length (posted_bodies ws)) (post_ok he) \<and>
    server_turn env hs now \<lparr>sc_sid = sid, sc_nsp = ns\<rparr> (srv\<lparr>engine_server := deliver_posts (se_decode env) esid es\<rparr>) = Some srv' \<and>
    polling_handle_request (env_encode (se_env env)) (se_decode env) to_string net now (Some (Some (PollingGet esid)))
      (engine_server srv') = (es', HttpResponse 200 (Some body)) \<and>
    (\<forall>rk later. generator (engine rk) = socket_stream (se_decode env) (client_polling_stream [Inr [Inr (as_bytes body)]]) \<and>
        \<not> ended rk \<and> sk_nsp rk = ns \<and> EvCustom (str ''echo'') \<in> on rk \<longrightarrow>
      (\<exists>rk' q. sio_poll_packet (se_env env) later rk = (rk', RawItem (Inr q)) \<and>
        calls rk' = calls rk @ [EventCall (EvCustom (str ''echo'')) (Some (PJson (JString []))) None]))"
proof -
  let ?env = "se_env env" and ?echo = "EvCustom (str ''echo'')" and ?d = "PJson (JString [])"
  have b64: "base64 (env_encode ?env) (se_decode env)" using assms(1) by (simp add: lawful_def)
  have "engine (fst (sio_emit ?env e d ck)) = fst (raw_send ?env (build_packet_for_payload d (Some e) ns None False) (engine ck))"
    using assms(4,7) by (simp add: sio_emit_def with_engine_def raw_emit_def case_prod_unfold Let_def)
  with assms(23) have fit: "posts_fit request (sent_by (engine ck)
      (fst (raw_send ?env (build_packet_for_payload d (Some e) ns None False) (engine ck))))" by simp
  from event_posted_server [OF assms(1-3,5,6,8-10,12-16,21,22) fit, of now] obtain ws es rs s where posted:
    "raw_send ?env (build_packet_for_payload d (Some e) ns None False) (engine ck) =
      ((engine ck)\<lparr>wire_out := wire_out (engine ck) @ ws\<rparr>, Inr ())"
    "handle_posts he now addr request ws (engine_server srv) = (es, rs)"
    "rs = replicate (length (posted_bodies ws)) (post_ok he)"
    and srv: "srv_reach env (srv\<lparr>engine_server := deliver_posts (se_decode env) esid es\<rparr>)"
    "client (se_decode env) sid ns (srv\<lparr>engine_server := deliver_posts (se_decode env) esid es\<rparr>) = Some sk" "sk_nsp sk = ns"
    and session: "polling_session esid [] (engine_server (srv\<lparr>engine_server := deliver_posts (se_decode env) esid es\<rparr>))"
    "sockets (engine_server (srv\<lparr>engine_server := deliver_posts (se_decode env) esid es\<rparr>)) esid = Some s"
    "generator s = map Inr (engine_packets (env_to_string ?env) (build_packet_for_payload d (Some e) ns None False))"
    by blast
  have echo: "proper_payload ?d" "raw_binaries (payload_raws ?d) = []" "proper_event ?echo" "wf_str (string_from_event ?echo)"
    "payload_of_raws (payload_raws ?d) = ?d"
    by (simp_all add: proper_payload_def reserved_name_def lower_char_def scalar_def)
  have body: "call_body hs (EventCall e (Some (payload_of_raws (payload_raws d))) None) =
      [Ignore (DoJoin [str ''room 1'']), Ignore (DoEmitTo [str ''room 1''] ?echo ?d), Ignore (DoLeave [str ''room 1''])]"
    using assms(20) event_from_proper [OF echo(3)] by (simp add: srv_echo_callback_def callback_new_def payload_from_value_def)
  obtain srv' where srv': "server_turn env hs now \<lparr>sc_sid = sid, sc_nsp = ns\<rparr>
      (srv\<lparr>engine_server := deliver_posts (se_decode env) esid es\<rparr>) = Some srv'"
    "polling_session esid (event_messages ?env ns ?echo ?d) (engine_server srv')"
    using room_turn [OF assms(1) srv(1) assms(2) srv(2) assms(15) session assms(8,10-12,18) srv(3) assms(19,17) body] by auto
  have emit: "sio_emit ?env e d ck = (ck\<lparr>engine := (engine ck)\<lparr>wire_out := wire_out (engine ck) @ ws\<rparr>\<rparr>, Inr ())"
    using posted(1) assms(4,7) by (simp add: sio_emit_def with_engine_def raw_emit_def)
  from pending_event_polled [OF b64 assms(2,8,9) echo(1-4) srv'(2), of to_string net now, unfolded echo(5)] emit posted(2,3) srv'(1)
  show ?thesis by blast
qed

definition example_handlers :: "server_call callback \<Rightarrow> server_call handlers" where
  "example_handlers cb = \<lparr>on_event = [EvMessage \<mapsto> cb], on_ack = Map.empty\<rparr>"

lemma example_exchange:
  "se_env example_srv_env = example_env" "se_decode example_srv_env = rfc_decode"
  "serde_json (env_to_string (se_env example_srv_env)) (env_from_str (se_env example_srv_env))"
  "reliable (env_net (se_env example_srv_env))" "env_encode example_env = rfc_encode"
  "idle_session example_esid (engine_server example_run)" "sio_sid_decode (se_decode example_srv_env) example_sid = Some example_esid"
  "proper_payload (PJson JNull)" "proper_event EvMessage" "wf_str (string_from_event EvMessage)" "on_event (example_handlers cb) EvMessage = Some cb"
  "\<exists>sk. client (se_decode example_srv_env) example_sid (str ''/'') example_run = Some sk \<and> sk_connected sk \<and> \<not> ended sk \<and> EvMessage \<in> on sk"
proof -
  show env: "se_env example_srv_env = example_env" "se_decode example_srv_env = rfc_decode" "env_encode example_env = rfc_encode"
    by (simp_all add: example_srv_env_def example_env_def)
  show "serde_json (env_to_string (se_env example_srv_env)) (env_from_str (se_env example_srv_env))"
    "reliable (env_net (se_env example_srv_env))" "sio_sid_decode (se_decode example_srv_env) example_sid = Some example_esid"
    using example_env_laws example_sid_decode env by simp_all
  show "\<exists>sk. client (se_decode example_srv_env) example_sid (str ''/'') example_run = Some sk \<and> sk_connected sk \<and> \<not> ended sk \<and> EvMessage \<in> on sk"
    using example_run_facts(1) env by auto
qed (simp_all add: idle_session_def example_run_def example_server_def example_socket_def socket_new_def step_simps
    proper_payload_def scalar_def example_handlers_def)

lemma example_posts:
  "posts_understood (example_post_env example_url example_esid) (str ''h'') example_url example_esid example_post"
  "query example_url = []"
  "posts_fit example_post (sent_by (engine (example_sio {})) (engine (fst (sio_emit example_env EvMessage (PJson JNull) (example_sio {})))))"
  "posts_fit example_post (sent_by (engine (example_sio {})) (engine (fst (sio_emit_with_ack example_env now EvMessage (PJson JNull) timeout (example_sio {})))))"
  "posts_fit example_post (sent_by (engine (example_sio {})) (engine (fst (sio_emit_with_ack example_env now EvMessage
     (PMulti [RJson JNull, RBinary [1, 2]]) timeout (example_sio {})))))"
  "posts_fit example_post (sent_by (engine (example_sio {})) (engine (fst (sio_emit example_env EvMessage
     (PMulti [RJson JNull, RBinary [1, 2]]) (example_sio {})))))"
proof -
  show "posts_understood (example_post_env example_url example_esid) (str ''h'') example_url example_esid example_post"
    by (rule example_posts_understood)
  show "query example_url = []" by (simp add: example_url_def)
  have ck: "sk_connected (example_sio {})" "connected (engine (example_sio {}))" "transport (engine (example_sio {})) = ClientPolling"
    by simp_all
  note sent = sent_by_emissions [OF example_env_laws(3) ck]
  note defs = posts_fit_def posted_bodies_def posts_of_def engine_packets_def build_packet_eq example_post_def max_payload_def
    example_env_def event_docs_def bytes_from_sio_packet_def sio_packet_head_def has_attachment_count_def print_string_def
    escape_char_def binary_place_holder_def dec.simps codec_simps packet_new_def
    rfc_encode_def b64_char_def
  show "posts_fit example_post (sent_by (engine (example_sio {})) (engine (fst (sio_emit example_env EvMessage (PJson JNull) (example_sio {})))))"
    unfolding sent by (simp add: defs)
  show "posts_fit example_post (sent_by (engine (example_sio {})) (engine (fst (sio_emit_with_ack example_env now EvMessage (PJson JNull) timeout (example_sio {})))))"
    unfolding sent by (simp add: defs)
  show "posts_fit example_post (sent_by (engine (example_sio {})) (engine (fst (sio_emit_with_ack example_env now EvMessage
     (PMulti [RJson JNull, RBinary [1, 2]]) timeout (example_sio {})))))"
    unfolding sent by (simp add: defs)
  show "posts_fit example_post (sent_by (engine (example_sio {})) (engine (fst (sio_emit example_env EvMessage
     (PMulti [RJson JNull, RBinary [1, 2]]) (example_sio {})))))"
    unfolding sent by (simp add: defs)
qed

theorem echo_answered_witness:
  "\<exists>ws es srv' es' body.
    handle_posts (example_post_env example_url example_esid) 3 (str ''h'') example_post ws (engine_server example_run) =
      (es, replicate (length (posted_bodies ws)) (post_ok (example_post_env example_url example_esid))) \<and>
    server_turn example_srv_env (example_handlers srv_echo_callback) 3 \<lparr>sc_sid = example_sid, sc_nsp = str ''/''\<rparr>
      (example_run\<lparr>engine_server := deliver_posts rfc_decode example_esid es\<rparr>) = Some srv' \<and>
    polling_handle_request rfc_encode rfc_decode print_json (\<lambda>_ _. Inr 200) 3 (Some (Some (PollingGet example_esid)))
      (engine_server srv') = (es', HttpResponse 200 (Some body))"
proof -
  obtain sk where sk: "client (se_decode example_srv_env) example_sid (str ''/'') example_run = Some sk" "sk_connected sk"
    "\<not> ended sk" "EvMessage \<in> on sk"
    using example_exchange(12) by blast
  have ck: "sk_connected (example_sio {})" "connected (engine (example_sio {}))" "transport (engine (example_sio {})) = ClientPolling"
    "sk_nsp (example_sio {}) = str ''/''" "wf_nsp (str ''/'')" "0x1e \<notin> set (str ''/'')"
    by simp_all
  from echo_answered [OF example_lawful example_exchange(3,4) ck example_exchange(8,9,10) example_reach sk(1)
      example_exchange(7,6) sk(2-4) example_exchange(11) example_posts(1,2), unfolded example_exchange(1), OF example_posts(3),
      of 3 print_json "\<lambda>_ _. Inr 200"]
  show ?thesis unfolding example_exchange(2,5) by blast
qed

text \<open>
  C4: A client gets its acknowledgement from the server of the tests. On a network that
  accepts every output, a client on polling emits an event whose callback acknowledges, and
  waits for the acknowledgement, to a server in any state that a built server reaches in which
  the client's session is open and idle. When each of the posts, head and body together, is
  within the thousand bytes that the server reads, the server answers all of them with
  success; in the next turn of the client's polling task its
  callback acknowledges the id that came with the event; the client's next polling request is
  answered with a body, and the client that receives it within the time limit calls the
  callback of the acknowledgement once, with the payload of the server; the client then no
  longer waits for it, while it still waits for all others.
\<close>

theorem client_ack_answered:
  assumes "lawful env" and "serde_json (env_to_string (se_env env)) (env_from_str (se_env env))"
    and "reliable (env_net (se_env env))" and "sk_connected ck" and "connected (engine ck)"
    and "transport (engine ck) = ClientPolling" and "sk_nsp ck = ns" and "wf_nsp ns" and "0x1e \<notin> set ns"
    and "proper_payload d" and "proper_event e" and "wf_str (string_from_event e)"
    and "srv_reach env srv" and "client (se_decode env) sid ns srv = Some sk"
    and "sio_sid_decode (se_decode env) sid = Some esid" and "idle_session esid (engine_server srv)"
    and "sk_connected sk" and "\<not> ended sk" and "e \<in> on sk" and "on_event hs e = Some srv_client_ack"
    and "\<not> ended ck" and "ack_id_gen ck \<notin> ack_id ` set (outstanding_acks ck)" and "later - now < timeout"
    and "posts_understood he addr u esid request" and "query u = []"
    and "posts_fit request (sent_by (engine ck) (engine (fst (sio_emit_with_ack (se_env env) now e d timeout ck))))"
  shows "\<exists>ck' ws es rs srv' es' body ck'' q.
    sio_emit_with_ack (se_env env) now e d timeout ck = (ck', Inr ()) \<and> wire_out (engine ck') = wire_out (engine ck) @ ws \<and>
    handle_posts he now addr request ws (engine_server srv) = (es, rs) \<and>
    rs = replicate (length (posted_bodies ws)) (post_ok he) \<and>
    server_turn env hs now \<lparr>sc_sid = sid, sc_nsp = ns\<rparr> (srv\<lparr>engine_server := deliver_posts (se_decode env) esid es\<rparr>) = Some srv' \<and>
    polling_handle_request (env_encode (se_env env)) (se_decode env) to_string net now (Some (Some (PollingGet esid)))
      (engine_server srv') = (es', HttpResponse 200 (Some body)) \<and>
    sio_poll_packet (se_env env) later (ck'\<lparr>engine := (engine ck')\<lparr>generator :=
      socket_stream (se_decode env) (client_polling_stream [Inr [Inr (as_bytes body)]])\<rparr>\<rparr>) = (ck'', RawItem (Inr q)) \<and>
    outstanding_acks ck'' = outstanding_acks ck \<and>
    calls ck'' = calls ck @ [AckCall (ack_id_gen ck) (Some (PJson (JString (str ''ack to client''))))]"
proof -
  let ?env = "se_env env" and ?i = "ack_id_gen ck" and ?d = "PJson (JString (str ''ack to client''))"
  have b64: "base64 (env_encode ?env) (se_decode env)" using assms(1) by (simp add: lawful_def)
  have answer: "proper_payload ?d" "raw_binaries (payload_raws ?d) = []" "payload_of_raws (payload_raws ?d) = ?d"
    by (simp_all add: proper_payload_def scalar_def)
  have body: "call_body hs (EventCall e (Some (payload_of_raws (payload_raws d))) (Some ?i)) \<in>
      {[Expect (DoAck ?i ?d)], [Ignore (DoAck ?i ?d)]}"
    using assms(20) by (simp add: srv_client_ack_def callback_new_def payload_from_value_def)
  obtain ws es rs srv' where exchange: "sio_emit_with_ack ?env now e d timeout ck = (awaiting now timeout ws ck, Inr ())"
    "handle_posts he now addr request ws (engine_server srv) = (es, rs)"
    "rs = replicate (length (posted_bodies ws)) (post_ok he)"
    "server_turn env hs now \<lparr>sc_sid = sid, sc_nsp = ns\<rparr> (srv\<lparr>engine_server := deliver_posts (se_decode env) esid es\<rparr>) = Some srv'"
    "polling_session esid (map (bytes_from_packet (env_encode ?env))
      (engine_packets (env_to_string ?env) (build_packet_for_payload ?d None ns (Some ?i) True))) (engine_server srv')"
    by (rule ack_exchange [OF assms(1-19,24-26) body])
  let ?a = "\<lparr>ack_id = ?i, ack_timeout = timeout, time_started = now\<rparr>" and ?ck = "awaiting now timeout ws ck"
  have waiting: "\<not> ended ?ck" "sk_nsp ?ck = ns" "outstanding_acks ?ck = outstanding_acks ck @ ?a # []" "ack_id ?a = ?i"
    "?i \<notin> ack_id ` set (outstanding_acks ck)" "?i \<notin> ack_id ` set []" "later - time_started ?a < ack_timeout ?a"
    using assms(7,21-23) by simp_all
  from pending_ack_polled [OF b64 assms(2,8,9) answer(1,2) exchange(5) waiting, of to_string net now, unfolded answer(3)]
    exchange(1-4) show ?thesis by fastforce
qed

theorem client_ack_answered_witness:
  "\<exists>ck' ws es rs srv' es' body ck'' q.
    sio_emit_with_ack example_env 3 EvMessage (PJson JNull) 200 (example_sio {}) = (ck', Inr ()) \<and>
    handle_posts (example_post_env example_url example_esid) 3 (str ''h'') example_post ws (engine_server example_run) = (es, rs) \<and>
    server_turn example_srv_env (example_handlers srv_client_ack) 3 \<lparr>sc_sid = example_sid, sc_nsp = str ''/''\<rparr>
      (example_run\<lparr>engine_server := deliver_posts rfc_decode example_esid es\<rparr>) = Some srv' \<and>
    polling_handle_request rfc_encode rfc_decode print_json (\<lambda>_ _. Inr 200) 3 (Some (Some (PollingGet example_esid)))
      (engine_server srv') = (es', HttpResponse 200 (Some body)) \<and>
    sio_poll_packet example_env 100 (ck'\<lparr>engine := (engine ck')\<lparr>generator :=
      socket_stream rfc_decode (client_polling_stream [Inr [Inr (as_bytes body)]])\<rparr>\<rparr>) = (ck'', RawItem (Inr q)) \<and>
    calls ck'' = [AckCall 0 (Some (PJson (JString (str ''ack to client''))))]"
proof -
  obtain sk where sk: "client (se_decode example_srv_env) example_sid (str ''/'') example_run = Some sk" "sk_connected sk"
    "\<not> ended sk" "EvMessage \<in> on sk"
    using example_exchange(12) by blast
  let ?ck = "example_sio {}"
  have ck: "sk_connected ?ck" "connected (engine ?ck)" "transport (engine ?ck) = ClientPolling"
    "sk_nsp ?ck = str ''/''" "wf_nsp (str ''/'')" "0x1e \<notin> set (str ''/'')"
    by simp_all
  have fresh: "\<not> ended ?ck" "ack_id_gen ?ck \<notin> ack_id ` set (outstanding_acks ?ck)" "100 - 3 < (200 :: nat)"
    "ack_id_gen ?ck = 0" "calls ?ck = []"
    by (simp_all add: example_sio_def sio_socket_new_def)
  from client_ack_answered [OF example_lawful example_exchange(3,4) ck example_exchange(8,9,10) example_reach sk(1)
      example_exchange(7,6) sk(2-4) example_exchange(11) fresh(1-3) example_posts(1,2), unfolded example_exchange(1),
      OF example_posts(4), of print_json "\<lambda>_ _. Inr 200"]
  show ?thesis unfolding example_exchange(2,5) fresh(4,5) append_Nil by blast
qed

text \<open>
  Over polling the acknowledgement of the examples is lost. On a network that accepts every
  output, a client on polling emits an event whose callback is that of the example server,
  which acknowledges with the payload it has got, and the payload has a binary, as that of the
  example client has. When the posts are within the thousand bytes that the server reads, the
  server answers them with success and its callback acknowledges, but the client that receives the next
  polling response only gets an error of the engine: the callback of the acknowledgement is
  not called, it is still waited for, and the client's stream has ended.
\<close>

theorem example_ack_lost:
  assumes "lawful env" and "serde_json (env_to_string (se_env env)) (env_from_str (se_env env))"
    and "reliable (env_net (se_env env))" and "sk_connected ck" and "connected (engine ck)"
    and "transport (engine ck) = ClientPolling" and "sk_nsp ck = ns" and "wf_nsp ns" and "0x1e \<notin> set ns"
    and "proper_payload d" and "proper_event e" and "wf_str (string_from_event e)"
    and "srv_reach env srv" and "client (se_decode env) sid ns srv = Some sk"
    and "sio_sid_decode (se_decode env) sid = Some esid" and "idle_session esid (engine_server srv)"
    and "sk_connected sk" and "\<not> ended sk" and "e \<in> on sk" and "on_event hs e = Some ex_ack_callback"
    and "\<not> ended ck" and "raw_binaries (payload_raws d) \<noteq> []"
    and "posts_understood he addr u esid request" and "query u = []"
    and "posts_fit request (sent_by (engine ck) (engine (fst (sio_emit_with_ack (se_env env) now e d timeout ck))))"
  shows "\<exists>ck' ws es rs srv' es' body ck''.
    sio_emit_with_ack (se_env env) now e d timeout ck = (ck', Inr ()) \<and> wire_out (engine ck') = wire_out (engine ck) @ ws \<and>
    handle_posts he now addr request ws (engine_server srv) = (es, rs) \<and>
    rs = replicate (length (posted_bodies ws)) (post_ok he) \<and>
    server_turn env hs now \<lparr>sc_sid = sid, sc_nsp = ns\<rparr> (srv\<lparr>engine_server := deliver_posts (se_decode env) esid es\<rparr>) = Some srv' \<and>
    polling_handle_request (env_encode (se_env env)) (se_decode env) to_string net now (Some (Some (PollingGet esid)))
      (engine_server srv') = (es', HttpResponse 200 (Some body)) \<and>
    sio_poll_packet (se_env env) later (ck'\<lparr>engine := (engine ck')\<lparr>generator :=
      socket_stream (se_decode env) (client_polling_stream [Inr [Inr (as_bytes body)]])\<rparr>\<rparr>) =
      (ck'', RawItem (Inl (SIncompleteResponseFromEngineIo (InvalidPacketType 89)))) \<and>
    AckCall (ack_id_gen ck) p \<notin> set (drop (length (calls ck)) (calls ck'')) \<and>
    outstanding_acks ck'' = outstanding_acks ck @ [\<lparr>ack_id = ack_id_gen ck, ack_timeout = timeout, time_started = now\<rparr>] \<and>
    ended ck''"
proof -
  let ?env = "se_env env" and ?i = "ack_id_gen ck" and ?d = "payload_of_raws (payload_raws d)"
  have b64: "base64 (env_encode ?env) (se_decode env)" using assms(1) by (simp add: lawful_def)
  have answer: "proper_payload ?d" "raw_binaries (payload_raws ?d) \<noteq> []"
    using assms(10,22) unfolding proper_payload_def payload_raws_of_raws by simp_all
  have body: "call_body hs (EventCall e (Some ?d) (Some ?i)) \<in> {[Expect (DoAck ?i ?d)], [Ignore (DoAck ?i ?d)]}"
    using assms(20) by (simp add: ex_ack_callback_def callback_new_def)
  obtain ws es rs srv' where exchange: "sio_emit_with_ack ?env now e d timeout ck = (awaiting now timeout ws ck, Inr ())"
    "handle_posts he now addr request ws (engine_server srv) = (es, rs)"
    "rs = replicate (length (posted_bodies ws)) (post_ok he)"
    "server_turn env hs now \<lparr>sc_sid = sid, sc_nsp = ns\<rparr> (srv\<lparr>engine_server := deliver_posts (se_decode env) esid es\<rparr>) = Some srv'"
    "polling_session esid (map (bytes_from_packet (env_encode ?env))
      (engine_packets (env_to_string ?env) (build_packet_for_payload ?d None ns (Some ?i) True))) (engine_server srv')"
    by (rule ack_exchange [OF assms(1-19,23-25) body])
  from exchange(5) pending_binaries_refused [OF b64 assms(2,8,9) answer, of None "[]" esid "Some ?i" True "engine_server srv'" to_string net now]
  obtain es' body where get: "polling_handle_request (env_encode ?env) (se_decode env) to_string net now (Some (Some (PollingGet esid)))
      (engine_server srv') = (es', HttpResponse 200 (Some body))"
    "payload_try_from (se_decode env) (as_bytes body) = Inl (InvalidPacketType 89)"
    by auto
  let ?ck = "awaiting now timeout ws ck"
  let ?rk = "?ck\<lparr>engine := (engine ?ck)\<lparr>generator := socket_stream (se_decode env) (client_polling_stream [Inr [Inr (as_bytes body)]])\<rparr>\<rparr>"
  from refused_body_polled [OF get(2), of ?rk ?env later] assms(21) obtain ck'' where
    "sio_poll_packet ?env later ?rk = (ck'', RawItem (Inl (SIncompleteResponseFromEngineIo (InvalidPacketType 89))))"
    "AckCall ?i p \<notin> set (drop (length (calls ck)) (calls ck''))" "outstanding_acks ck'' = outstanding_acks ?rk" "ended ck''"
    by (auto split: if_splits)
  with exchange(1-4) get(1) show ?thesis by fastforce
qed

theorem example_ack_lost_witness:
  "\<exists>es srv' es' body ck' ck''.
    server_turn example_srv_env (example_handlers ex_ack_callback) 3 \<lparr>sc_sid = example_sid, sc_nsp = str ''/''\<rparr>
      (example_run\<lparr>engine_server := deliver_posts rfc_decode example_esid es\<rparr>) = Some srv' \<and>
    polling_handle_request rfc_encode rfc_decode print_json (\<lambda>_ _. Inr 200) 3 (Some (Some (PollingGet example_esid)))
      (engine_server srv') = (es', HttpResponse 200 (Some body)) \<and>
    sio_poll_packet example_env 100 (ck'\<lparr>engine := (engine ck')\<lparr>generator :=
      socket_stream rfc_decode (client_polling_stream [Inr [Inr (as_bytes body)]])\<rparr>\<rparr>) =
      (ck'', RawItem (Inl (SIncompleteResponseFromEngineIo (InvalidPacketType 89)))) \<and> ended ck''"
proof -
  obtain sk where sk: "client (se_decode example_srv_env) example_sid (str ''/'') example_run = Some sk" "sk_connected sk"
    "\<not> ended sk" "EvMessage \<in> on sk"
    using example_exchange(12) by blast
  let ?ck = "example_sio {}" and ?d = "PMulti [RJson JNull, RBinary [1, 2]]"
  have ck: "sk_connected ?ck" "connected (engine ?ck)" "transport (engine ?ck) = ClientPolling"
    "sk_nsp ?ck = str ''/''" "wf_nsp (str ''/'')" "0x1e \<notin> set (str ''/'')" "proper_payload ?d"
    by (simp_all add: proper_payload_def)
  have fresh: "\<not> ended ?ck" "raw_binaries (payload_raws ?d) \<noteq> []" by (simp_all add: example_sio_def sio_socket_new_def)
  from example_ack_lost [OF example_lawful example_exchange(3,4) ck example_exchange(9,10) example_reach sk(1)
      example_exchange(7,6) sk(2-4) example_exchange(11) fresh example_posts(1,2), unfolded example_exchange(1),
      OF example_posts(5) [of 3 200], of print_json "\<lambda>_ _. Inr 200" 100 None]
  show ?thesis unfolding example_exchange(2,5) by blast
qed

text \<open>
  C23: A client's program runs through. On a client that is connected over polling, through a
  network that accepts every output, every call of a program of emissions and acknowledgements that ends with disconnecting succeeds, so that none
  of its expectations panics, and its posts decode to exactly the packets of the calls in
  order, with consecutive ids for the acknowledgements they ask for, then the packet that
  leaves the namespace and the closing of the engine; the client is disconnected then.
\<close>

theorem client_program_posts:
  assumes "base64 (env_encode env) decode" and "serde_json (env_to_string env) (env_from_str env)" and "reliable (env_net env)"
    and "on_polling ns c" and "wf_nsp ns" and "0x1e \<notin> set ns" and "list_all proper_call cs" and "SocketDisconnect \<notin> set cs"
  shows "\<exists>c' ws. run_body (handle_exec env now) (map Expect (cs @ [SocketDisconnect])) c = Some c' \<and>
    \<not> cl_connected c' \<and> \<not> sk_connected (cl_socket c') \<and> \<not> connected (engine (cl_socket c')) \<and>
    wire_out (engine (cl_socket c')) = wire_out (engine (cl_socket c)) @ ws \<and>
    socket_stream decode (post_receive ws) = map Inr (concat (map (engine_packets (env_to_string env))
      (program_packets ns (ack_id_gen (cl_socket c)) cs @ [sio_packet_new Disconnect ns None None 0 None])) @ [packet_new Close []])"
proof -
  let ?i = "ack_id_gen (cl_socket c)"
  let ?ps = "concat (map (engine_packets (env_to_string env)) (program_packets ns ?i cs @ [sio_packet_new Disconnect ns None None 0 None])) @
    [packet_new Close []]"
  obtain c1 where c1: "\<And>rest. run_body (handle_exec env now) (map Expect cs @ rest) c = run_body (handle_exec env now) rest c1"
    "on_polling ns c1" "wire_out (engine (cl_socket c1)) = wire_out (engine (cl_socket c)) @
      posts_of env (concat (map (engine_packets (env_to_string env)) (program_packets ns ?i cs)))"
    using program_posts [OF assms(3,4,8)] by blast
  obtain c' where c': "handle_exec env now SocketDisconnect c1 = Some (c', Inr ())" "\<not> cl_connected c'"
    "\<not> sk_connected (cl_socket c')" "\<not> connected (engine (cl_socket c'))"
    "wire_out (engine (cl_socket c')) = wire_out (engine (cl_socket c1)) @
      posts_of env (engine_packets (env_to_string env) (sio_packet_new Disconnect ns None None 0 None) @ [packet_new Close []])"
    using disconnect_program_posts [OF assms(3) c1(2)] by blast
  have "list_all payload_packet (engine_packets (env_to_string env) p)" if "p \<in> set (program_packets ns ?i cs)" for p
    using program_packets_wf [OF assms(5-7) that] built_engine_packets [OF assms(2)] by blast
  moreover have "list_all payload_packet (engine_packets (env_to_string env) (sio_packet_new Disconnect ns None None 0 None))"
    using program_packets_wf [OF assms(5,6), of "[SocketDisconnect]"] built_engine_packets [OF assms(2)] by simp
  ultimately have "list_all payload_packet ?ps" by (auto simp: list_all_iff payload_packet_def)
  from base64.post_stream [OF assms(1) this] have "socket_stream decode (post_receive (posts_of env ?ps)) = map Inr ?ps"
    unfolding posts_of_def .
  moreover have "run_body (handle_exec env now) (map Expect (cs @ [SocketDisconnect])) c = Some c'" using c1(1) c'(1) by simp
  moreover have "wire_out (engine (cl_socket c')) = wire_out (engine (cl_socket c)) @ posts_of env ?ps" using c'(5) c1(3) by simp
  ultimately show ?thesis using c'(2-4) by blast
qed

theorem client_program_posts_witness:
  "let c = \<lparr>cl_builder = ex_client_builder,
      cl_socket = sio_socket_new ((example_socket ClientPolling)\<lparr>event_tx := None\<rparr>) False (cb_namespace ex_client_builder) (cb_on ex_client_builder),
      cl_connected = True, cl_backoff = ()\<rparr>
   in \<exists>c'. run_body (handle_exec example_env 3) ex_client_main c = Some c' \<and> \<not> cl_connected c'"
proof -
  define c where "c = \<lparr>cl_builder = ex_client_builder,
      cl_socket = sio_socket_new ((example_socket ClientPolling)\<lparr>event_tx := None\<rparr>) False (cb_namespace ex_client_builder) (cb_on ex_client_builder),
      cl_connected = True, cl_backoff = ()\<rparr>"
  define cs where "cs =
    [SocketEmit (EvCustom (str ''foo'')) (PJson (JObject [(str ''token'', JNumber (PosInt 123))])),
     SocketEmitWithAck (EvCustom (str ''ack''))
       (PMulti [RJson (JObject [(str ''myAckData'', JNumber (PosInt 123))]), RJson (JString (str ''4'')), RBinary (as_bytes (str ''binary''))]) 2000]"
  have "cb_namespace ex_client_builder = str ''/admin''"
    by (simp add: ex_client_builder_def cb_register_def cb_set_namespace_def)
  then have c: "on_polling (str ''/admin'') c" by (simp add: c_def on_polling_def sio_socket_new_def)
  have ns: "wf_nsp (str ''/admin'')" "0x1e \<notin> set (str ''/admin'')" by (simp_all add: wf_nsp_def scalar_def)
  have calls: "list_all proper_call cs" "SocketDisconnect \<notin> set cs" by (simp_all add: cs_def proper_payload_def scalar_def)
  have "event_from_string (str ''foo'') = EvCustom (str ''foo'')" "event_from_string (str ''ack'') = EvCustom (str ''ack'')"
    using event_from_proper [of "EvCustom (str ''foo'')"] event_from_proper [of "EvCustom (str ''ack'')"]
    by (simp_all add: reserved_name_def lower_char_def)
  then have "map Expect (cs @ [SocketDisconnect]) = ex_client_main"
    by (simp add: ex_client_main_def cs_def payload_from_value_def raw_from_value_def raw_from_bytes_def)
  with client_program_posts [OF example_env_laws c ns calls, of 3] show ?thesis unfolding Let_def c_def [symmetric] by auto
qed

end
