(* ===== verification/Tasks.thy ===== *)
theory Tasks
  imports Prelude
begin

text \<open>
  Concurrent tasks over shared state: what the tasks that the sources spawn can do when they
  are interrupted at the points where they wait. A task is a value that tells how far it has
  got; a function gives its next step on the shared state, or none when the task waits or
  has finished. A run interleaves the steps of a list of tasks in any way.
  Tasks that only take and give back locks are lists of actions; they run either on their own
  or on the threads of a runtime, some of whose locks block a thread and not only a task.
\<close>

section \<open>Interleavings\<close>

inductive interleave ::
  "(nat \<Rightarrow> 't \<Rightarrow> 's \<Rightarrow> ('t \<times> 's) option) \<Rightarrow> 't list \<times> 's \<Rightarrow> 't list \<times> 's \<Rightarrow> bool" for step where
  interleave_start: "interleave step c c"
| interleave_turn: "interleave step c (ts, s) \<Longrightarrow> i < length ts \<Longrightarrow> step i (ts ! i) s = Some (t', s') \<Longrightarrow>
    interleave step c (ts[i := t'], s')"

text \<open>The run of a given schedule, for evaluation: the numbers of the tasks that move.\<close>

fun schedule ::
  "(nat \<Rightarrow> 't \<Rightarrow> 's \<Rightarrow> ('t \<times> 's) option) \<Rightarrow> nat list \<Rightarrow> 't list \<times> 's \<Rightarrow> ('t list \<times> 's) option" where
  "schedule step [] c = Some c"
| "schedule step (i # turns) (ts, s) =
     (if i < length ts then
        (case step i (ts ! i) s of
           None \<Rightarrow> None
         | Some (t', s') \<Rightarrow> schedule step turns (ts[i := t'], s'))
      else None)"

lemma interleave_prepend:
  assumes "interleave step (ts[i := t'], s') c" and "i < length ts" and "step i (ts ! i) s = Some (t', s')"
  shows "interleave step (ts, s) c"
  using assms
proof (induction "(ts[i := t'], s')" c rule: interleave.induct)
  case interleave_start
  then show ?case by (rule interleave_turn [OF interleave.interleave_start])
next
  case (interleave_turn us r j u r')
  then show ?case by (blast intro: interleave.interleave_turn)
qed

lemma schedule_interleave: "schedule step turns c = Some c' \<Longrightarrow> interleave step c c'"
proof (induction turns arbitrary: c)
  case (Cons i turns)
  then show ?case
    by (cases c) (auto intro: interleave_prepend split: if_splits option.splits prod.splits)
qed (simp add: interleave_start)

lemma interleave_length: "interleave step c c' \<Longrightarrow> length (fst c') = length (fst c)"
  by (induction rule: interleave.induct) simp_all

section \<open>One task at a time\<close>

text \<open>Groups that run one after the other on a value, with their results.\<close>

fun serial :: "('g \<Rightarrow> 'v \<Rightarrow> 'v \<times> 'r) \<Rightarrow> 'g list \<Rightarrow> 'v \<Rightarrow> 'v \<times> 'r list" where
  "serial run [] v = (v, [])"
| "serial run (g # gs) v =
     (let (v, r) = run g v; (v, rs) = serial run gs v in (v, r # rs))"

lemma serial_snoc:
  "serial run gs v = (v', rs) \<Longrightarrow> run g v' = (v'', r) \<Longrightarrow> serial run (gs @ [g]) v = (v'', rs @ [r])"
  by (induction gs arbitrary: v rs) (auto split: prod.splits)

lemma serial_length: "serial run gs v = (v', rs) \<Longrightarrow> length rs = length gs"
  by (induction gs arbitrary: v rs) (auto split: prod.splits)

text \<open>
  The contract of tasks that work on a part of the shared state, its view, only while they
  hold a lock. A task before its critical section has a group of work to do; inside, \<open>rest\<close>
  is what is left to do and the result it will have; \<open>ended\<close> relates a task that is through
  to this result. Tasks that \<open>must\<close> have worked have been inside.
\<close>

locale serial_tasks =
  fixes step :: "nat \<Rightarrow> 't \<Rightarrow> 's \<Rightarrow> ('t \<times> 's) option" and holder :: "'s \<Rightarrow> nat option"
    and before :: "'t \<Rightarrow> bool" and holds :: "'t \<Rightarrow> bool" and must :: "'t \<Rightarrow> bool" and ended :: "'t \<Rightarrow> 'r \<Rightarrow> bool"
    and group :: "'t \<Rightarrow> 'g" and view :: "'s \<Rightarrow> 'v" and rest :: "'t \<Rightarrow> 'v \<Rightarrow> 'v \<times> 'r" and run :: "'g \<Rightarrow> 'v \<Rightarrow> 'v \<times> 'r"
    and task_ok :: "'t \<Rightarrow> bool" and state_ok :: "'s \<Rightarrow> bool"
  assumes kept: "step i t s = Some (t', s') \<Longrightarrow> task_ok t \<Longrightarrow> state_ok s \<Longrightarrow> task_ok t' \<and> state_ok s'"
    and outside: "step i t s = Some (t', s') \<Longrightarrow> task_ok t \<Longrightarrow> state_ok s \<Longrightarrow> \<not> holds t \<Longrightarrow> \<not> holds t' \<Longrightarrow>
      holder s' = holder s \<and> view s' = view s \<and> (before t' \<longrightarrow> before t \<and> group t' = group t) \<and>
      (must t' \<longrightarrow> must t) \<and> (ended t r \<longrightarrow> ended t' r)"
    and enter: "step i t s = Some (t', s') \<Longrightarrow> task_ok t \<Longrightarrow> state_ok s \<Longrightarrow> \<not> holds t \<Longrightarrow> holds t' \<Longrightarrow>
      holder s = None \<and> holder s' = Some i \<and> before t \<and> \<not> before t' \<and> view s' = view s \<and>
      rest t' (view s) = run (group t) (view s)"
    and inside: "step i t s = Some (t', s') \<Longrightarrow> task_ok t \<Longrightarrow> state_ok s \<Longrightarrow> holds t \<Longrightarrow> holds t' \<Longrightarrow>
      holder s' = holder s \<and> \<not> before t' \<and> rest t' (view s') = rest t (view s)"
    and leave: "step i t s = Some (t', s') \<Longrightarrow> task_ok t \<Longrightarrow> state_ok s \<Longrightarrow> holds t \<Longrightarrow> \<not> holds t' \<Longrightarrow>
      holder s' = None \<and> \<not> before t' \<and> (\<exists>r. rest t (view s) = (view s', r) \<and> ended t' r)"
begin

text \<open>
  The invariant for an order in which tasks have entered: the tasks before their critical
  section are not in it, and running the groups of the tasks in it one after the other gives
  the view, once the task inside is through.
\<close>

definition serial_inv :: "'t list \<times> 's \<Rightarrow> nat list \<Rightarrow> 't list \<times> 's \<Rightarrow> bool" where
  "serial_inv c0 order c \<longleftrightarrow>
     (case (c0, c) of ((ts0, s0), (ts, s)) \<Rightarrow>
        length ts = length ts0 \<and> list_all task_ok ts \<and> state_ok s \<and>
        distinct order \<and> set order \<subseteq> {..<length ts} \<and>
        (\<forall>i<length ts. holds (ts ! i) \<longleftrightarrow> holder s = Some i) \<and>
        (\<forall>i<length ts. before (ts ! i) \<longrightarrow> i \<notin> set order \<and> group (ts ! i) = group (ts0 ! i)) \<and>
        (\<forall>i<length ts. must (ts ! i) \<longrightarrow> i \<in> set order) \<and>
        (case holder s of
           None \<Rightarrow> \<exists>rs. serial run (map (\<lambda>i. group (ts0 ! i)) order) (view s0) = (view s, rs) \<and>
             list_all2 (\<lambda>i. ended (ts ! i)) order rs
         | Some h \<Rightarrow> h < length ts \<and>
             (\<exists>order' v r rs. order = order' @ [h] \<and> rest (ts ! h) (view s) = (v, r) \<and>
               serial run (map (\<lambda>i. group (ts0 ! i)) order) (view s0) = (v, rs @ [r]) \<and>
               list_all2 (\<lambda>i. ended (ts ! i)) order' rs)))"

text \<open>The facts of the invariant that do not mention who is inside.\<close>

lemma serial_invD:
  assumes "serial_inv (ts0, s0) order (ts, s)"
  shows "length ts = length ts0" and "list_all task_ok ts" and "state_ok s"
    and "distinct order" and "set order \<subseteq> {..<length ts}"
    and "i < length ts \<Longrightarrow> holds (ts ! i) \<longleftrightarrow> holder s = Some i"
    and "i < length ts \<Longrightarrow> before (ts ! i) \<Longrightarrow> i \<notin> set order \<and> group (ts ! i) = group (ts0 ! i)"
    and "i < length ts \<Longrightarrow> must (ts ! i) \<Longrightarrow> i \<in> set order"
  using assms by (auto simp: serial_inv_def)

lemma ended_update:
  assumes "list_all2 (\<lambda>j. ended (ts ! j)) order rs" and "i < length ts"
    and "i \<notin> set order \<or> (\<forall>r. ended (ts ! i) r \<longrightarrow> ended t' r)"
  shows "list_all2 (\<lambda>j. ended (ts[i := t'] ! j)) order rs"
  using assms by (induction order rs rule: list_all2_induct) (auto simp: nth_list_update)

lemma task_ok_update: "list_all task_ok ts \<Longrightarrow> task_ok t' \<Longrightarrow> list_all task_ok (ts[i := t'])"
  by (auto simp: list_all_iff dest: set_update_subset_insert [THEN subsetD])

lemma serial_step:
  assumes inv: "serial_inv (ts0, s0) order (ts, s)" and i: "i < length ts" and step: "step i (ts ! i) s = Some (t', s')"
  shows "\<exists>order'. serial_inv (ts0, s0) order' (ts[i := t'], s')"
proof -
  note d = serial_invD [OF inv]
  have ok: "task_ok (ts ! i)" using d(2) i by (simp add: list_all_length)
  have ok': "list_all task_ok (ts[i := t'])" "state_ok s'" using kept [OF step ok d(3)] d(2) task_ok_update by auto
  show ?thesis
  proof (cases "holds (ts ! i)"; cases "holds t'")
    assume h: "\<not> holds (ts ! i)" "\<not> holds t'"
    note o = outside [OF step ok d(3) h]
    have same: "holder s' = holder s" "view s' = view s" "\<And>r. ended (ts ! i) r \<Longrightarrow> ended t' r"
      using outside [OF step ok d(3) h] by auto
    have "rest (ts[i := t'] ! k) = rest (ts ! k)" if "holder s = Some k" for k
      using that h(1) d(6) [OF i] by auto
    moreover have "list_all2 (\<lambda>j. ended (ts[i := t'] ! j)) order' rs"
      if "list_all2 (\<lambda>j. ended (ts ! j)) order' rs" for order' rs
      using that i same(3) by (intro ended_update) auto
    ultimately have "serial_inv (ts0, s0) order (ts[i := t'], s')"
      using inv i h o ok' d same unfolding serial_inv_def
      by (cases "holder s") (simp_all add: nth_list_update, blast+)
    then show ?thesis ..
  next
    assume h: "\<not> holds (ts ! i)" "holds t'"
    note e = enter [OF step ok d(3) h]
    obtain v r where v: "run (group (ts0 ! i)) (view s) = (v, r)" by fastforce
    from inv e obtain rs where rs: "serial run (map (\<lambda>i. group (ts0 ! i)) order) (view s0) = (view s, rs)"
      "list_all2 (\<lambda>i. ended (ts ! i)) order rs" by (auto simp: serial_inv_def)
    have new: "i \<notin> set order" "group (ts ! i) = group (ts0 ! i)" using d(7) [OF i] e by auto
    have "serial run (map (\<lambda>i. group (ts0 ! i)) (order @ [i])) (view s0) = (v, rs @ [r])"
      using serial_snoc [OF rs(1) v] by simp
    moreover have "rest t' (view s') = (v, r)" using e v new by simp
    moreover have "list_all2 (\<lambda>j. ended (ts[i := t'] ! j)) order rs" using rs(2) new i by (intro ended_update) auto
    ultimately have "serial_inv (ts0, s0) (order @ [i]) (ts[i := t'], s')"
      using i h e ok' d new unfolding serial_inv_def by (auto simp: nth_list_update)
    then show ?thesis ..
  next
    assume h: "holds (ts ! i)" "holds t'"
    note n = inside [OF step ok d(3) h]
    from h(1) d(6) [OF i] have "holder s = Some i" by simp
    with inv obtain order' v r rs where x: "order = order' @ [i]" "rest (ts ! i) (view s) = (v, r)"
      "serial run (map (\<lambda>i. group (ts0 ! i)) order) (view s0) = (v, rs @ [r])"
      "list_all2 (\<lambda>i. ended (ts ! i)) order' rs" by (auto simp: serial_inv_def)
    have "list_all2 (\<lambda>j. ended (ts[i := t'] ! j)) order' rs" using x d(4) i by (intro ended_update) auto
    then have "serial_inv (ts0, s0) order (ts[i := t'], s')"
      using i h n ok' d x \<open>holder s = Some i\<close> unfolding serial_inv_def by (auto simp: nth_list_update)
    then show ?thesis ..
  next
    assume h: "holds (ts ! i)" "\<not> holds t'"
    note l = leave [OF step ok d(3) h]
    from h(1) d(6) [OF i] have "holder s = Some i" by simp
    with inv obtain order' v r rs where x: "order = order' @ [i]" "rest (ts ! i) (view s) = (v, r)"
      "serial run (map (\<lambda>i. group (ts0 ! i)) order) (view s0) = (v, rs @ [r])"
      "list_all2 (\<lambda>i. ended (ts ! i)) order' rs" by (auto simp: serial_inv_def)
    have "list_all2 (\<lambda>j. ended (ts[i := t'] ! j)) order' rs" using x d(4) i by (intro ended_update) auto
    then have "list_all2 (\<lambda>j. ended (ts[i := t'] ! j)) order (rs @ [r])" "v = view s'"
      using l x i by (auto intro: list_all2_appendI)
    moreover have "holds (ts ! j) \<longleftrightarrow> j = i" if "j < length ts" for j using d(6) [OF that] \<open>holder s = Some i\<close> by auto
    ultimately have "serial_inv (ts0, s0) order (ts[i := t'], s')"
      using i h l ok' d x \<open>holder s = Some i\<close> unfolding serial_inv_def by (auto simp: nth_list_update) metis
    then show ?thesis ..
  qed
qed

text \<open>While nobody is inside, the view is that of the groups run one after the other.\<close>

lemma serialised:
  assumes "interleave step (ts0, s0) (ts, s)" and "list_all task_ok ts0" and "state_ok s0" and "holder s0 = None"
    and "\<forall>t\<in>set ts0. \<not> holds t \<and> \<not> must t" and "holder s = None"
  shows "\<exists>order rs. distinct order \<and> set order \<subseteq> {..<length ts} \<and> (\<forall>i<length ts. must (ts ! i) \<longrightarrow> i \<in> set order) \<and>
    serial run (map (\<lambda>i. group (ts0 ! i)) order) (view s0) = (view s, rs) \<and> list_all2 (\<lambda>i. ended (ts ! i)) order rs"
proof -
  have "\<exists>order. serial_inv (ts0, s0) order (ts, s)"
    using assms(1)
  proof (induction "(ts0, s0)" "(ts, s)" arbitrary: ts s rule: interleave.induct)
    case interleave_start
    have "serial_inv (ts0, s0) [] (ts0, s0)" using assms(2-5) by (auto simp: serial_inv_def)
    then show ?case ..
  next
    case (interleave_turn ts s i t' s')
    then show ?case using serial_step by blast
  qed
  then obtain order where "serial_inv (ts0, s0) order (ts, s)" ..
  with assms(6) show ?thesis by (intro exI [of _ order]) (auto simp: serial_inv_def)
qed

end

section \<open>Tasks with locks\<close>

text \<open>
  Tasks as the lists of their actions on locks that are not reentrant: a task waits for a
  lock that is held, even by itself, and gives back only what it holds.
\<close>

datatype 'l action = Acquire 'l | Release 'l | Work

fun lock_step :: "nat \<Rightarrow> 'l action list \<Rightarrow> ('l \<Rightarrow> nat option) \<Rightarrow> ('l action list \<times> ('l \<Rightarrow> nat option)) option" where
  "lock_step i [] h = None"
| "lock_step i (Acquire l # acts) h = (if h l = None then Some (acts, h(l := Some i)) else None)"
| "lock_step i (Release l # acts) h = (if h l = Some i then Some (acts, h(l := None)) else None)"
| "lock_step i (Work # acts) h = Some (acts, h)"

text \<open>
  A task that holds some locks takes others only in the order of their ranks, gives back what
  it holds, and holds nothing at its end.
\<close>

fun well_ordered :: "('l \<Rightarrow> nat) \<Rightarrow> 'l list \<Rightarrow> 'l action list \<Rightarrow> bool" where
  "well_ordered rank held [] \<longleftrightarrow> held = []"
| "well_ordered rank held (Acquire l # acts) \<longleftrightarrow> (\<forall>k\<in>set held. rank k < rank l) \<and> well_ordered rank (l # held) acts"
| "well_ordered rank held (Release l # acts) \<longleftrightarrow> l \<in> set held \<and> well_ordered rank (remove1 l held) acts"
| "well_ordered rank held (Work # acts) \<longleftrightarrow> well_ordered rank held acts"

text \<open>Who holds what fits the tasks.\<close>

definition lock_inv :: "('l \<Rightarrow> nat) \<Rightarrow> (nat \<Rightarrow> 'l list) \<Rightarrow> 'l action list list \<Rightarrow> ('l \<Rightarrow> nat option) \<Rightarrow> bool" where
  "lock_inv rank held ts h \<longleftrightarrow>
     (\<forall>i<length ts. well_ordered rank (held i) (ts ! i) \<and> distinct (held i)) \<and>
     (\<forall>l i. h l = Some i \<longleftrightarrow> i < length ts \<and> l \<in> set (held i))"

lemma lock_inv_step:
  assumes "lock_inv rank held ts h" and "i < length ts" and "lock_step i (ts ! i) h = Some (t', h')"
  shows "\<exists>held'. lock_inv rank held' (ts[i := t']) h'"
proof (cases "ts ! i")
  case (Cons a acts)
  have i: "well_ordered rank (held i) (a # acts)" "distinct (held i)" using assms(1,2) Cons by (auto simp: lock_inv_def)
  show ?thesis
  proof (cases a)
    case (Acquire l)
    with assms(3) Cons have "h l = None" "t' = acts" "h' = h(l := Some i)" by (auto split: if_splits)
    moreover from this(1) assms(1,2) have "\<forall>j<length ts. l \<notin> set (held j)" by (auto simp: lock_inv_def) (metis option.distinct(1))
    ultimately have "lock_inv rank (held(i := l # held i)) (ts[i := t']) h'"
      using assms(1,2) i Acquire by (auto simp: lock_inv_def nth_list_update)
    then show ?thesis by blast
  next
    case (Release l)
    with assms(3) Cons have "h l = Some i" "t' = acts" "h' = h(l := None)" by (auto split: if_splits)
    moreover have "set (remove1 l (held i)) = set (held i) - {l}" using i(2) by simp
    moreover have "l \<notin> set (held j)" if "j \<noteq> i" "j < length ts" for j
      using that assms(1) \<open>h l = Some i\<close> by (metis lock_inv_def option.inject)
    ultimately have "lock_inv rank (held(i := remove1 l (held i))) (ts[i := t']) h'"
      using assms(1,2) i Release unfolding lock_inv_def by (auto simp: nth_list_update)
    then show ?thesis by blast
  next
    case Work
    with assms(3) Cons have "t' = acts" "h' = h" by auto
    then have "lock_inv rank held (ts[i := t']) h'" using assms(1,2) i Work by (auto simp: lock_inv_def nth_list_update)
    then show ?thesis by blast
  qed
qed (use assms(3) in simp)

lemma lock_inv_reach:
  assumes "interleave lock_step (ts0, \<lambda>l. None) (ts, h)" and "list_all (well_ordered rank []) ts0"
  shows "\<exists>held. lock_inv rank held ts h"
  using assms(1)
proof (induction "(ts0, \<lambda>l :: 'a. None :: nat option)" "(ts, h)" arbitrary: ts h rule: interleave.induct)
  case interleave_start
  have "lock_inv rank (\<lambda>i. []) ts0 (\<lambda>l. None)" using assms(2) by (auto simp: lock_inv_def list_all_length)
  then show ?case by blast
next
  case (interleave_turn ts h i t' h')
  then show ?case using lock_inv_step by blast
qed

text \<open>
  No deadlock: among the tasks that wait, one that waits for a lock of the highest rank waits
  for a task that can go on.
\<close>

lemma lock_progress:
  assumes "lock_inv rank held ts h" and "\<exists>t\<in>set ts. t \<noteq> []"
  shows "\<exists>i<length ts. lock_step i (ts ! i) h \<noteq> None"
proof (rule ccontr)
  assume stuck: "\<not> ?thesis"
  have waits: "\<exists>l acts. ts ! i = Acquire l # acts \<and> h l \<noteq> None" if i: "i < length ts" "ts ! i \<noteq> []" for i
  proof -
    from i(2) obtain a acts where a: "ts ! i = a # acts" by (cases "ts ! i") auto
    have "well_ordered rank (held i) (ts ! i)" using assms(1) i(1) by (simp add: lock_inv_def)
    then have "h l = Some i" if "a = Release l" for l using that a assms(1) i(1) by (simp add: lock_inv_def)
    with stuck i(1) a show ?thesis by (cases a) (auto split: if_splits)
  qed
  define W where "W = {rank l | i l acts. i < length ts \<and> ts ! i = Acquire l # acts}"
  have "W \<subseteq> (\<lambda>i. case ts ! i of Acquire l # acts \<Rightarrow> rank l | _ \<Rightarrow> 0) ` {..<length ts}" by (force simp: W_def)
  then have fin: "finite W" by (rule finite_subset) simp
  from assms(2) obtain i0 where "i0 < length ts" "ts ! i0 \<noteq> []" by (auto simp: in_set_conv_nth)
  with waits [of i0] have "W \<noteq> {}" by (auto simp: W_def)
  with fin have "Max W \<in> W" by (rule Max_in)
  then obtain i l acts where i: "i < length ts" "ts ! i = Acquire l # acts" "rank l = Max W" by (auto simp: W_def)
  with waits [of i] obtain j where j: "h l = Some j" by auto
  with assms(1) have held: "j < length ts" "l \<in> set (held j)" "well_ordered rank (held j) (ts ! j)" by (auto simp: lock_inv_def)
  from held(2,3) have "ts ! j \<noteq> []" by (cases "ts ! j") auto
  with waits held(1) obtain k acts' where k: "ts ! j = Acquire k # acts'" by blast
  with held(2,3) have "rank l < rank k" by simp
  moreover have "rank k \<in> W" using held(1) k by (auto simp: W_def)
  ultimately show False using i(3) fin by (metis Max_ge not_less)
qed

text \<open>Every step is one action, so that a run is no longer than its actions are many.\<close>

definition actions_left :: "'l action list list \<Rightarrow> nat" where
  "actions_left ts = sum_list (map length ts)"

lemma lock_step_left:
  assumes "i < length ts" and "lock_step i (ts ! i) h = Some (t', h')"
  shows "Suc (actions_left (ts[i := t'])) = actions_left ts"
proof -
  have "length (ts ! i) = Suc (length t')"
    using assms(2) by (cases "(i, ts ! i, h)" rule: lock_step.cases) (auto split: if_splits)
  moreover have "ts = take i ts @ ts ! i # drop (Suc i) ts" using assms(1) by (rule id_take_nth_drop)
  then have "actions_left ts = sum_list (map length (take i ts)) + length (ts ! i) + sum_list (map length (drop (Suc i) ts))"
    unfolding actions_left_def by (metis add.assoc list.simps(9) map_append sum_list.Cons sum_list_append)
  ultimately show ?thesis using assms(1) by (simp add: actions_left_def upd_conv_take_nth_drop)
qed

lemma lock_run_left:
  "schedule lock_step turns (ts, h) = Some (ts', h') \<Longrightarrow> length turns + actions_left ts' = actions_left ts"
proof (induction turns arbitrary: ts h)
  case (Cons i turns)
  then show ?case using lock_step_left [of i ts h] by (fastforce split: if_splits option.splits prod.splits)
qed simp

text \<open>
  A task that takes a lock again before it has given it back never comes to its end,
  whatever the others do.
\<close>

lemma self_lock_stuck:
  assumes "interleave lock_step (ts0, h0) (ts, h)" and "k < length ts0"
    and "ts0 ! k = pre @ Acquire l # mid @ Acquire l # post" and "Release l \<notin> set mid"
  shows "\<exists>n\<le>length pre + Suc (length mid). ts ! k = drop n (ts0 ! k) \<and> (length pre < n \<longrightarrow> h l = Some k)"
  using assms(1)
proof (induction "(ts0, h0)" "(ts, h)" arbitrary: ts h rule: interleave.induct)
  case interleave_start
  then show ?case by (intro exI [of _ 0]) simp
next
  case (interleave_turn ts h i t' h')
  then obtain n where n: "n \<le> length pre + Suc (length mid)" "ts ! k = drop n (ts0 ! k)" "length pre < n \<longrightarrow> h l = Some k" by blast
  have len: "length ts = length ts0" using interleave_length [OF interleave_turn.hyps(1)] by simp
  show ?case
  proof (cases "i = k")
    case False
    have "h' l = Some k" if "h l = Some k"
      using that False interleave_turn.hyps(4) by (cases "(i, ts ! i, h)" rule: lock_step.cases) (auto split: if_splits)
    with n False show ?thesis by (intro exI [of _ n]) auto
  next
    case True
    let ?acts = "ts0 ! k"
    have "n < length ?acts" using n(1) assms(3) by simp
    then have d: "drop n ?acts = ?acts ! n # drop (Suc n) ?acts" by (rule Cons_nth_drop_Suc [symmetric])
    have last: "n \<noteq> length pre + Suc (length mid)"
    proof
      assume eq: "n = length pre + Suc (length mid)"
      then have "?acts ! n = Acquire l" using assms(3) by (simp add: nth_append)
      with d n eq interleave_turn.hyps(4) True show False by simp
    qed
    have t': "t' = drop (Suc n) ?acts"
      using interleave_turn.hyps(4) True n(2) d by (cases "?acts ! n") (auto split: if_splits)
    have "h' l = Some k" if "length pre < Suc n"
    proof (cases "length pre < n")
      case True
      then have "?acts ! n \<in> set mid" using n(1) last assms(3) by (auto simp: nth_append nth_Cons')
      with assms(4) have "?acts ! n \<noteq> Release l" by auto
      with True n interleave_turn.hyps(4) \<open>i = k\<close> d show ?thesis by (cases "?acts ! n") (auto split: if_splits)
    next
      case False
      with that have "n = length pre" by simp
      with assms(3) have "?acts ! n = Acquire l" by simp
      with n interleave_turn.hyps(4) \<open>i = k\<close> d show ?thesis by (auto split: if_splits)
    qed
    with n(1) last t' True interleave_turn.hyps(3) show ?thesis by (intro exI [of _ "Suc n"]) auto
  qed
qed

section \<open>Tasks on threads\<close>

text \<open>
  The threads of a runtime, each of which runs one task at a time. A thread takes up a task
  that no thread runs, carries out its actions, and puts it aside when it has finished, at
  work that awaits something, and when it has to wait for a lock; but some locks block the
  thread itself: then the task stays on its thread.
\<close>

type_synonym 'l threads = "'l action list list \<times> ('l \<Rightarrow> nat option) \<times> nat option list"

fun may_yield :: "('l \<Rightarrow> bool) \<Rightarrow> 'l action list \<Rightarrow> ('l \<Rightarrow> nat option) \<Rightarrow> bool" where
  "may_yield blocking [] h = True"
| "may_yield blocking (Work # acts) h = True"
| "may_yield blocking (Acquire l # acts) h = (\<not> blocking l \<and> h l \<noteq> None)"
| "may_yield blocking (Release l # acts) h = False"

inductive thread_step :: "('l \<Rightarrow> bool) \<Rightarrow> 'l threads \<Rightarrow> 'l threads \<Rightarrow> bool" for blocking where
  thread_take: "w < length ws \<Longrightarrow> ws ! w = None \<Longrightarrow> i < length ts \<Longrightarrow> Some i \<notin> set ws \<Longrightarrow>
    thread_step blocking (ts, h, ws) (ts, h, ws[w := Some i])"
| thread_act: "w < length ws \<Longrightarrow> ws ! w = Some i \<Longrightarrow> i < length ts \<Longrightarrow> lock_step i (ts ! i) h = Some (t', h') \<Longrightarrow>
    thread_step blocking (ts, h, ws) (ts[i := t'], h', ws)"
| thread_yield: "w < length ws \<Longrightarrow> ws ! w = Some i \<Longrightarrow> i < length ts \<Longrightarrow> may_yield blocking (ts ! i) h \<Longrightarrow>
    thread_step blocking (ts, h, ws) (ts, h, ws[w := None])"

abbreviation thread_run :: "('l \<Rightarrow> bool) \<Rightarrow> 'l threads \<Rightarrow> 'l threads \<Rightarrow> bool" where
  "thread_run blocking \<equiv> (thread_step blocking)\<^sup>*\<^sup>*"

inductive_cases thread_step_cases: "thread_step blocking (ts, h, ws) c"

text \<open>When every thread is blocked, nothing happens any more.\<close>

lemma threads_blocked:
  assumes "\<forall>w<length ws. \<exists>i l acts. ws ! w = Some i \<and> i < length ts \<and> ts ! i = Acquire l # acts \<and> blocking l \<and> h l \<noteq> None"
  shows "\<not> thread_step blocking (ts, h, ws) c"
proof
  assume "thread_step blocking (ts, h, ws) c"
  then show False
    by (rule thread_step_cases) (use assms in \<open>fastforce split: if_splits\<close>)+
qed

text \<open>A thread carries out the first actions of a task that finds its locks free, and puts it aside.\<close>

lemma thread_acts:
  assumes "schedule lock_step (replicate k i) (ts, h) = Some (ts', h')" and "w < length ws" and "ws ! w = Some i"
  shows "thread_run blocking (ts, h, ws) (ts', h', ws)"
  using assms(1)
proof (induction k arbitrary: ts h)
  case (Suc k)
  then obtain t1 h1 where step: "i < length ts" "lock_step i (ts ! i) h = Some (t1, h1)"
    "schedule lock_step (replicate k i) (ts[i := t1], h1) = Some (ts', h')"
    by (auto split: if_splits option.splits prod.splits)
  from thread_act [OF assms(2,3) step(1,2), of blocking] Suc.IH [OF step(3)] show ?case by (rule converse_rtranclp_into_rtranclp)
qed simp

text \<open>Idle threads take up one task after the other.\<close>

lemma threads_take:
  assumes "n < length ts"
  shows "thread_run blocking (ts, h, replicate n None) (ts, h, map (\<lambda>w. Some (Suc w)) [0..<n])"
proof -
  have "thread_run blocking (ts, h, replicate n None) (ts, h, map (\<lambda>w. Some (Suc w)) [0..<m] @ replicate (n - m) None)"
    if "m \<le> n" for m
    using that
  proof (induction m)
    case (Suc m)
    let ?ws = "map (\<lambda>w. Some (Suc w)) [0..<m] @ replicate (n - m) None"
    have rep: "replicate (n - m) None = None # replicate (n - Suc m) None" using Suc.prems by (metis Suc_diff_Suc Suc_le_lessD replicate_Suc)
    have "thread_step blocking (ts, h, ?ws) (ts, h, ?ws[m := Some (Suc m)])"
      by (rule thread_take) (use Suc.prems assms in \<open>auto simp: nth_append\<close>)
    moreover have "?ws[m := Some (Suc m)] = map (\<lambda>w. Some (Suc w)) [0..<Suc m] @ replicate (n - Suc m) None"
      unfolding rep by (simp add: list_update_append)
    ultimately show ?case using Suc by (metis Suc_leD rtranclp.rtrancl_into_rtrancl)
  qed simp
  from this [of n] show ?thesis by simp
qed

end
