(* ===== verification/Sio_Locks.thy ===== *)
theory Sio_Locks
  imports Sio_Socket Tasks
begin

text \<open>
  The locks of a Socket.IO socket (\<open>socketio/src/socket.rs\<close>, with those of the engine socket
  in \<open>engineio/src/socket/socket.rs\<close>): which locks the calls on a socket, its callbacks and its
  polling task take and give back, in which order, and when they or the threads they run on
  can get stuck. The actions of a task are a list; what happens between them is left out. A
  task waits for a lock that somebody holds, also when it is the task itself: none of the locks
  is reentrant. What the user's callbacks do is a list of calls on the socket.
\<close>

section \<open>Locks and actions\<close>

text \<open>
  The shards of the table of callbacks, the streams of the two sockets, the acknowledgements
  that are waited for, and the transport.
\<close>

datatype lock =
    OnShard nat
  | RawGenerator
  | EngineGenerator
  | OutstandingAcks
  | TransportLock

text \<open>
  The calls on a socket that user code may make. Emitting and acknowledging hand one group of
  packets to the transport, which may take as long as the transport takes, without limit on a
  full polling queue; disconnecting sends the disconnect packet and then the close
  packet of the engine; emitting with an acknowledgement first files it.
\<close>

datatype api_call = CallEmit | CallAck | CallEmitWithAck | CallDisconnect | CallOther

definition send_actions :: "lock action list" where
  "send_actions = [Acquire TransportLock, Work, Release TransportLock]"

fun call_actions :: "api_call \<Rightarrow> lock action list" where
  "call_actions CallEmit = send_actions"
| "call_actions CallAck = send_actions"
| "call_actions CallEmitWithAck = [Acquire OutstandingAcks, Work, Release OutstandingAcks] @ send_actions"
| "call_actions CallDisconnect = send_actions @ send_actions"
| "call_actions CallOther = [Work]"

definition body_actions :: "api_call list \<Rightarrow> lock action list" where
  "body_actions body = concat (map call_actions body)"

text \<open>
  The task of a callback: the entry of the table is held while the callback runs. Its guard
  is not a lock of the runtime: who waits for it blocks the thread (section on threads below).
\<close>

definition callback_actions :: "nat \<Rightarrow> api_call list \<Rightarrow> lock action list" where
  "callback_actions shard body = [Acquire (OnShard shard)] @ body_actions body @ [Release (OnShard shard)]"

text \<open>
  Reading a packet: the stream of the raw socket is held while the engine socket is polled
  for the packet and its attachments; each of these polls holds the stream of the engine
  socket while it handles what it has received, and a ping is answered there. The actions are
  those of a ping that is answered; when the transport is held the poll does not wait for it
  but drops the ping (\<open>shared_poll_next\<close> of \<open>Engine_Tasks\<close>), which is a read without a pong.
\<close>

definition engine_poll_actions :: "bool \<Rightarrow> lock action list" where
  "engine_poll_actions pong =
     [Acquire EngineGenerator] @ (if pong then send_actions else []) @ [Release EngineGenerator]"

definition read_actions :: "bool list \<Rightarrow> lock action list" where
  "read_actions pongs =
     [Acquire RawGenerator] @ concat (map engine_poll_actions pongs) @ [Release RawGenerator]"

text \<open>
  Handling an acknowledgement: the callbacks of the matching ones run while all are held;
  then each matching one is removed under the lock. The argument \<open>body_of\<close> is the code of the
  callback of an acknowledgement.
\<close>

definition ack_call_body :: "(usize \<Rightarrow> api_call list) \<Rightarrow> sio_call \<Rightarrow> api_call list" where
  "ack_call_body body_of c = (case c of AckCall i payload \<Rightarrow> body_of i | EventCall e payload i \<Rightarrow> [])"

definition handle_ack_actions ::
  "(usize \<Rightarrow> api_call list) \<Rightarrow> instant \<Rightarrow> sio_packet \<Rightarrow> sio_payload option \<Rightarrow> sio_socket \<Rightarrow> lock action list" where
  "handle_ack_actions body_of now packet payload sk =
     (case pid packet of
        None \<Rightarrow> []
      | Some i \<Rightarrow>
          let (to_be_removed, cs) = ack_loop now i payload 0 (outstanding_acks sk) in
          [Acquire OutstandingAcks] @ concat (map (\<lambda>c. body_actions (ack_call_body body_of c)) cs) @
          [Release OutstandingAcks] @
          concat (map (\<lambda>index. [Acquire OutstandingAcks, Work, Release OutstandingAcks]) to_be_removed))"

text \<open>
  One poll of a socket: packets are read until one is of the namespace, and an
  acknowledgement is handled at once. Callbacks of events run in tasks of their own.
\<close>

record polled =
  polled_reads :: "bool list list"
  polled_at :: instant
  polled_packet :: sio_packet
  polled_payload :: "sio_payload option"
  polled_socket :: sio_socket

definition poll_actions :: "(usize \<Rightarrow> api_call list) \<Rightarrow> polled \<Rightarrow> lock action list" where
  "poll_actions body_of p =
     concat (map read_actions (polled_reads p)) @
     (if ptype (polled_packet p) = Ack \<or> ptype (polled_packet p) = BinaryAck
      then handle_ack_actions body_of (polled_at p) (polled_packet p) (polled_payload p) (polled_socket p) else [])"

text \<open>The tasks around a socket: user code, callbacks of events, polling.\<close>

datatype socket_job =
    UserJob "api_call list"
  | CallbackJob nat "api_call list"
  | PollJob "polled list"

fun job_actions :: "(usize \<Rightarrow> api_call list) \<Rightarrow> socket_job \<Rightarrow> lock action list" where
  "job_actions body_of (UserJob body) = body_actions body"
| "job_actions body_of (CallbackJob shard body) = callback_actions shard body"
| "job_actions body_of (PollJob turns) = concat (map (poll_actions body_of) turns)"

section \<open>The order of the locks\<close>

fun lock_rank :: "lock \<Rightarrow> nat" where
  "lock_rank (OnShard shard) = 0"
| "lock_rank RawGenerator = 1"
| "lock_rank EngineGenerator = 2"
| "lock_rank OutstandingAcks = 3"
| "lock_rank TransportLock = 4"

text \<open>
  Actions that can be put between others: they hold nothing at their end that they did not
  hold before, and take only locks above those that are held.
\<close>

definition nested :: "lock list \<Rightarrow> lock action list \<Rightarrow> bool" where
  "nested held acts \<longleftrightarrow> (\<forall>rest. well_ordered lock_rank held rest \<longrightarrow> well_ordered lock_rank held (acts @ rest))"

lemma nested_Nil [simp]: "nested held []"
  by (simp add: nested_def)

lemma nested_append: "nested held xs \<Longrightarrow> nested held ys \<Longrightarrow> nested held (xs @ ys)"
  by (simp add: nested_def)

lemma nested_concat: "(\<And>x. x \<in> set xs \<Longrightarrow> nested held (f x)) \<Longrightarrow> nested held (concat (map f xs))"
  by (induction xs) (simp_all add: nested_append)

lemma nested_bracket:
  assumes "\<forall>k\<in>set held. lock_rank k < lock_rank l" and "nested (l # held) acts"
  shows "nested held ([Acquire l] @ acts @ [Release l])"
  using assms by (simp add: nested_def)

lemma nested_work [simp]: "nested held [Work]"
  by (simp add: nested_def)

lemma nested_send: "\<forall>k\<in>set held. lock_rank k < 4 \<Longrightarrow> nested held send_actions"
  using nested_bracket [of held TransportLock "[Work]"] by (simp add: send_actions_def)

lemma nested_file: "\<forall>k\<in>set held. lock_rank k < 3 \<Longrightarrow> nested held [Acquire OutstandingAcks, Work, Release OutstandingAcks]"
  using nested_bracket [of held OutstandingAcks "[Work]"] by simp

lemma nested_call:
  assumes "\<forall>k\<in>set held. lock_rank k < 4" and "c = CallEmitWithAck \<Longrightarrow> \<forall>k\<in>set held. lock_rank k < 3"
  shows "nested held (call_actions c)"
  using assms nested_append [OF nested_file nested_send] nested_append [OF nested_send nested_send] nested_send
  by (cases c) simp_all

lemma nested_body:
  assumes "\<forall>k\<in>set held. lock_rank k < 4" and "CallEmitWithAck \<in> set body \<Longrightarrow> \<forall>k\<in>set held. lock_rank k < 3"
  shows "nested held (body_actions body)"
  unfolding body_actions_def using assms by (auto intro!: nested_concat nested_call)

lemma nested_ordered: "nested [] acts \<Longrightarrow> well_ordered lock_rank [] acts"
  using nested_def [of "[]" acts] by (metis append_Nil2 well_ordered.simps(1))

lemma nested_read: "nested [] (read_actions pongs)"
proof -
  have "nested [RawGenerator] (engine_poll_actions pong)" for pong
    unfolding engine_poll_actions_def by (rule nested_bracket) (simp_all add: nested_send)
  then show ?thesis unfolding read_actions_def by (intro nested_bracket nested_concat) simp_all
qed

lemma nested_handle_ack:
  assumes "\<forall>a\<in>set (outstanding_acks sk). CallEmitWithAck \<notin> set (body_of (ack_id a))"
  shows "nested [] (handle_ack_actions body_of now packet payload sk)"
proof (cases "pid packet")
  case (Some i)
  obtain removed cs where l: "ack_loop now i payload 0 (outstanding_acks sk) = (removed, cs)" by fastforce
  have "\<exists>a\<in>set acks. ack_id a = j" if "AckCall j d \<in> set (snd (ack_loop now i payload n acks))" for j d n acks
    using that by (induction now i payload n acks rule: ack_loop.induct) (auto simp: case_prod_unfold Let_def split: if_splits)
  with l assms have "CallEmitWithAck \<notin> set (ack_call_body body_of c)" if "c \<in> set cs" for c
    using that by (cases c) (auto simp: ack_call_body_def, metis snd_conv)
  then have "nested [OutstandingAcks] (concat (map (\<lambda>c. body_actions (ack_call_body body_of c)) cs))"
    by (intro nested_concat nested_body) auto
  then have "nested [] ([Acquire OutstandingAcks] @ concat (map (\<lambda>c. body_actions (ack_call_body body_of c)) cs) @ [Release OutstandingAcks])"
    by (intro nested_bracket) simp_all
  moreover have "nested [] (concat (map (\<lambda>index. [Acquire OutstandingAcks, Work, Release OutstandingAcks]) removed))"
    by (intro nested_concat nested_file) simp
  ultimately show ?thesis using nested_append [of "[]"] Some l by (fastforce simp: handle_ack_actions_def)
qed (simp add: handle_ack_actions_def)

lemma nested_poll:
  assumes "\<forall>a\<in>set (outstanding_acks (polled_socket p)). CallEmitWithAck \<notin> set (body_of (ack_id a))"
  shows "nested [] (poll_actions body_of p)"
  using nested_concat [of "polled_reads p" "[]" read_actions] nested_read nested_handle_ack [OF assms]
  by (simp add: poll_actions_def nested_append)

text \<open>The acknowledgements that a job's polls may meet.\<close>

fun job_acks :: "socket_job \<Rightarrow> ack set" where
  "job_acks (PollJob turns) = (\<Union>p\<in>set turns. set (outstanding_acks (polled_socket p)))"
| "job_acks job = {}"

lemma job_ordered:
  assumes "\<forall>a\<in>job_acks job. CallEmitWithAck \<notin> set (body_of (ack_id a))"
  shows "well_ordered lock_rank [] (job_actions body_of job)"
proof (rule nested_ordered, cases job)
  case (UserJob body)
  then show "nested [] (job_actions body_of job)" by (simp add: nested_body)
next
  case (CallbackJob shard body)
  then show "nested [] (job_actions body_of job)"
    using nested_bracket [of "[]" "OnShard shard" "body_actions body"] by (simp add: callback_actions_def nested_body)
next
  case (PollJob turns)
  with assms show "nested [] (job_actions body_of job)" by (auto intro!: nested_concat nested_poll)
qed

section \<open>Properties\<close>

text \<open>
  The order of the locks is sound: with a thread for every task, outputs of the transport that
  all come to an end, and a poll that waits for the transport instead of dropping the packet,
  the tasks around a socket do not block each other for good, as long as no callback of an
  acknowledgement emits with an acknowledgement itself. Whatever calls user code and the
  callbacks of events make, and however the tasks are interleaved, no run is longer than the
  tasks have actions, and a run either can go on or has brought all tasks to their end with
  all locks given back.
\<close>

theorem socket_jobs_complete:
  assumes "\<forall>job\<in>set jobs. \<forall>a\<in>job_acks job. CallEmitWithAck \<notin> set (body_of (ack_id a))"
    and "schedule lock_step turns (map (job_actions body_of) jobs, \<lambda>l. None) = Some (ts, h)"
  shows "length turns \<le> actions_left (map (job_actions body_of) jobs) \<and>
    ((\<exists>i<length ts. lock_step i (ts ! i) h \<noteq> None) \<or> ts = replicate (length jobs) [] \<and> h = (\<lambda>l. None))"
proof -
  have run: "interleave lock_step (map (job_actions body_of) jobs, \<lambda>l. None) (ts, h)"
    by (rule schedule_interleave [OF assms(2)])
  have "list_all (well_ordered lock_rank []) (map (job_actions body_of) jobs)"
    using assms(1) job_ordered by (auto simp: list_all_iff)
  from lock_inv_reach [OF run this] obtain held where inv: "lock_inv lock_rank held ts h" by blast
  have "h = (\<lambda>l. None)" if "\<forall>t\<in>set ts. t = []"
  proof
    fix l
    have "held i = []" if "i < length ts" for i
    proof -
      have "well_ordered lock_rank (held i) (ts ! i)" using that inv by (simp add: lock_inv_def)
      moreover have "ts ! i = []" using \<open>\<forall>t\<in>set ts. t = []\<close> that by simp
      ultimately show ?thesis by simp
    qed
    moreover have "\<exists>i<length ts. l \<in> set (held i)" if "h l = Some i" for i using that inv by (auto simp: lock_inv_def)
    ultimately show "h l = None" by (cases "h l") auto
  qed
  moreover have "ts = replicate (length jobs) []" if "\<forall>t\<in>set ts. t = []"
    using that interleave_length [OF run] by (simp add: replicate_eqI)
  ultimately show ?thesis using lock_progress [OF inv] lock_run_left [OF assms(2)] by auto
qed

text \<open>
  An example: a poll of an acknowledgement whose callback makes the given calls, and user
  code that emits.
\<close>

definition example_polled :: polled where
  "example_polled = \<lparr>polled_reads = [[True, False]], polled_at = 3,
     polled_packet = sio_packet_new Ack (str ''/'') None (Some 7) 0 None, polled_payload = None,
     polled_socket = (sio_socket_new (example_socket Websocket) False (str ''/'') {})
       \<lparr>outstanding_acks := [\<lparr>ack_id = 7, ack_timeout = 10, time_started = 0\<rparr>]\<rparr>\<rparr>"

definition example_jobs :: "socket_job list" where
  "example_jobs = [PollJob [example_polled], UserJob [CallEmitWithAck], CallbackJob 0 [CallAck]]"

lemma example_polled_simps [simp]:
  "ptype (polled_packet example_polled) = Ack" "pid (polled_packet example_polled) = Some 7"
  "outstanding_acks (polled_socket example_polled) = [\<lparr>ack_id = 7, ack_timeout = 10, time_started = 0\<rparr>]"
  "polled_at example_polled = 3"
  by (simp_all add: example_polled_def sio_packet_new_def)

theorem socket_jobs_complete_witness:
  "\<exists>i<3. lock_step i (map (job_actions (\<lambda>i. [CallEmit])) example_jobs ! i) (\<lambda>l. None) \<noteq> None"
proof -
  let ?ts = "map (job_actions (\<lambda>i. [CallEmit])) example_jobs"
  have "schedule lock_step [] (?ts, \<lambda>l. None) = Some (?ts, \<lambda>l. None)" by simp
  moreover have "\<forall>job\<in>set example_jobs. \<forall>a\<in>job_acks job. CallEmitWithAck \<notin> set ((\<lambda>i. [CallEmit]) (ack_id a))" by simp
  ultimately have "(\<exists>i<length ?ts. lock_step i (?ts ! i) (\<lambda>l. None) \<noteq> None) \<or> ?ts = replicate (length example_jobs) []"
    using socket_jobs_complete [of example_jobs "\<lambda>i. [CallEmit]" "[]" ?ts "\<lambda>l. None"] by blast
  moreover have "?ts \<noteq> replicate (length example_jobs) []" by (simp add: example_jobs_def body_actions_def numeral_3_eq_3)
  moreover have "length ?ts = 3" by (simp add: example_jobs_def)
  ultimately show ?thesis by metis
qed

text \<open>
  C36: A callback of an acknowledgement that emits with an acknowledgement on its own socket
  hangs. If the packet of a poll acknowledges in time an event whose callback makes this
  call, the task that polls never comes to its end, whatever the other tasks do: it waits for
  the lock on the acknowledgements, which it holds itself.
\<close>

theorem ack_callback_deadlock:
  assumes "k < length jobs" and "jobs ! k = PollJob (polls_done @ p # todo)"
    and "ptype (polled_packet p) = Ack \<or> ptype (polled_packet p) = BinaryAck" and "pid (polled_packet p) = Some i"
    and "a \<in> set (outstanding_acks (polled_socket p))" and "ack_id a = i" and "polled_at p - time_started a < ack_timeout a"
    and "CallEmitWithAck \<in> set (body_of i)"
    and "interleave lock_step (map (job_actions body_of) jobs, h0) (ts, h)"
  shows "ts ! k \<noteq> []"
proof -
  let ?sk = "polled_socket p"
  obtain removed cs where l: "ack_loop (polled_at p) i (polled_payload p) 0 (outstanding_acks ?sk) = (removed, cs)" by fastforce
  have "AckCall (ack_id a) d \<in> set (snd (ack_loop now (ack_id a) d n acks))"
    if "a \<in> set acks" "now - time_started a < ack_timeout a" for now d n acks
    using that by (induction acks arbitrary: n) (auto simp: case_prod_unfold Let_def)
  from this [OF assms(5,7)] l assms(6) have "AckCall i (polled_payload p) \<in> set cs" by (metis snd_conv)
  with assms(8) have "CallEmitWithAck \<in> set (concat (map (ack_call_body body_of) cs))"
    by (force simp: ack_call_body_def)
  then obtain xs ys where split: "concat (map (ack_call_body body_of) cs) = xs @ CallEmitWithAck # ys" "CallEmitWithAck \<notin> set xs"
    by (meson split_list_first)
  have bodies: "concat (map (\<lambda>c. body_actions (ack_call_body body_of c)) cs) = body_actions (concat (map (ack_call_body body_of) cs))"
    by (induction cs) (simp_all add: body_actions_def)
  have mid: "Release OutstandingAcks \<notin> set (body_actions xs)"
  proof
    assume "Release OutstandingAcks \<in> set (body_actions xs)"
    then obtain c where "c \<in> set xs" "Release OutstandingAcks \<in> set (call_actions c)" by (auto simp: body_actions_def)
    with split(2) show False by (cases c) (auto simp: send_actions_def)
  qed
  let ?pre = "concat (map (poll_actions body_of) polls_done) @ concat (map read_actions (polled_reads p))"
  have "\<exists>post. job_actions body_of (jobs ! k) =
      ?pre @ Acquire OutstandingAcks # body_actions xs @ Acquire OutstandingAcks # post"
    using assms(2,3,4) l bodies split(1)
    by (auto simp: poll_actions_def handle_ack_actions_def body_actions_def)
  then obtain post where "map (job_actions body_of) jobs ! k =
      ?pre @ Acquire OutstandingAcks # body_actions xs @ Acquire OutstandingAcks # post"
    using assms(1) by auto
  from self_lock_stuck [OF assms(9) _ this mid] assms(1) this show ?thesis by auto
qed

theorem ack_callback_deadlock_witness:
  "\<exists>ts h. schedule lock_step (replicate 13 0) (map (job_actions (\<lambda>i. [CallEmit, CallEmitWithAck])) example_jobs, \<lambda>l. None) =
      Some (ts, h) \<and> ts ! 0 \<noteq> [] \<and> lock_step 0 (ts ! 0) h = None"
proof -
  let ?jobs = "map (job_actions (\<lambda>i. [CallEmit, CallEmitWithAck])) example_jobs"
  have "\<exists>ts h. schedule lock_step (replicate 13 0) (?jobs, \<lambda>l. None) = Some (ts, h) \<and> lock_step 0 (ts ! 0) h = None"
    by (simp add: example_jobs_def poll_actions_def handle_ack_actions_def read_actions_def engine_poll_actions_def
        send_actions_def body_actions_def ack_call_body_def numeral_eq_Suc) (simp add: example_polled_def read_actions_def
        engine_poll_actions_def send_actions_def)
  then obtain ts h where run: "schedule lock_step (replicate 13 0) (?jobs, \<lambda>l. None) = Some (ts, h)" "lock_step 0 (ts ! 0) h = None"
    by blast
  have "ts ! 0 \<noteq> []"
    by (rule ack_callback_deadlock [where p = example_polled and polls_done = "[]" and todo = "[]" and i = 7
          and a = "\<lparr>ack_id = 7, ack_timeout = 10, time_started = 0\<rparr>", rotated 8, OF schedule_interleave [OF run(1)]])
      (simp_all add: example_jobs_def)
  with run show ?thesis by blast
qed

section \<open>Threads\<close>

text \<open>
  The guard on an entry of the table of callbacks blocks its thread (\<open>DashMap::get_mut\<close>); the
  other locks are those of the runtime, which put the task aside.
\<close>

fun blocks_thread :: "lock \<Rightarrow> bool" where
  "blocks_thread (OnShard shard) = True"
| "blocks_thread l = False"

text \<open>A callback that makes a call takes the guard and then awaits something while it holds it.\<close>

lemma callback_awaits:
  assumes "ts ! 0 = callback_actions shard (c # cs)" and "0 < length ts"
  shows "\<exists>k acts h. schedule lock_step (replicate k 0) (ts, \<lambda>l. None) = Some (ts[0 := Work # acts], h) \<and>
    h (OnShard shard) = Some 0"
proof -
  have first: "\<exists>l acts. callback_actions shard (c # cs) = Acquire (OnShard shard) # Acquire l # Work # acts \<and> l \<noteq> OnShard shard"
    if "c \<noteq> CallOther"
    using that by (cases c) (auto simp: callback_actions_def body_actions_def send_actions_def)
  show ?thesis
  proof (cases "c = CallOther")
    case True
    then obtain acts where "ts ! 0 = Acquire (OnShard shard) # Work # acts"
      using assms(1) by (simp add: callback_actions_def body_actions_def)
    with assms(2) show ?thesis by (intro exI [of _ 1]) auto
  next
    case False
    from first [OF False] obtain l acts where "ts ! 0 = Acquire (OnShard shard) # Acquire l # Work # acts" "l \<noteq> OnShard shard"
      using assms(1) by auto
    with assms(2) show ?thesis by (intro exI [of _ 2]) (auto simp: numeral_2_eq_2)
  qed
qed

text \<open>
  C12: Callbacks of one event can bring a runtime to a stop. If more callbacks of one event are
  started than the runtime has threads, and the first makes some call on the socket, the
  threads can all end up blocked: the first callback awaits something with the guard of the
  event's entry held and is put aside, and each thread takes up one of the others, which
  blocks it. Then nothing happens any more, neither to these callbacks nor to any other task.
  On a runtime with one thread two callbacks of the same event are enough.
\<close>

theorem callbacks_stop_runtime:
  assumes "0 < threads" and "length bodies = threads" and "body \<noteq> []"
  shows "\<exists>ts h ws. thread_run blocks_thread
      (map (job_actions body_of) (map (CallbackJob shard) (body # bodies) @ others), \<lambda>l. None, replicate threads None) (ts, h, ws) \<and>
    (\<forall>next_state. \<not> thread_step blocks_thread (ts, h, ws) next_state) \<and>
    (\<forall>i\<le>threads. ts ! i \<noteq> []) \<and> drop (Suc threads) ts = map (job_actions body_of) others"
proof -
  let ?ts = "map (job_actions body_of) (map (CallbackJob shard) (body # bodies) @ others)"
  obtain c cs where c: "body = c # cs" using assms(3) by (cases body) auto
  have ts: "?ts = callback_actions shard body # map (callback_actions shard) bodies @ map (job_actions body_of) others"
    by simp
  then have len: "threads < length ?ts" using assms(2) by simp
  have "?ts ! 0 = callback_actions shard (c # cs)" "0 < length ?ts" unfolding ts using c by simp_all
  note first = this(2)
  from callback_awaits [OF \<open>?ts ! 0 = callback_actions shard (c # cs)\<close> first] obtain k acts h where run: "schedule lock_step (replicate k 0) (?ts, \<lambda>l. None) =
      Some (?ts[0 := Work # acts], h)" "h (OnShard shard) = Some 0" by blast
  let ?ts' = "?ts[0 := Work # acts]" and ?busy = "(replicate threads None)[0 := Some 0]"
  have taken: "thread_step blocks_thread (?ts, \<lambda>l. None, replicate threads None) (?ts, \<lambda>l. None, ?busy)"
    by (rule thread_take) (use assms(1) len in auto)
  have acted: "thread_run blocks_thread (?ts, \<lambda>l. None, ?busy) (?ts', h, ?busy)"
    by (rule thread_acts [OF run(1), of 0]) (use assms(1) in simp_all)
  have idle: "?busy[0 := None] = replicate threads None" using assms(1) by (cases threads) simp_all
  have "thread_step blocks_thread (?ts', h, ?busy) (?ts', h, ?busy[0 := None])"
  proof (rule thread_yield [of _ _ 0])
    show "may_yield blocks_thread (?ts' ! 0) h" using first by simp
  qed (use assms(1) len in auto)
  note yielded = this [unfolded idle]
  have "thread_run blocks_thread (?ts', h, replicate threads None) (?ts', h, map (\<lambda>w. Some (Suc w)) [0..<threads])"
    by (rule threads_take) (use len in simp)
  note reach = converse_rtranclp_into_rtranclp [OF taken rtranclp_trans [OF acted converse_rtranclp_into_rtranclp [OF yielded this]]]
  have others: "?ts' ! Suc w = callback_actions shard (bodies ! w)" if "w < threads" for w
    unfolding ts using that assms(2) by (simp add: nth_append)
  then have blocked: "\<not> thread_step blocks_thread (?ts', h, map (\<lambda>w. Some (Suc w)) [0..<threads]) c'" for c'
    using len run(2) by (intro threads_blocked) (auto simp: callback_actions_def)
  have "?ts' ! i \<noteq> []" if "i \<le> threads" for i
    using that others [of "i - 1"] first by (cases i) (auto simp: callback_actions_def)
  moreover have "drop (Suc threads) ?ts' = map (job_actions body_of) others" unfolding ts using assms(2) by simp
  ultimately show ?thesis using reach blocked by blast
qed

theorem callbacks_stop_runtime_witness:
  "\<exists>ts h ws. thread_run blocks_thread
      (map (job_actions (\<lambda>i. [])) (map (CallbackJob 0) ([CallEmit] # [[CallAck]]) @ [UserJob [CallEmit]]), \<lambda>l. None, [None]) (ts, h, ws) \<and>
    (\<forall>next_state. \<not> thread_step blocks_thread (ts, h, ws) next_state) \<and> ts ! 0 \<noteq> []"
proof -
  obtain ts h ws where "thread_run blocks_thread
      (map (job_actions (\<lambda>i. [])) (map (CallbackJob 0) ([CallEmit] # [[CallAck]]) @ [UserJob [CallEmit]]), \<lambda>l. None, replicate 1 None) (ts, h, ws)"
    "\<forall>next_state. \<not> thread_step blocks_thread (ts, h, ws) next_state" "\<forall>i\<le>1. ts ! i \<noteq> []"
    using callbacks_stop_runtime [of 1 "[[CallAck]]" "[CallEmit]" "\<lambda>i. []" 0 "[UserJob [CallEmit]]"] by auto
  then show ?thesis by (intro exI [of _ ts] exI [of _ h] exI [of _ ws]) simp
qed

end
