(* ===== verification/Engine_Tasks.thy ===== *)
theory Engine_Tasks
  imports Engine_Socket Tasks
begin

text \<open>
  Concurrent use of one Engine.IO socket (\<open>engineio/src/socket/socket.rs\<close>). The clones of a
  socket are used by several tasks at once; they share the socket and the mutex of its
  transport. A task is interrupted wherever it reads or writes a shared field, reports an
  event, waits for the mutex or puts out data; one output of the transport is one step. The
  tasks are emissions, disconnecting, and the handling of a packet that was received; the
  exchange of the transport by an upgrade is not among them. \<open>Engine_Socket\<close> has each of
  these operations as one uninterrupted step; here it is shown what interruption changes.
\<close>

section \<open>State\<close>

record shared_socket =
  shared :: eio_socket
  lock_holder :: "nat option"

definition on_shared :: "(eio_socket \<Rightarrow> eio_socket) \<Rightarrow> shared_socket \<Rightarrow> shared_socket" where
  "on_shared f sh = sh\<lparr>shared := f (shared sh)\<rparr>"

text \<open>
  How far an emission has got: before it reads the open flag, refused because the socket is
  not open, waiting for the transport, sending with the packets left, about to report an
  error of the transport, done. The mutex is held until the emission returns.
\<close>

datatype emit_pc =
    EmitCheck "eio_packet list"
  | EmitRefused
  | EmitWait "eio_packet list"
  | EmitSend "eio_packet list"
  | EmitReport eio_error
  | EmitDone "eio_error + unit"

fun emit_step ::
  "(bytes \<Rightarrow> ustr) \<Rightarrow> network \<Rightarrow> nat \<Rightarrow> emit_pc \<Rightarrow> shared_socket \<Rightarrow> (emit_pc \<times> shared_socket) option" where
  "emit_step encode net i (EmitCheck ps) sh =
     Some (if connected (shared sh) then EmitWait ps else EmitRefused, sh)"
| "emit_step encode net i EmitRefused sh =
     Some (EmitDone (Inl IllegalActionBeforeOpen), on_shared (on_error IllegalActionBeforeOpen) sh)"
| "emit_step encode net i (EmitWait ps) sh =
     (if lock_holder sh = None then Some (EmitSend ps, sh\<lparr>lock_holder := Some i\<rparr>) else None)"
| "emit_step encode net i (EmitSend []) sh = Some (EmitDone (Inr ()), sh\<lparr>lock_holder := None\<rparr>)"
| "emit_step encode net i (EmitSend (p # ps)) sh =
     (let s = shared sh in
      case transport_emit encode net (transport s) (wire_out s) (packet_data encode p) of
        (out, Inl e) \<Rightarrow> Some (EmitReport e, sh\<lparr>shared := s\<lparr>wire_out := out\<rparr>\<rparr>)
      | (out, Inr _) \<Rightarrow> Some (EmitSend ps, sh\<lparr>shared := s\<lparr>wire_out := out\<rparr>\<rparr>))"
| "emit_step encode net i (EmitReport e) sh =
     Some (EmitDone (Inl e), (on_shared (on_error e) sh)\<lparr>lock_holder := None\<rparr>)"
| "emit_step encode net i (EmitDone r) sh = None"

text \<open>
  The tasks: an emission; disconnecting, which reads the flag, reports the closing, emits
  the close packet and clears the flag; the handling of a received packet.
\<close>

datatype socket_task =
    Emission emit_pc
  | DisconnectCheck
  | DisconnectReport
  | DisconnectEmit emit_pc
  | DisconnectStore
  | DisconnectDone "eio_error + unit"
  | IncomingPonged instant eio_packet
  | IncomingPacket instant eio_packet
  | IncomingAct instant eio_packet
  | IncomingEmit emit_pc
  | CloseReport
  | CloseStore
  | IncomingDone

definition incoming_act ::
  "instant \<Rightarrow> eio_packet \<Rightarrow> shared_socket \<Rightarrow> socket_task \<times> shared_socket" where
  "incoming_act now p sh =
     (case eptype p of
        MessageBinary \<Rightarrow> (IncomingDone, on_shared (handle_data (edata p)) sh)
      | Message \<Rightarrow> (IncomingDone, on_shared (handle_data (edata p)) sh)
      | Close \<Rightarrow> (if is_connected (shared sh) then CloseReport else IncomingDone, sh)
      | Upgrade \<Rightarrow> (IncomingDone, sh)
      | Ping \<Rightarrow>
          (if should_pong (shared sh) then IncomingEmit (EmitCheck [packet_new Pong (edata p)]) else IncomingDone,
           on_shared (pinged now) sh)
      | Pong \<Rightarrow> (IncomingDone, sh)
      | Open \<Rightarrow> (IncomingDone, sh)
      | Noop \<Rightarrow> (IncomingDone, sh))"

fun socket_task_step ::
  "(bytes \<Rightarrow> ustr) \<Rightarrow> network \<Rightarrow> nat \<Rightarrow> socket_task \<Rightarrow> shared_socket \<Rightarrow> (socket_task \<times> shared_socket) option" where
  "socket_task_step encode net i (Emission pc) sh = map_option (apfst Emission) (emit_step encode net i pc sh)"
| "socket_task_step encode net i DisconnectCheck sh =
     Some (if is_connected (shared sh) then DisconnectReport else DisconnectDone (Inr ()), sh)"
| "socket_task_step encode net i DisconnectReport sh =
     (case send_event (OnClose (socket_sid (shared sh))) (shared sh) of
        (s, Inl e) \<Rightarrow> Some (DisconnectDone (Inl e), sh\<lparr>shared := s\<rparr>)
      | (s, Inr _) \<Rightarrow> Some (DisconnectEmit (EmitCheck [packet_new Close []]), sh\<lparr>shared := s\<rparr>))"
| "socket_task_step encode net i (DisconnectEmit (EmitDone (Inl e))) sh = Some (DisconnectDone (Inl e), sh)"
| "socket_task_step encode net i (DisconnectEmit (EmitDone (Inr u))) sh = Some (DisconnectStore, sh)"
| "socket_task_step encode net i (DisconnectEmit pc) sh = map_option (apfst DisconnectEmit) (emit_step encode net i pc sh)"
| "socket_task_step encode net i DisconnectStore sh =
     Some (DisconnectDone (Inr ()), on_shared (\<lambda>s. s\<lparr>connected := False\<rparr>) sh)"
| "socket_task_step encode net i (DisconnectDone r) sh = None"
| "socket_task_step encode net i (IncomingPonged now p) sh = Some (IncomingPacket now p, on_shared (ponged now) sh)"
| "socket_task_step encode net i (IncomingPacket now p) sh = Some (IncomingAct now p, on_shared (handle_packet p) sh)"
| "socket_task_step encode net i (IncomingAct now p) sh = Some (incoming_act now p sh)"
| "socket_task_step encode net i (IncomingEmit (EmitDone r)) sh = Some (IncomingDone, sh)"
| "socket_task_step encode net i (IncomingEmit pc) sh = map_option (apfst IncomingEmit) (emit_step encode net i pc sh)"
| "socket_task_step encode net i CloseReport sh =
     Some (CloseStore, on_shared (\<lambda>s. fst (send_event (OnClose (socket_sid s)) s)) sh)"
| "socket_task_step encode net i CloseStore sh =
     Some (IncomingDone, on_shared (\<lambda>s. s\<lparr>connected := False\<rparr>) sh)"
| "socket_task_step encode net i IncomingDone sh = None"

section \<open>A task on its own\<close>

text \<open>Each step brings a task closer to its end.\<close>

fun emit_left :: "emit_pc \<Rightarrow> nat" where
  "emit_left (EmitCheck ps) = length ps + 4"
| "emit_left EmitRefused = 1"
| "emit_left (EmitWait ps) = length ps + 3"
| "emit_left (EmitSend ps) = length ps + 2"
| "emit_left (EmitReport e) = 1"
| "emit_left (EmitDone r) = 0"

fun task_left :: "socket_task \<Rightarrow> nat" where
  "task_left (Emission pc) = emit_left pc"
| "task_left DisconnectCheck = 9"
| "task_left DisconnectReport = 8"
| "task_left (DisconnectEmit pc) = emit_left pc + 2"
| "task_left DisconnectStore = 1"
| "task_left (DisconnectDone r) = 0"
| "task_left (IncomingPonged now p) = 9"
| "task_left (IncomingPacket now p) = 8"
| "task_left (IncomingAct now p) = 7"
| "task_left (IncomingEmit pc) = emit_left pc + 1"
| "task_left CloseReport = 2"
| "task_left CloseStore = 1"
| "task_left IncomingDone = 0"

lemma emit_step_left: "emit_step encode net i pc sh = Some (pc', sh') \<Longrightarrow> emit_left pc' < emit_left pc"
  by (induction encode net i pc sh rule: emit_step.induct)
    (auto simp: Let_def split: if_splits prod.splits sum.splits)

lemma incoming_act_left: "incoming_act now p sh = (t', sh') \<Longrightarrow> task_left t' < 7"
  by (auto simp: incoming_act_def split: packet_type.splits if_splits)

lemma socket_task_left:
  "socket_task_step encode net i t sh = Some (t', sh') \<Longrightarrow> task_left t' < task_left t"
proof (induction encode net i t sh rule: socket_task_step.induct)
  case (11 encode net i now p sh)
  then show ?case using incoming_act_left by simp
qed (auto dest!: emit_step_left split: if_splits prod.splits sum.splits)

text \<open>A task that runs until it has finished or waits.\<close>

function run_task ::
  "(bytes \<Rightarrow> ustr) \<Rightarrow> network \<Rightarrow> nat \<Rightarrow> socket_task \<Rightarrow> shared_socket \<Rightarrow> socket_task \<times> shared_socket" where
  "run_task encode net i t sh =
     (case socket_task_step encode net i t sh of
        None \<Rightarrow> (t, sh)
      | Some (t', sh') \<Rightarrow> run_task encode net i t' sh')"
  by pat_completeness auto
termination
  by (relation "measure (\<lambda>(encode, net, i, t, sh). task_left t)") (auto dest: socket_task_left)

declare run_task.simps [simp del]

text \<open>
  Polling a socket whose transport others may be using. The handling of a packet is polled
  once: if it has to wait, the poll is pending and the handling is dropped, with the packet
  that the stream has already given out and with the mutex if it holds it. It waits for the
  mutex, and for an output of the transport that is not done when it is polled, which is an
  argument: such an output is taken not to have been put out.
\<close>

fun task_pc :: "socket_task \<Rightarrow> emit_pc option" where
  "task_pc (Emission pc) = Some pc"
| "task_pc (DisconnectEmit pc) = Some pc"
| "task_pc (IncomingEmit pc) = Some pc"
| "task_pc t = None"

fun task_holds :: "socket_task \<Rightarrow> bool" where
  "task_holds t = (case task_pc t of Some (EmitSend ps) \<Rightarrow> True | Some (EmitReport e) \<Rightarrow> True | _ \<Rightarrow> False)"

fun task_outputs :: "socket_task \<Rightarrow> bool" where
  "task_outputs t = (case task_pc t of Some (EmitSend (p # ps)) \<Rightarrow> True | _ \<Rightarrow> False)"

function poll_task ::
  "(bytes \<Rightarrow> ustr) \<Rightarrow> network \<Rightarrow> bool \<Rightarrow> nat \<Rightarrow> socket_task \<Rightarrow> shared_socket \<Rightarrow> socket_task \<times> shared_socket" where
  "poll_task encode net output_done i t sh =
     (if \<not> output_done \<and> task_outputs t then (t, sh)
      else
        case socket_task_step encode net i t sh of
          None \<Rightarrow> (t, sh)
        | Some (t', sh') \<Rightarrow> poll_task encode net output_done i t' sh')"
  by pat_completeness auto
termination
  by (relation "measure (\<lambda>(encode, net, d, i, t, sh). task_left t)") (auto dest: socket_task_left)

declare poll_task.simps [simp del]

datatype 'a poll = Pending | Ready 'a

definition shared_poll_next ::
  "(bytes \<Rightarrow> ustr) \<Rightarrow> network \<Rightarrow> bool \<Rightarrow> instant \<Rightarrow> nat \<Rightarrow> shared_socket \<Rightarrow>
     shared_socket \<times> (eio_error + eio_packet) option poll" where
  "shared_poll_next encode net output_done now i sh =
     (case generator (shared sh) of
        [] \<Rightarrow> (sh, Ready None)
      | item # rest \<Rightarrow>
          let sh = on_shared (\<lambda>s. s\<lparr>generator := rest\<rparr>) sh in
          (case item of
             Inr p \<Rightarrow>
               (case poll_task encode net output_done i (IncomingPonged now p) sh of
                  (IncomingDone, sh) \<Rightarrow> (sh, Ready (Some item))
                | (t, sh) \<Rightarrow> (if task_holds t then sh\<lparr>lock_holder := None\<rparr> else sh, Pending))
           | Inl _ \<Rightarrow> (sh, Ready (Some item))))"

section \<open>Lemmas on tasks\<close>

lemma on_shared_simps [simp]:
  "shared (on_shared f sh) = f (shared sh)" "lock_holder (on_shared f sh) = lock_holder sh"
  by (simp_all add: on_shared_def)

text \<open>The transport is left alone, and what was put out changes only under the mutex.\<close>

lemma on_error_fields [simp]:
  "transport (on_error e s) = transport s" "wire_out (on_error e s) = wire_out s" "connected (on_error e s) = connected s"
  by (simp_all add: on_error_def)

lemma incoming_fields [simp]:
  "transport (pinged now s) = transport s" "wire_out (pinged now s) = wire_out s"
  "transport (ponged now s) = transport s" "wire_out (ponged now s) = wire_out s"
  "transport (handle_packet p s) = transport s" "wire_out (handle_packet p s) = wire_out s"
  "transport (handle_data d s) = transport s" "wire_out (handle_data d s) = wire_out s"
  by (simp_all add: pinged_def ponged_def handle_packet_def handle_data_def)

text \<open>The packets that a task is going to emit.\<close>

fun task_before :: "socket_task \<Rightarrow> bool" where
  "task_before DisconnectCheck = True"
| "task_before DisconnectReport = True"
| "task_before (IncomingPonged now p) = True"
| "task_before (IncomingPacket now p) = True"
| "task_before (IncomingAct now p) = True"
| "task_before t = (case task_pc t of Some (EmitCheck ps) \<Rightarrow> True | Some (EmitWait ps) \<Rightarrow> True | _ \<Rightarrow> False)"

fun task_group :: "socket_task \<Rightarrow> eio_packet list" where
  "task_group DisconnectCheck = [packet_new Close []]"
| "task_group DisconnectReport = [packet_new Close []]"
| "task_group (IncomingPonged now p) = [packet_new Pong (edata p)]"
| "task_group (IncomingPacket now p) = [packet_new Pong (edata p)]"
| "task_group (IncomingAct now p) = [packet_new Pong (edata p)]"
| "task_group t = (case task_pc t of Some (EmitCheck ps) \<Rightarrow> ps | Some (EmitWait ps) \<Rightarrow> ps | _ \<Rightarrow> [])"

fun task_ended :: "socket_task \<Rightarrow> eio_error + unit \<Rightarrow> bool" where
  "task_ended DisconnectStore r \<longleftrightarrow> r = Inr ()"
| "task_ended (DisconnectDone r') r \<longleftrightarrow> r' = r"
| "task_ended IncomingDone r \<longleftrightarrow> True"
| "task_ended t r \<longleftrightarrow> task_pc t = Some (EmitDone r)"

text \<open>What a group of packets adds to the output of a transport, with its result.\<close>

fun group_wire ::
  "(bytes \<Rightarrow> ustr) \<Rightarrow> network \<Rightarrow> transport_type \<Rightarrow> eio_packet list \<Rightarrow> wire list \<Rightarrow> wire list \<times> (eio_error + unit)" where
  "group_wire encode net k [] out = (out, Inr ())"
| "group_wire encode net k (p # ps) out =
     (case transport_emit encode net k out (packet_data encode p) of
        (out, Inl e) \<Rightarrow> (out, Inl e)
      | (out, Inr _) \<Rightarrow> group_wire encode net k ps out)"

fun rest_wire ::
  "(bytes \<Rightarrow> ustr) \<Rightarrow> network \<Rightarrow> transport_type \<Rightarrow> socket_task \<Rightarrow> wire list \<Rightarrow> wire list \<times> (eio_error + unit)" where
  "rest_wire encode net k t out =
     (case task_pc t of
        Some (EmitSend ps) \<Rightarrow> group_wire encode net k ps out
      | Some (EmitReport e) \<Rightarrow> (out, Inl e)
      | _ \<Rightarrow> (out, Inr ()))"

lemma emit_step_cases:
  assumes "emit_step encode net i pc sh = Some (pc', sh')"
  obtains
    (check) ps where "pc = EmitCheck ps" "pc' = (if connected (shared sh) then EmitWait ps else EmitRefused)" "sh' = sh"
  | (refuse) "pc = EmitRefused" "pc' = EmitDone (Inl IllegalActionBeforeOpen)" "sh' = on_shared (on_error IllegalActionBeforeOpen) sh"
  | (lock) ps where "pc = EmitWait ps" "pc' = EmitSend ps" "lock_holder sh = None" "sh' = sh\<lparr>lock_holder := Some i\<rparr>"
  | (finish) "pc = EmitSend []" "pc' = EmitDone (Inr ())" "sh' = sh\<lparr>lock_holder := None\<rparr>"
  | (send) p ps out u where "pc = EmitSend (p # ps)" "pc' = EmitSend ps"
      "transport_emit encode net (transport (shared sh)) (wire_out (shared sh)) (packet_data encode p) = (out, Inr u)"
      "sh' = on_shared (\<lambda>s. s\<lparr>wire_out := out\<rparr>) sh"
  | (fail) p ps out e where "pc = EmitSend (p # ps)" "pc' = EmitReport e"
      "transport_emit encode net (transport (shared sh)) (wire_out (shared sh)) (packet_data encode p) = (out, Inl e)"
      "sh' = on_shared (\<lambda>s. s\<lparr>wire_out := out\<rparr>) sh"
  | (report) e where "pc = EmitReport e" "pc' = EmitDone (Inl e)" "sh' = (on_shared (on_error e) sh)\<lparr>lock_holder := None\<rparr>"
proof (cases pc)
  case (EmitSend ps)
  show thesis
  proof (cases ps)
    case (Cons p qs)
    obtain out r where t: "transport_emit encode net (transport (shared sh)) (wire_out (shared sh)) (packet_data encode p) = (out, r)"
      by fastforce
    show thesis
    proof (cases r)
      case (Inl e)
      with EmitSend Cons t assms show thesis by (intro fail [of p qs e out]) (auto simp: Let_def on_shared_def)
    next
      case (Inr u)
      with EmitSend Cons t assms show thesis by (intro send [of p qs out u]) (auto simp: Let_def on_shared_def)
    qed
  next
    case Nil
    with EmitSend assms show thesis by (intro finish) simp_all
  qed
next
  case (EmitCheck ps)
  with assms show thesis by (intro check [of ps]) auto
next
  case (EmitWait ps)
  with assms show thesis by (intro lock [of ps]) (simp_all split: if_splits)
next
  case (EmitReport e)
  with assms show thesis by (intro report [of e]) simp_all
next
  case EmitRefused
  with assms show thesis by (intro refuse) simp_all
qed (use assms in simp)

text \<open>A step of a task is a step of its emission or does not touch the mutex.\<close>

definition quiet_step :: "socket_task \<Rightarrow> socket_task \<Rightarrow> shared_socket \<Rightarrow> shared_socket \<Rightarrow> bool" where
  "quiet_step t t' sh sh' \<longleftrightarrow>
     \<not> task_holds t \<and> \<not> task_holds t' \<and> lock_holder sh' = lock_holder sh \<and>
     transport (shared sh') = transport (shared sh) \<and> wire_out (shared sh') = wire_out (shared sh) \<and>
     (task_before t' \<longrightarrow> task_before t \<and> task_group t' = task_group t) \<and>
     (\<forall>r. task_ended t r \<longrightarrow> task_ended t' r) \<and> (\<forall>pc. t \<noteq> Emission pc \<and> t' \<noteq> Emission pc)"

lemma quiet_act: "incoming_act now p sh = (t', sh') \<Longrightarrow> quiet_step (IncomingAct now p) t' sh sh'"
  by (cases "eptype p") (auto simp: incoming_act_def quiet_step_def split: if_splits)

lemma quiet_report:
  "send_event ev (shared sh) = (s, r) \<Longrightarrow>
   transport s = transport (shared sh) \<and> wire_out s = wire_out (shared sh)"
  using send_event_fields(1,9) [of ev "shared sh"] by simp

lemma socket_task_cases:
  assumes "socket_task_step encode net i t sh = Some (t', sh')"
  obtains
    (emit) f pc pc' where "t = f pc" "t' = f pc'" "f = Emission \<or> f = DisconnectEmit \<or> f = IncomingEmit"
      "emit_step encode net i pc sh = Some (pc', sh')"
  | (other) "quiet_step t t' sh sh'"
proof (cases t)
  case (Emission pc)
  with assms emit show thesis by auto
next
  case (DisconnectEmit pc)
  show thesis
  proof (cases pc)
    case (EmitDone r)
    with DisconnectEmit assms show thesis by (cases r) (auto simp: quiet_step_def intro: other)
  qed (use DisconnectEmit assms emit [of DisconnectEmit] in auto)
next
  case (IncomingEmit pc)
  show thesis
  proof (cases pc)
    case (EmitDone r)
    with IncomingEmit assms show thesis by (auto simp: quiet_step_def intro: other)
  qed (use IncomingEmit assms emit [of IncomingEmit] in auto)
next
  case (IncomingAct now p)
  with assms other quiet_act [of now p sh t' sh'] show thesis by simp
next
  case DisconnectReport
  with assms show thesis
    by (auto intro!: other simp: quiet_step_def dest!: quiet_report split: prod.splits sum.splits)
qed (use assms other in \<open>auto simp: quiet_step_def split: if_splits\<close>)

section \<open>One emission at a time\<close>

text \<open>
  The tasks meet the contract of serial tasks twice: for the output of the transport,
  whatever tasks there are, and for the whole socket, when all tasks are emissions on an open
  socket.
\<close>

lemma wrapped_emission:
  assumes "f = Emission \<or> f = DisconnectEmit \<or> f = IncomingEmit"
  shows "task_pc (f pc) = Some pc" and "task_before (f pc) \<longleftrightarrow> (\<exists>ps. pc = EmitCheck ps \<or> pc = EmitWait ps)"
    and "task_holds (f pc) \<longleftrightarrow> (\<exists>ps e. pc = EmitSend ps \<or> pc = EmitReport e)"
    and "task_group (f (EmitCheck ps)) = ps" and "task_group (f (EmitWait ps)) = ps"
    and "task_ended (f pc) r \<longleftrightarrow> pc = EmitDone r" and "f pc = Emission pc' \<longleftrightarrow> f = Emission \<and> pc = pc'"
  using assms by (auto split: emit_pc.splits)

interpretation wire_order:
  serial_tasks "socket_task_step encode net" lock_holder task_before task_holds "\<lambda>t. t = Emission (EmitDone (Inr ()))"
    task_ended task_group "\<lambda>sh. wire_out (shared sh)" "rest_wire encode net k" "group_wire encode net k"
    "\<lambda>t. True" "\<lambda>sh. transport (shared sh) = k"
  for encode net k
proof (unfold_locales, goal_cases)
  case (1 i t s t' s')
  from 1(1) show ?case
  proof (cases rule: socket_task_cases)
    case (emit f pc pc')
    from emit(4) show ?thesis by (cases rule: emit_step_cases) (use 1(3) in simp_all)
  qed (use 1(3) in \<open>simp add: quiet_step_def\<close>)
next
  case (2 i t s t' s' r)
  from 2(1) show ?case
  proof (cases rule: socket_task_cases)
    case (emit f pc pc')
    from emit(4) show ?thesis by (cases rule: emit_step_cases)
      (use emit(1,2) wrapped_emission [OF emit(3)] 2(3-5) in \<open>auto simp del: task_holds.simps split: if_splits\<close>)
  qed (use 2(3-5) in \<open>auto simp: quiet_step_def\<close>)
next
  case (3 i t s t' s')
  from 3(1) show ?case
  proof (cases rule: socket_task_cases)
    case (emit f pc pc')
    from emit(4) show ?thesis by (cases rule: emit_step_cases)
      (use emit(1,2) wrapped_emission [OF emit(3)] 3(3-5) in \<open>auto simp del: task_holds.simps split: if_splits\<close>)
  qed (use 3(3-5) in \<open>auto simp: quiet_step_def\<close>)
next
  case (4 i t s t' s')
  from 4(1) show ?case
  proof (cases rule: socket_task_cases)
    case (emit f pc pc')
    from emit(4) show ?thesis by (cases rule: emit_step_cases)
      (use emit(1,2) wrapped_emission [OF emit(3)] 4(3-5) in \<open>auto simp del: task_holds.simps split: if_splits\<close>)
  qed (use 4(3-5) in \<open>auto simp: quiet_step_def\<close>)
next
  case (5 i t s t' s')
  from 5(1) show ?case
  proof (cases rule: socket_task_cases)
    case (emit f pc pc')
    from emit(4) show ?thesis by (cases rule: emit_step_cases)
      (use emit(1,2) wrapped_emission [OF emit(3)] 5(3-5) in \<open>auto simp del: task_holds.simps split: if_splits\<close>)
  qed (use 5(3-5) in \<open>auto simp: quiet_step_def\<close>)
qed

fun rest_socket ::
  "(bytes \<Rightarrow> ustr) \<Rightarrow> network \<Rightarrow> socket_task \<Rightarrow> eio_socket \<Rightarrow> eio_socket \<times> (eio_error + unit)" where
  "rest_socket encode net t s =
     (case task_pc t of
        Some (EmitSend ps) \<Rightarrow> emit_multi_loop encode net ps s
      | Some (EmitReport e) \<Rightarrow> (on_error e s, Inl e)
      | _ \<Rightarrow> (s, Inr ()))"

definition accepted_emission :: "socket_task \<Rightarrow> bool" where
  "accepted_emission t \<longleftrightarrow> (\<exists>pc. t = Emission pc \<and> pc \<noteq> EmitRefused)"

lemma accepted_step:
  assumes "socket_task_step encode net i t sh = Some (t', sh')" and "accepted_emission t"
  obtains pc pc' where "t = Emission pc" "t' = Emission pc'" "pc \<noteq> EmitRefused" "emit_step encode net i pc sh = Some (pc', sh')"
  using assms by (auto simp: accepted_emission_def)

interpretation emission_order:
  serial_tasks "socket_task_step encode net" lock_holder task_before task_holds "\<lambda>t. \<exists>r. t = Emission (EmitDone r)"
    task_ended task_group shared "rest_socket encode net" "emit_multi_loop encode net"
    accepted_emission "\<lambda>sh. connected (shared sh)"
  for encode net
proof (unfold_locales, goal_cases)
  case (1 i t s t' s')
  from 1(1,2) show ?case
  proof (rule accepted_step)
    fix pc pc'
    assume t: "t = Emission pc" "t' = Emission pc'" "pc \<noteq> EmitRefused" and "emit_step encode net i pc s = Some (pc', s')"
    from this(4) show ?thesis by (cases rule: emit_step_cases) (use t 1(3) in \<open>simp_all add: accepted_emission_def\<close>)
  qed
next
  case (2 i t s t' s' r)
  from 2(1,2) show ?case
  proof (rule accepted_step)
    fix pc pc'
    assume t: "t = Emission pc" "t' = Emission pc'" "pc \<noteq> EmitRefused" and "emit_step encode net i pc s = Some (pc', s')"
    from this(4) show ?thesis by (cases rule: emit_step_cases) (use t 2(3-5) in simp_all)
  qed
next
  case (3 i t s t' s')
  from 3(1,2) show ?case
  proof (rule accepted_step)
    fix pc pc'
    assume t: "t = Emission pc" "t' = Emission pc'" "pc \<noteq> EmitRefused" and "emit_step encode net i pc s = Some (pc', s')"
    then show ?thesis
    proof (cases pc)
      case (EmitWait ps)
      with t 3(5) \<open>emit_step encode net i pc s = Some (pc', s')\<close> show ?thesis by (auto split: if_splits)
    qed (use t 3(3-5) \<open>emit_step encode net i pc s = Some (pc', s')\<close> in \<open>auto split: if_splits\<close>)
  qed
next
  case (4 i t s t' s')
  from 4(1,2) show ?case
  proof (rule accepted_step)
    fix pc pc'
    assume t: "t = Emission pc" "t' = Emission pc'" "pc \<noteq> EmitRefused" and "emit_step encode net i pc s = Some (pc', s')"
    from this(4) show ?thesis by (cases rule: emit_step_cases) (use t 4(3-5) in simp_all)
  qed
next
  case (5 i t s t' s')
  from 5(1,2) show ?case
  proof (rule accepted_step)
    fix pc pc'
    assume t: "t = Emission pc" "t' = Emission pc'" "pc \<noteq> EmitRefused" and "emit_step encode net i pc s = Some (pc', s')"
    from this(4) show ?thesis by (cases rule: emit_step_cases) (use t 5(3-5) in simp_all)
  qed
qed

section \<open>Lemmas on runs\<close>

lemma run_task_step:
  "socket_task_step encode net i t sh = Some (t', sh') \<Longrightarrow> run_task encode net i t sh = run_task encode net i t' sh'"
  by (simp add: run_task.simps [of encode net i t])

lemma run_task_end: "socket_task_step encode net i t sh = None \<Longrightarrow> run_task encode net i t sh = (t, sh)"
  by (simp add: run_task.simps)

lemma wrapped_step:
  assumes "f = Emission \<or> f = DisconnectEmit \<or> f = IncomingEmit" and "emit_step encode net i pc sh = Some (pc', sh')"
  shows "run_task encode net i (f pc) sh = run_task encode net i (f pc') sh'"
proof (rule run_task_step)
  show "socket_task_step encode net i (f pc) sh = Some (f pc', sh')"
    using assms by (cases pc) auto
qed

lemma run_wrapped_send:
  assumes "f = Emission \<or> f = DisconnectEmit \<or> f = IncomingEmit"
  shows "run_task encode net i (f (EmitSend ps)) sh =
    (let (s, r) = emit_multi_loop encode net ps (shared sh) in
     run_task encode net i (f (EmitDone r)) (sh\<lparr>shared := s, lock_holder := None\<rparr>))"
proof (induction ps arbitrary: sh)
  case Nil
  then show ?case using wrapped_step [OF assms, of encode net i "EmitSend []" sh] by simp
next
  case (Cons p ps)
  obtain out r where t: "transport_emit encode net (transport (shared sh)) (wire_out (shared sh)) (packet_data encode p) = (out, r)"
    by fastforce
  show ?case
  proof (cases r)
    case (Inl e)
    let ?sh = "sh\<lparr>shared := (shared sh)\<lparr>wire_out := out\<rparr>\<rparr>"
    have "run_task encode net i (f (EmitSend (p # ps))) sh = run_task encode net i (f (EmitReport e)) ?sh"
      using t Inl by (intro wrapped_step [OF assms]) simp
    also have "\<dots> = run_task encode net i (f (EmitDone (Inl e))) ((on_shared (on_error e) ?sh)\<lparr>lock_holder := None\<rparr>)"
      by (intro wrapped_step [OF assms]) simp
    finally show ?thesis using t Inl by (simp add: on_shared_def)
  next
    case (Inr u)
    have "run_task encode net i (f (EmitSend (p # ps))) sh =
        run_task encode net i (f (EmitSend ps)) (sh\<lparr>shared := (shared sh)\<lparr>wire_out := out\<rparr>\<rparr>)"
      using t Inr by (intro wrapped_step [OF assms]) simp
    with Cons.IH t Inr show ?thesis by simp
  qed
qed

lemma lock_free_same: "lock_holder sh = None \<Longrightarrow> sh\<lparr>shared := s, lock_holder := None\<rparr> = sh\<lparr>shared := s\<rparr>"
  by (cases sh) simp

lemma run_wrapped:
  assumes "f = Emission \<or> f = DisconnectEmit \<or> f = IncomingEmit" and "lock_holder sh = None"
  shows "run_task encode net i (f (EmitCheck ps)) sh =
    (let (s, r) = socket_emit_multi encode net ps (shared sh) in run_task encode net i (f (EmitDone r)) (sh\<lparr>shared := s\<rparr>))"
proof (cases "connected (shared sh)")
  case True
  have "run_task encode net i (f (EmitCheck ps)) sh = run_task encode net i (f (EmitWait ps)) sh"
    using True by (intro wrapped_step [OF assms(1)]) simp
  also have "\<dots> = run_task encode net i (f (EmitSend ps)) (sh\<lparr>lock_holder := Some i\<rparr>)"
    using assms(2) by (intro wrapped_step [OF assms(1)]) simp
  finally show ?thesis using True run_wrapped_send [OF assms(1)] assms(2)
    by (simp add: socket_emit_multi_def lock_free_same split: prod.splits)
next
  case False
  have "run_task encode net i (f (EmitCheck ps)) sh = run_task encode net i (f EmitRefused) sh"
    using False by (intro wrapped_step [OF assms(1)]) simp
  also have "\<dots> = run_task encode net i (f (EmitDone (Inl IllegalActionBeforeOpen))) (on_shared (on_error IllegalActionBeforeOpen) sh)"
    by (intro wrapped_step [OF assms(1)]) simp
  finally show ?thesis using False by (simp add: socket_emit_multi_def on_shared_def)
qed

lemma run_disconnect:
  assumes "lock_holder sh = None"
  shows "run_task encode net i DisconnectCheck sh =
    (let (s, r) = socket_disconnect encode net (shared sh) in (DisconnectDone r, sh\<lparr>shared := s\<rparr>))"
proof (cases "connected (shared sh)")
  case True
  let ?e = "send_event (OnClose (socket_sid (shared sh))) (shared sh)"
  have finished: "run_task encode net i (DisconnectEmit (EmitDone r)) sh' =
      (case r of Inl e \<Rightarrow> (DisconnectDone (Inl e), sh')
       | Inr u \<Rightarrow> (DisconnectDone (Inr ()), on_shared (\<lambda>s. s\<lparr>connected := False\<rparr>) sh'))" for r sh'
    by (cases r) (simp_all add: run_task_step run_task_end)
  have check: "run_task encode net i DisconnectCheck sh = run_task encode net i DisconnectReport sh"
    using True by (intro run_task_step) (simp add: is_connected_def)
  obtain s1 r1 where e: "?e = (s1, r1)" by fastforce
  show ?thesis
  proof (cases r1)
    case (Inl e1)
    with e have "run_task encode net i DisconnectReport sh = run_task encode net i (DisconnectDone (Inl e1)) (sh\<lparr>shared := s1\<rparr>)"
      by (intro run_task_step) simp
    with check e Inl True show ?thesis by (simp add: run_task_end socket_disconnect_def is_connected_def)
  next
    case (Inr u)
    with e have "run_task encode net i DisconnectReport sh =
        run_task encode net i (DisconnectEmit (EmitCheck [packet_new Close []])) (sh\<lparr>shared := s1\<rparr>)"
      by (intro run_task_step) simp
    with check e Inr True finished show ?thesis
      by (simp add: run_wrapped assms socket_disconnect_def is_connected_def socket_emit_eq_multi on_shared_def
          split: prod.splits sum.splits)
  qed
next
  case False
  then show ?thesis by (simp add: run_task_step run_task_end is_connected_def socket_disconnect_def)
qed

lemma run_incoming:
  assumes "lock_holder sh = None"
  shows "run_task encode net i (IncomingPonged now p) sh =
    (IncomingDone, sh\<lparr>shared := handle_incoming_packet encode net now p (shared sh)\<rparr>)"
proof -
  let ?sh = "on_shared (handle_packet p) (on_shared (ponged now) sh)"
  have "run_task encode net i (IncomingPonged now p) sh = run_task encode net i (IncomingAct now p) ?sh"
    by (simp add: run_task_step)
  moreover have "run_task encode net i (IncomingAct now p) ?sh = (case_prod (run_task encode net i) (incoming_act now p ?sh))"
    by (cases "incoming_act now p ?sh") (simp add: run_task_step)
  moreover have "run_task encode net i IncomingDone sh' = (IncomingDone, sh')" for sh'
    by (simp add: run_task_end)
  moreover have "run_task encode net i CloseReport sh' =
      (IncomingDone, on_shared (\<lambda>s. (fst (send_event (OnClose (socket_sid s)) s))\<lparr>connected := False\<rparr>) sh')" for sh'
    by (simp add: run_task_step run_task_end on_shared_def)
  moreover have "run_task encode net i (IncomingEmit (EmitDone r)) sh' = (IncomingDone, sh')" for r sh'
    by (simp add: run_task_step run_task_end)
  moreover have "should_pong (pinged now s) = should_pong s" for s by (simp add: pinged_def)
  ultimately show ?thesis using assms
    by (cases "eptype p")
      (simp_all add: incoming_act_def handle_incoming_packet_def Let_def run_wrapped socket_emit_eq_multi handle_close_def
        on_shared_def case_prod_unfold)
qed

lemma poll_task_done: "poll_task encode net True i t sh = run_task encode net i t sh"
proof (induction encode net i t sh rule: run_task.induct)
  case (1 encode net i t sh)
  then show ?case
    by (auto simp: poll_task.simps [of encode net True i t sh] run_task.simps [of encode net i t sh] split: option.splits)
qed

lemma poll_task_step:
  "socket_task_step encode net i t sh = Some (t', sh') \<Longrightarrow> \<not> task_outputs t \<Longrightarrow>
   poll_task encode net d i t sh = poll_task encode net d i t' sh'"
  by (simp add: poll_task.simps [of encode net d i t sh])

lemma poll_task_end:
  "socket_task_step encode net i t sh = None \<or> \<not> d \<and> task_outputs t \<Longrightarrow> poll_task encode net d i t sh = (t, sh)"
  by (auto simp: poll_task.simps [of encode net d i t sh])

lemma shared_poll_free:
  assumes "lock_holder sh = None"
  shows "shared_poll_next encode net True now i sh =
    (let (s, item) = socket_poll_next encode net now (shared sh) in (sh\<lparr>shared := s\<rparr>, Ready item))"
  using assms
  by (simp add: shared_poll_next_def socket_poll_next_def Let_def poll_task_done run_incoming on_shared_def split: list.splits sum.splits)

text \<open>Groups on a network that accepts everything.\<close>

lemma group_wire_reliable:
  assumes "reliable net"
  shows "group_wire encode net ClientPolling ps out = (out @ map (\<lambda>p. Post (bytes_from_packet encode p)) ps, Inr ())"
  by (induction ps arbitrary: out) (simp_all add: reliable_transport_emit [OF assms post_wire])

lemma serial_wire_reliable:
  assumes "reliable net" and "serial (group_wire encode net ClientPolling) gs out = (out', rs)"
  shows "out' = out @ map (\<lambda>p. Post (bytes_from_packet encode p)) (concat gs)"
  using assms(2)
  by (induction gs arbitrary: out rs) (fastforce simp: group_wire_reliable [OF assms(1)] split: prod.splits)+

lemma serial_open:
  assumes "connected s"
  shows "serial (socket_emit_multi encode net) gs s = serial (emit_multi_loop encode net) gs s"
  using assms
proof (induction gs arbitrary: s)
  case (Cons g gs)
  have "connected (fst (emit_multi_loop encode net g s))"
    using emit_multi_loop_frame [OF Cons.prems] Cons.prems by (auto simp: emit_frame_def)
  with Cons show ?case by (simp add: socket_emit_multi_def case_prod_unfold)
qed simp

section \<open>Properties\<close>

text \<open>The tasks at their start.\<close>

definition task_start :: "socket_task \<Rightarrow> bool" where
  "task_start t \<longleftrightarrow> (\<exists>ps now p. t = Emission (EmitCheck ps) \<or> t = DisconnectCheck \<or> t = IncomingPonged now p)"

lemma task_start_outside: "task_start t \<Longrightarrow> \<not> task_holds t \<and> t \<noteq> Emission (EmitDone r)"
  by (auto simp: task_start_def)

text \<open>
  C11: Concurrent use of a polling client keeps groups of packets together. However the steps
  of emissions, of disconnecting and of the handling of received packets interleave on one
  socket, when nobody is sending the receiver has got whole groups one after the other, each
  as its task has put it together and at most once, and every emission that has returned
  success is among them. In particular the attachments of a packet directly follow it.
\<close>

theorem interleaved_delivery:
  assumes "base64 encode decode" and "reliable net"
    and "interleave (socket_task_step encode net) (ts0, sh0) (ts, sh)" and "\<forall>t\<in>set ts0. task_start t"
    and "lock_holder sh0 = None" and "lock_holder sh = None" and "transport (shared sh0) = ClientPolling"
    and "\<forall>t\<in>set ts0. list_all payload_packet (task_group t)"
  shows "\<exists>order ws. distinct order \<and> set order \<subseteq> {..<length ts} \<and>
    (\<forall>i<length ts. ts ! i = Emission (EmitDone (Inr ())) \<longrightarrow> i \<in> set order) \<and>
    wire_out (shared sh) = wire_out (shared sh0) @ ws \<and>
    socket_stream decode (post_receive ws) = map Inr (concat (map (\<lambda>i. task_group (ts0 ! i)) order))"
proof -
  have "\<forall>t\<in>set ts0. \<not> task_holds t \<and> t \<noteq> Emission (EmitDone (Inr ()))"
    using assms(4) task_start_outside by blast
  from wire_order.serialised [OF assms(3) _ assms(7,5) this assms(6)] obtain order rs where
    o: "distinct order" "set order \<subseteq> {..<length ts}" "\<forall>i<length ts. ts ! i = Emission (EmitDone (Inr ())) \<longrightarrow> i \<in> set order"
    "serial (group_wire encode net ClientPolling) (map (\<lambda>i. task_group (ts0 ! i)) order) (wire_out (shared sh0)) =
      (wire_out (shared sh), rs)"
    by (auto simp: list_all_iff)
  let ?ps = "concat (map (\<lambda>i. task_group (ts0 ! i)) order)"
  have "length ts = length ts0" using interleave_length [OF assms(3)] by simp
  then have "list_all payload_packet ?ps" using o(2) assms(8) by (fastforce simp: list_all_iff)
  from base64.post_stream [OF assms(1) this] serial_wire_reliable [OF assms(2) o(4)] o(1-3) show ?thesis by blast
qed

theorem interleaved_delivery_witness:
  "\<exists>(sh :: shared_socket) order ws. wire_out (shared sh) = ws \<and> 0 \<in> set order \<and>
    socket_stream rfc_decode (post_receive ws) = map Inr (concat (map (\<lambda>i. task_group
      ([Emission (EmitCheck [packet_new Message [52], packet_new MessageBinary [1, 30]]), IncomingPonged 5 (packet_new Ping [])] ! i)) order))"
proof -
  let ?net = "\<lambda>(_ :: wire list) (_ :: wire). Inr 200 :: unit + u16"
  let ?sh = "\<lparr>shared = example_socket ClientPolling, lock_holder = None\<rparr>"
  let ?tasks = "[Emission (EmitCheck [packet_new Message [52], packet_new MessageBinary [1, 30]]), IncomingPonged 5 (packet_new Ping [])]"
  have net: "reliable ?net" by (simp add: reliable_def)
  have emit: "transport_emit rfc_encode ?net ClientPolling out (packet_data rfc_encode p) = (out @ [Post (bytes_from_packet rfc_encode p)], Inr ())"
    for out p by (rule reliable_transport_emit [OF net post_wire])
  have "\<exists>sh ts. schedule (socket_task_step rfc_encode ?net) [0, 0, 1, 1, 1, 1, 0, 0, 0, 1, 1, 1]
      (?tasks, ?sh) = Some (ts, sh) \<and> ts = [Emission (EmitDone (Inr ())), IncomingEmit (EmitDone (Inr ()))] \<and> lock_holder sh = None"
    by (simp add: emit on_shared_def incoming_act_def pinged_def ponged_def handle_packet_def)
  then obtain sh ts where run: "interleave (socket_task_step rfc_encode ?net) (?tasks, ?sh) (ts, sh)" "lock_holder sh = None"
    "ts = [Emission (EmitDone (Inr ())), IncomingEmit (EmitDone (Inr ()))]"
    using schedule_interleave by blast
  have start: "\<forall>t\<in>set ?tasks. task_start t" "lock_holder ?sh = None" "transport (shared ?sh) = ClientPolling"
    "\<forall>t\<in>set ?tasks. list_all payload_packet (task_group t)"
    by (auto simp: task_start_def payload_packet_def SEPARATOR_def)
  from interleaved_delivery [OF rfc4648.base64_axioms net run(1) start(1,2) run(2) start(3,4)] obtain order ws where
    "\<forall>i<length ts. ts ! i = Emission (EmitDone (Inr ())) \<longrightarrow> i \<in> set order" "wire_out (shared sh) = wire_out (shared ?sh) @ ws"
    "socket_stream rfc_decode (post_receive ws) = map Inr (concat (map (\<lambda>i. task_group (?tasks ! i)) order))" by blast
  moreover from this(1) run(3) have "0 \<in> set order" by simp
  ultimately show ?thesis by (intro exI [of _ sh] exI [of _ order] exI [of _ ws]) simp
qed

text \<open>
  C15: Concurrent emissions on an open socket behave like emissions one after the other. When
  all tasks are emissions and have returned, the socket, with all it has sent and reported,
  is the one that the emissions leave when they run uninterrupted in some order, and each has
  returned what it returns there, successes and errors.
\<close>

theorem emissions_linearizable:
  assumes "interleave (socket_task_step encode net) (map (\<lambda>ps. Emission (EmitCheck ps)) groups, sh0)
      (map (\<lambda>r. Emission (EmitDone r)) results, sh)"
    and "connected (shared sh0)" and "lock_holder sh0 = None" and "lock_holder sh = None"
  shows "\<exists>order. distinct order \<and> set order = {..<length groups} \<and>
    serial (socket_emit_multi encode net) (map (nth groups) order) (shared sh0) = (shared sh, map (nth results) order)"
proof -
  let ?start = "map (\<lambda>ps. Emission (EmitCheck ps)) groups" and ?final = "map (\<lambda>r. Emission (EmitDone r)) results"
  have len: "length results = length groups" using interleave_length [OF assms(1)] by simp
  have start: "list_all accepted_emission ?start" by (simp add: list_all_iff accepted_emission_def)
  have out: "\<forall>t\<in>set ?start. \<not> task_holds t \<and> (\<nexists>r. t = Emission (EmitDone r))" by simp
  from emission_order.serialised [OF assms(1) start assms(2,3) out assms(4)] obtain order rs where
    o: "distinct order" "set order \<subseteq> {..<length groups}" "\<forall>i<length groups. i \<in> set order"
    "serial (emit_multi_loop encode net) (map (\<lambda>i. task_group (?start ! i)) order) (shared sh0) = (shared sh, rs)"
    "list_all2 (\<lambda>i. task_ended (?final ! i)) order rs"
    using len by auto
  have groups: "map (\<lambda>i. task_group (?start ! i)) order = map (nth groups) order" using o(2) by auto
  have rs: "rs = map (nth results) order"
    using o(5,2) len by (intro nth_equalityI) (auto simp: list_all2_conv_all_nth subset_iff)
  have "serial (emit_multi_loop encode net) (map (nth groups) order) (shared sh0) = (shared sh, map (nth results) order)"
    using o(4) by (simp only: groups rs)
  moreover have "set order = {..<length groups}" using o(2,3) by auto
  ultimately show ?thesis using o(1) serial_open [OF assms(2)] by auto
qed

theorem emissions_linearizable_witness:
  "\<exists>sh' :: shared_socket. \<exists>order. distinct order \<and> set order = {..<2} \<and>
    serial (socket_emit_multi rfc_encode (\<lambda>_ _. Inl ())) (map (nth [[packet_new Pong []], [packet_new Ping [], packet_new Pong []]]) order)
      (example_socket ClientPolling) = (shared sh', map (nth [Inl HttpError, Inl HttpError]) order)"
proof -
  let ?sh = "\<lparr>shared = example_socket ClientPolling, lock_holder = None\<rparr>"
  have fail: "transport_emit rfc_encode (\<lambda>_ _. Inl ()) ClientPolling out (packet_data rfc_encode p) = (out, Inl HttpError)" for out p
    by (simp add: transport_emit_wire post_wire transport_outcome_def)
  have "\<exists>sh'. schedule (socket_task_step rfc_encode (\<lambda>_ _. Inl ())) [0, 1, 1, 1, 1, 0, 0, 0]
      (map (\<lambda>ps. Emission (EmitCheck ps)) [[packet_new Pong []], [packet_new Ping [], packet_new Pong []]], ?sh) =
      Some (map (\<lambda>r. Emission (EmitDone r)) [Inl HttpError, Inl HttpError], sh') \<and> lock_holder sh' = None"
    by (simp add: fail on_shared_def)
  then obtain sh' where "interleave (socket_task_step rfc_encode (\<lambda>_ _. Inl ()))
      (map (\<lambda>ps. Emission (EmitCheck ps)) [[packet_new Pong []], [packet_new Ping [], packet_new Pong []]], ?sh)
      (map (\<lambda>r. Emission (EmitDone r)) [Inl HttpError, Inl HttpError], sh')" "lock_holder sh' = None"
    using schedule_interleave by blast
  from emissions_linearizable [OF this(1) _ _ this(2)] show ?thesis by (intro exI [of _ sh']) (simp add: numeral_2_eq_2)
qed

text \<open>
  The two models of the operations agree: a task that is not interrupted does what the
  operation of \<open>Engine_Socket\<close> does. On a socket whose transport is free and does every output
  at once, emitting, disconnecting, handling a received packet and polling, taken step by step,
  give the same socket and the same result as the operations as a whole.
\<close>

theorem tasks_uninterrupted:
  assumes "lock_holder sh = None"
  shows "run_task encode net i (Emission (EmitCheck ps)) sh =
      (let (s, r) = socket_emit_multi encode net ps (shared sh) in (Emission (EmitDone r), sh\<lparr>shared := s\<rparr>)) \<and>
    run_task encode net i DisconnectCheck sh =
      (let (s, r) = socket_disconnect encode net (shared sh) in (DisconnectDone r, sh\<lparr>shared := s\<rparr>)) \<and>
    run_task encode net i (IncomingPonged now p) sh =
      (IncomingDone, sh\<lparr>shared := handle_incoming_packet encode net now p (shared sh)\<rparr>) \<and>
    shared_poll_next encode net True now i sh =
      (let (s, item) = socket_poll_next encode net now (shared sh) in (sh\<lparr>shared := s\<rparr>, Ready item))"
  using run_wrapped [of Emission, OF _ assms] run_disconnect [OF assms] run_incoming [OF assms] shared_poll_free [OF assms]
  by (simp add: run_task_end)

theorem tasks_uninterrupted_witness:
  "run_task rfc_encode (\<lambda>_ _. Inr 200) 0 DisconnectCheck \<lparr>shared = example_socket Websocket, lock_holder = None\<rparr> =
    (let (s, r) = socket_disconnect rfc_encode (\<lambda>_ _. Inr 200) (example_socket Websocket) in
     (DisconnectDone r, \<lparr>shared = s, lock_holder = None\<rparr>))"
  using tasks_uninterrupted [of "\<lparr>shared = example_socket Websocket, lock_holder = None\<rparr>" rfc_encode "\<lambda>_ _. Inr 200" 0 "[]"]
  by (simp add: case_prod_unfold Let_def)

text \<open>
  C37: A ping that is polled while another task sends is lost, and so is one whose pong is not
  sent at once. The poll of an open socket that answers pings is pending, no pong is sent, and
  the ping has left the stream: no later poll yields it or answers it, although it has been
  reported.
\<close>

theorem busy_poll_loses_ping:
  assumes "generator (shared sh) = Inr (packet_new Ping d) # rest" and "lock_holder sh = Some j \<or> \<not> output_done"
    and "connected (shared sh)" and "should_pong (shared sh)"
  shows "\<exists>s. shared_poll_next encode net output_done now i sh = (sh\<lparr>shared := s\<rparr>, Pending) \<and> generator s = rest \<and>
    wire_out s = wire_out (shared sh) \<and>
    events s = events (shared sh) @ logged (shared sh) [OnPacket (socket_sid (shared sh)) (packet_new Ping d)]"
proof -
  let ?p = "packet_new Ping d" and ?q = "packet_new Pong d" and ?sh = "on_shared (\<lambda>s. s\<lparr>generator := rest\<rparr>) sh"
  let ?sh1 = "on_shared (pinged now) (on_shared (handle_packet ?p) (on_shared (ponged now) ?sh))"
  have "poll_task encode net output_done i (IncomingPonged now ?p) ?sh = poll_task encode net output_done i (IncomingEmit (EmitCheck [?q])) ?sh1"
    using assms(4) by (simp add: poll_task_step incoming_act_def ponged_def handle_packet_def)
  also have "\<dots> = poll_task encode net output_done i (IncomingEmit (EmitWait [?q])) ?sh1"
    using assms(3) by (simp add: poll_task_step pinged_def ponged_def handle_packet_def)
  also have "\<dots> = (if lock_holder sh = None then (IncomingEmit (EmitSend [?q]), ?sh1\<lparr>lock_holder := Some i\<rparr>)
      else (IncomingEmit (EmitWait [?q]), ?sh1))"
    using assms(2) by (auto simp: poll_task_step poll_task_end)
  finally have "shared_poll_next encode net output_done now i sh = (?sh1, Pending)"
    using assms(1) by (auto simp: shared_poll_next_def on_shared_def)
  then show ?thesis
    by (intro exI [of _ "shared ?sh1"]) (simp add: on_shared_def pinged_def ponged_def handle_packet_def logged_def)
qed

theorem busy_poll_loses_ping_witness:
  "\<exists>s. shared_poll_next rfc_encode (\<lambda>_ _. Inr 200) True 9 0
      \<lparr>shared = (example_socket ClientPolling)\<lparr>generator := [Inr (packet_new Ping [])]\<rparr>, lock_holder = Some 1\<rparr> =
      (\<lparr>shared = s, lock_holder = Some 1\<rparr>, Pending) \<and> generator s = [] \<and> wire_out s = []"
  using busy_poll_loses_ping [of "\<lparr>shared = (example_socket ClientPolling)\<lparr>generator := [Inr (packet_new Ping [])]\<rparr>, lock_holder = Some 1\<rparr>"
      "[]" "[]" 1 True rfc_encode "\<lambda>_ _. Inr 200" 9 0]
  by auto

text \<open>
  A packet may follow the close packet. Whenever an open socket is disconnected while an
  emission of a text packet is under way, the steps can fall so that both calls succeed, the
  socket is closed, and the packet is sent after the close packet, although an emission that
  starts on a closed socket sends nothing.
\<close>

theorem packet_after_close:
  assumes "reliable net" and "connected (shared sh)" and "listening (shared sh)" and "lock_holder sh = None" and "text_packet p"
  shows "\<exists>sh' w w'. interleave (socket_task_step encode net) ([Emission (EmitCheck [p]), DisconnectCheck], sh)
      ([Emission (EmitDone (Inr ())), DisconnectDone (Inr ())], sh') \<and> \<not> connected (shared sh') \<and>
    transport_wire encode (transport (shared sh)) (packet_data encode (packet_new Close [])) = Inr w \<and>
    transport_wire encode (transport (shared sh)) (packet_data encode p) = Inr w' \<and>
    wire_out (shared sh') = wire_out (shared sh) @ [w, w']"
proof -
  let ?c = "packet_new Close []" and ?s = "shared sh"
  obtain w where w: "transport_wire encode (transport ?s) (packet_data encode ?c) = Inr w"
    using transport_wire_text [of ?c] by fastforce
  obtain w' where w': "transport_wire encode (transport ?s) (packet_data encode p) = Inr w'"
    using transport_wire_text [OF assms(5)] by blast
  obtain s1 where s1: "send_event (OnClose (socket_sid ?s)) ?s = (s1, Inr ())"
    using assms(3) by (auto simp: send_event_def listening_def split: option.splits)
  with send_event_fields(1,2,9) [of "OnClose (socket_sid ?s)" ?s]
  have kept: "transport s1 = transport ?s" "connected s1 = connected ?s" "wire_out s1 = wire_out ?s" by simp_all
  have emit: "transport_emit encode net (transport ?s) out (packet_data encode ?c) = (out @ [w], Inr ())"
    "transport_emit encode net (transport ?s) out (packet_data encode p) = (out @ [w'], Inr ())" for out
    by (rule reliable_transport_emit [OF assms(1) w] reliable_transport_emit [OF assms(1) w'])+
  have "\<exists>sh'. schedule (socket_task_step encode net) [0, 1, 1, 1, 1, 1, 1, 1, 1, 0, 0, 0]
      ([Emission (EmitCheck [p]), DisconnectCheck], sh) =
      Some ([Emission (EmitDone (Inr ())), DisconnectDone (Inr ())], sh') \<and> \<not> connected (shared sh') \<and>
      wire_out (shared sh') = wire_out ?s @ [w, w']"
    using assms(2,4) s1 kept emit by (simp add: is_connected_def on_shared_def)
  then obtain sh' where "schedule (socket_task_step encode net) [0, 1, 1, 1, 1, 1, 1, 1, 1, 0, 0, 0]
      ([Emission (EmitCheck [p]), DisconnectCheck], sh) =
      Some ([Emission (EmitDone (Inr ())), DisconnectDone (Inr ())], sh')"
    "\<not> connected (shared sh')" "wire_out (shared sh') = wire_out ?s @ [w, w']" by blast
  with w w' schedule_interleave [OF this(1)] show ?thesis by blast
qed

theorem packet_after_close_witness:
  "\<exists>sh' w w'. interleave (socket_task_step rfc_encode (\<lambda>_ _. Inr 200))
      ([Emission (EmitCheck [packet_new Pong []]), DisconnectCheck], \<lparr>shared = example_socket Websocket, lock_holder = None\<rparr>)
      ([Emission (EmitDone (Inr ())), DisconnectDone (Inr ())], sh') \<and>
    wire_out (shared sh') = [w, w']"
  using packet_after_close [of "\<lambda>_ _. Inr 200" "\<lparr>shared = example_socket Websocket, lock_holder = None\<rparr>" "packet_new Pong []" rfc_encode]
  by (auto simp: reliable_def)

section \<open>Closings\<close>

text \<open>The tasks that may still report the closing of the socket, and those that have done so.\<close>

fun may_close :: "socket_task \<Rightarrow> bool" where
  "may_close DisconnectCheck = True"
| "may_close DisconnectReport = True"
| "may_close (IncomingPonged now p) = (eptype p = Close)"
| "may_close (IncomingPacket now p) = (eptype p = Close)"
| "may_close (IncomingAct now p) = (eptype p = Close)"
| "may_close CloseReport = True"
| "may_close t = False"

fun has_closed :: "socket_task \<Rightarrow> bool" where
  "has_closed (DisconnectEmit pc) = True"
| "has_closed DisconnectStore = True"
| "has_closed CloseStore = True"
| "has_closed t = False"

definition closings_left :: "socket_task list \<Rightarrow> nat" where
  "closings_left ts = length (filter may_close ts)"

lemma closings_left_update:
  assumes "i < length ts"
  shows "closings_left (ts[i := t']) + of_bool (may_close (ts ! i)) = closings_left ts + of_bool (may_close t')"
proof -
  have "ts = take i ts @ ts ! i # drop (Suc i) ts" using assms by (simp add: id_take_nth_drop)
  moreover have "ts[i := t'] = take i ts @ t' # drop (Suc i) ts" using assms by (simp add: upd_conv_take_nth_drop)
  ultimately have "filter may_close ts = filter may_close (take i ts) @ filter may_close (ts ! i # drop (Suc i) ts)"
    "filter may_close (ts[i := t']) = filter may_close (take i ts) @ filter may_close (t' # drop (Suc i) ts)"
    by (metis filter_append)+
  then show ?thesis by (simp add: closings_left_def)
qed

lemma report_counts [simp]:
  "closes (on_error e s) = closes s" "listening (on_error e s) = listening s"
  "closes (handle_packet p s) = closes s" "listening (handle_packet p s) = listening s" "connected (handle_packet p s) = connected s"
  "closes (handle_data d s) = closes s" "listening (handle_data d s) = listening s" "connected (handle_data d s) = connected s"
  "closes (pinged now s) = closes s" "listening (pinged now s) = listening s" "connected (pinged now s) = connected s"
  "closes (ponged now s) = closes s" "listening (ponged now s) = listening s" "connected (ponged now s) = connected s"
  by (simp_all add: socket_defs)

lemma counts_wire [simp]: "opens (s\<lparr>wire_out := w\<rparr>) = opens s" "closes (s\<lparr>wire_out := w\<rparr>) = closes s"
  by (simp_all add: opens_def closes_def)

lemma emit_step_closes:
  "emit_step encode net i pc sh = Some (pc', sh') \<Longrightarrow>
   closes (shared sh') = closes (shared sh) \<and> listening (shared sh') = listening (shared sh) \<and> connected (shared sh') = connected (shared sh)"
  by (erule emit_step_cases) auto

definition closing_step :: "socket_task \<Rightarrow> socket_task \<Rightarrow> eio_socket \<Rightarrow> eio_socket \<Rightarrow> bool" where
  "closing_step t t' s s' \<longleftrightarrow>
     listening s' \<and> closes s \<le> closes s' \<and> closes s' + of_bool (may_close t') \<le> closes s + of_bool (may_close t) \<and>
     (has_closed t' \<longrightarrow> has_closed t \<or> closes s < closes s') \<and> (connected s' \<or> \<not> connected s \<or> has_closed t)"

lemma socket_task_closes:
  assumes "socket_task_step encode net i t sh = Some (t', sh')" and "listening (shared sh)"
  shows "closing_step t t' (shared sh) (shared sh')"
proof (cases t)
  case (Emission pc)
  with assms show ?thesis by (auto simp: closing_step_def dest!: emit_step_closes)
next
  case (DisconnectEmit pc)
  show ?thesis
  proof (cases pc)
    case (EmitDone r)
    with DisconnectEmit assms show ?thesis by (cases r) (auto simp: closing_step_def)
  qed (use DisconnectEmit assms in \<open>auto simp: closing_step_def dest!: emit_step_closes split: if_splits\<close>)
next
  case (IncomingEmit pc)
  show ?thesis
  proof (cases pc)
    case (EmitDone r)
    with IncomingEmit assms show ?thesis by (auto simp: closing_step_def)
  qed (use IncomingEmit assms in \<open>auto simp: closing_step_def dest!: emit_step_closes split: if_splits\<close>)
next
  case DisconnectReport
  obtain s1 r where s1: "send_event (OnClose (socket_sid (shared sh))) (shared sh) = (s1, r)" by fastforce
  then have "closes s1 = Suc (closes (shared sh))" "listening s1" "connected s1 = connected (shared sh)"
    using assms(2) send_event_counts(2) [of "OnClose (socket_sid (shared sh))" "shared sh"]
      send_event_events(2) [of "OnClose (socket_sid (shared sh))" "shared sh"]
      send_event_fields(2) [of "OnClose (socket_sid (shared sh))" "shared sh"] by simp_all
  with DisconnectReport assms(1) s1 show ?thesis by (cases r) (auto simp: closing_step_def)
next
  case (IncomingAct now p)
  with assms show ?thesis by (cases "eptype p") (auto simp: closing_step_def incoming_act_def split: if_splits)
qed (use assms in \<open>auto simp: closing_step_def split: if_splits\<close>)

lemma interleave_closes:
  assumes "interleave (socket_task_step encode net) (ts0, sh0) (ts, sh)" and "listening (shared sh0)" and "connected (shared sh0)"
    and "\<forall>t\<in>set ts0. task_start t"
  shows "listening (shared sh) \<and> closes (shared sh0) \<le> closes (shared sh) \<and>
    closes (shared sh) + closings_left ts \<le> closes (shared sh0) + closings_left ts0 \<and>
    (\<not> connected (shared sh) \<or> (\<exists>t\<in>set ts. has_closed t) \<longrightarrow> closes (shared sh0) < closes (shared sh))"
  using assms
proof (induction "(ts0, sh0)" "(ts, sh)" arbitrary: ts sh rule: interleave.induct)
  case interleave_start
  then show ?case by (auto simp: task_start_def)
next
  case (interleave_turn ts sh i t' sh')
  then have IH: "listening (shared sh)" "closes (shared sh0) \<le> closes (shared sh)"
    "closes (shared sh) + closings_left ts \<le> closes (shared sh0) + closings_left ts0"
    "\<not> connected (shared sh) \<or> (\<exists>t\<in>set ts. has_closed t) \<longrightarrow> closes (shared sh0) < closes (shared sh)" by simp_all
  from socket_task_closes [OF interleave_turn.hyps(4) IH(1)] have step: "closing_step (ts ! i) t' (shared sh) (shared sh')" .
  have old: "has_closed (ts ! i) \<Longrightarrow> closes (shared sh0) < closes (shared sh)" using IH(4) interleave_turn.hyps(3) by (metis nth_mem)
  have "\<exists>t\<in>set ts. has_closed t" if "\<exists>t\<in>set (ts[i := t']). has_closed t" "\<not> has_closed t'"
    using that set_update_subset_insert [of ts i t'] by blast
  with step old IH closings_left_update [OF interleave_turn.hyps(3), of t'] show ?case
    unfolding closing_step_def by (intro conjI impI) (linarith | fastforce)+
qed

text \<open>
  C19: How often a closing is reported when calls overlap. However emissions, disconnecting and
  the handling of received packets interleave on an open socket whose events are received, a
  socket that is no longer open has reported its closing at least once, and the closing is
  reported at most as often as there are tasks that disconnect or handle a close packet. More
  than once is possible: on a network that accepts every output, disconnecting while a close packet is being
  handled can succeed with two reports of the one closing.
\<close>

theorem closings_overlap:
  assumes "listening (shared sh0)" and "connected (shared sh0)"
  shows "(\<forall>ts0 ts sh. (\<forall>t\<in>set ts0. task_start t) \<and> interleave (socket_task_step encode net) (ts0, sh0) (ts, sh) \<longrightarrow>
      (\<not> connected (shared sh) \<longrightarrow> closes (shared sh0) < closes (shared sh)) \<and>
      closes (shared sh) \<le> closes (shared sh0) + length (filter (\<lambda>t. t = DisconnectCheck \<or>
        (\<exists>now p. t = IncomingPonged now p \<and> eptype p = Close)) ts0)) \<and>
    (reliable net \<and> lock_holder sh0 = None \<longrightarrow>
      (\<exists>sh. interleave (socket_task_step encode net) ([DisconnectCheck, IncomingPonged now (packet_new Close d)], sh0)
          ([DisconnectDone (Inr ()), IncomingDone], sh) \<and> \<not> connected (shared sh) \<and>
        opens (shared sh) = opens (shared sh0) \<and> closes (shared sh) = closes (shared sh0) + 2))"
proof (intro conjI allI impI)
  fix ts0 ts sh
  assume run: "(\<forall>t\<in>set ts0. task_start t) \<and> interleave (socket_task_step encode net) (ts0, sh0) (ts, sh)"
  then have starts: "filter may_close ts0 = filter (\<lambda>t. t = DisconnectCheck \<or> (\<exists>now p. t = IncomingPonged now p \<and> eptype p = Close)) ts0"
    by (intro filter_cong) (auto simp: task_start_def)
  from interleave_closes [OF _ assms, of encode net ts0 ts sh] run
  show "closes (shared sh) \<le> closes (shared sh0) + length (filter (\<lambda>t. t = DisconnectCheck \<or>
      (\<exists>now p. t = IncomingPonged now p \<and> eptype p = Close)) ts0)"
    "\<not> connected (shared sh) \<Longrightarrow> closes (shared sh0) < closes (shared sh)"
    unfolding starts [symmetric] by (auto simp: closings_left_def)
next
  assume net: "reliable net \<and> lock_holder sh0 = None"
  let ?c = "packet_new Close []" and ?s = "shared sh0"
  obtain w where w: "transport_wire encode (transport ?s) (packet_data encode ?c) = Inr w"
    using transport_wire_text [of ?c] by fastforce
  have emit: "transport_emit encode net (transport ?s) out (packet_data encode ?c) = (out @ [w], Inr ())" for out
    using reliable_transport_emit [OF _ w] net by blast
  let ?s2 = "handle_packet (packet_new Close d) (ponged now ?s)"
  have s2: "transport ?s2 = transport ?s" "connected ?s2" "listening ?s2" "closes ?s2 = closes ?s" "opens ?s2 = opens ?s"
    using assms by (simp_all add: socket_defs)
  obtain s1 where s1: "send_event (OnClose (socket_sid ?s2)) ?s2 = (s1, Inr ())"
    using s2(3) by (auto simp: send_event_def listening_def split: option.splits)
  with s2 send_event_fields(1,2) [of "OnClose (socket_sid ?s2)" ?s2] send_event_counts [of "OnClose (socket_sid ?s2)" ?s2]
    send_event_events(2) [of "OnClose (socket_sid ?s2)" ?s2]
  have kept: "transport s1 = transport ?s" "connected s1" "listening s1" "closes s1 = closes ?s + 1" "opens s1 = opens ?s"
    by simp_all
  have "\<exists>sh. schedule (socket_task_step encode net) [1, 1, 1, 0, 0, 0, 0, 0, 0, 0, 0, 1, 1]
      ([DisconnectCheck, IncomingPonged now (packet_new Close d)], sh0) =
      Some ([DisconnectDone (Inr ()), IncomingDone], sh) \<and> \<not> connected (shared sh) \<and>
      opens (shared sh) = opens ?s \<and> closes (shared sh) = closes ?s + 2"
    using assms net s1 s2 kept emit by (simp add: is_connected_def on_shared_def incoming_act_def)
  then obtain sh where "schedule (socket_task_step encode net) [1, 1, 1, 0, 0, 0, 0, 0, 0, 0, 0, 1, 1]
      ([DisconnectCheck, IncomingPonged now (packet_new Close d)], sh0) = Some ([DisconnectDone (Inr ()), IncomingDone], sh)"
    "\<not> connected (shared sh)" "opens (shared sh) = opens ?s" "closes (shared sh) = closes ?s + 2" by blast
  with schedule_interleave [OF this(1)] show "\<exists>sh. interleave (socket_task_step encode net)
      ([DisconnectCheck, IncomingPonged now (packet_new Close d)], sh0) ([DisconnectDone (Inr ()), IncomingDone], sh) \<and>
      \<not> connected (shared sh) \<and> opens (shared sh) = opens ?s \<and> closes (shared sh) = closes ?s + 2" by blast
qed

theorem closings_overlap_witness:
  "\<exists>sh. interleave (socket_task_step rfc_encode (\<lambda>_ _. Inr 200)) ([DisconnectCheck, IncomingPonged 5 (packet_new Close [])],
      \<lparr>shared = example_socket Websocket, lock_holder = None\<rparr>) ([DisconnectDone (Inr ()), IncomingDone], sh) \<and>
    closes (shared sh) = 2"
proof -
  have "listening (shared \<lparr>shared = example_socket Websocket, lock_holder = None\<rparr>)"
    "connected (shared \<lparr>shared = example_socket Websocket, lock_holder = None\<rparr>)" by simp_all
  from closings_overlap [OF this, of rfc_encode "\<lambda>_ _. Inr 200" 5 "[]"] show ?thesis
    by (auto simp: reliable_def closes_def)
qed

end
