(* ===== verification/Unit_Tests.thy ===== *)
theory Unit_Tests
  imports Sio_Server
begin

text \<open>
  The unit tests of the repository that need no network, run on the model: each test of the
  sources is a definition that evaluates to true when its assertions hold, and is shown to
  pass. The libraries are the executable implementations of base64 and JSON. They check the
  definitions of the other theories against the expectations that the authors of the code
  wrote down, the double encoding of a queued binary included.
\<close>

section \<open>Packets of the engine (\<open>engineio/src/packet.rs\<close>)\<close>

definition is_err :: "'e + 'a \<Rightarrow> bool" where
  "is_err r = (case r of Inl _ \<Rightarrow> True | Inr _ \<Rightarrow> False)"

definition on_ok :: "'e + 'a \<Rightarrow> ('a \<Rightarrow> bool) \<Rightarrow> bool" where
  "on_ok r test = (case r of Inl _ \<Rightarrow> False | Inr x \<Rightarrow> test x)"

definition test_packet_error :: bool where
  "test_packet_error = is_err (packet_try_from rfc_decode [])"

definition test_is_reflexive :: bool where
  "test_is_reflexive =
     (let data = as_bytes (str ''1Hello World'') in
      on_ok (packet_try_from rfc_decode data) (\<lambda>packet.
        eptype packet = Close \<and>
        edata packet = as_bytes (str ''Hello World'') \<and>
        bytes_from_packet rfc_encode packet = data))"

definition test_binary_packet :: bool where
  "test_binary_packet =
     (let data = as_bytes (str ''bSGVsbG8='') in
      on_ok (packet_try_from rfc_decode data) (\<lambda>packet.
        eptype packet = MessageBinary \<and>
        edata packet = as_bytes (str ''Hello'') \<and>
        bytes_from_packet rfc_encode packet = data))"

definition packet_at :: "eio_packet list \<Rightarrow> nat \<Rightarrow> packet_type \<Rightarrow> string \<Rightarrow> bool" where
  "packet_at packets i t text =
     (case payload_index packets i of
        None \<Rightarrow> False
      | Some p \<Rightarrow> eptype p = t \<and> edata p = as_bytes (str text))"

definition test_decode_payload :: bool where
  "test_decode_payload =
     (let data = as_bytes (str ''1Hello'' @ [0x1e] @ str ''1HelloWorld'') in
      on_ok (payload_try_from rfc_decode data) (\<lambda>packets.
        packet_at packets 0 Close ''Hello'' \<and>
        packet_at packets 1 Close ''HelloWorld'' \<and>
        bytes_from_payload rfc_encode packets = Some data))"

definition test_binary_payload :: bool where
  "test_binary_payload =
     (let data = as_bytes (str ''bSGVsbG8='' @ [0x1e] @ str ''bSGVsbG9Xb3JsZA=='' @ [0x1e] @ str ''bSGVsbG8='') in
      on_ok (payload_try_from rfc_decode data) (\<lambda>packets.
        length packets = 3 \<and>
        packet_at packets 0 MessageBinary ''Hello'' \<and>
        packet_at packets 1 MessageBinary ''HelloWorld'' \<and>
        packet_at packets 2 MessageBinary ''Hello'' \<and>
        bytes_from_payload rfc_encode packets = Some data))"

definition test_packet_type_conversion_and_incompl_packet :: bool where
  "test_packet_type_conversion_and_incompl_packet =
     (is_err (packet_try_from rfc_decode (as_bytes (str ''4''))) \<and>
      packet_type_try_from 48 = Inr Open \<and>
      packet_type_try_from 49 = Inr Close \<and>
      packet_type_try_from 50 = Inr Ping \<and>
      packet_type_try_from 51 = Inr Pong \<and>
      packet_type_try_from 52 = Inr Message \<and>
      packet_type_try_from 53 = Inr Upgrade \<and>
      packet_type_try_from 54 = Inr Noop \<and>
      packet_type_try_from 42 = Inl (InvalidPacketType 42))"

definition test_handshake_packet :: bool where
  "test_handshake_packet =
     (is_err (handshake_try_from (handshake_reader parse_json) (packet_new Message (as_bytes (str ''test'')))) \<and>
      (let packet = \<lparr>hs_sid = str ''Test'', hs_upgrades = [str ''websocket'', str ''test''],
                     hs_ping_interval = 10000, hs_ping_timeout = 1000, hs_max_payload = 1000\<rparr>;
           encoded = print_json (handshake_json packet) in
       handshake_try_from (handshake_reader parse_json) (packet_new Message (as_bytes encoded)) = Inr packet))"

definition test_build_polling_payload :: bool where
  "test_build_polling_payload =
     (build_polling_payload rfc_encode [] = None \<and>
      build_polling_payload rfc_encode
        [as_bytes (str ''Hello''), as_bytes (str ''HelloWorld''), as_bytes (str ''bHello'')] =
      Some (str ''Hello'' @ [0x1e] @ str ''HelloWorld'' @ [0x1e] @ str ''YkhlbGxv''))"

lemmas engine_eval = is_err_def on_ok_def packet_at_def Let_def payload_index_def packet_new_def
  rfc_decode_def rfc_encode_def b64_val_def b64_char_def as_bytes_def utf8_char_def dec.simps
  packet_try_from_def packet_type_try_from_def bytes_from_packet_def packet_type_to_string_def
  payload_try_from_eq bytes_from_payload_def SEPARATOR_def

lemma packet_tests: test_packet_error test_is_reflexive test_binary_packet
  by (simp_all add: test_packet_error_def test_is_reflexive_def test_binary_packet_def engine_eval)

lemma payload_tests: test_decode_payload test_binary_payload
  by (simp_all add: test_decode_payload_def test_binary_payload_def engine_eval)

lemma packet_type_tests: test_packet_type_conversion_and_incompl_packet
  by (simp add: test_packet_type_conversion_and_incompl_packet_def engine_eval)

lemma handshake_tests: test_handshake_packet
proof -
  have no_literal: "parse_json (str ''test'') = None"
    by (simp add: parse_json_def parse_literal_def eval_nat_numeral)
  have "handshake_reader parse_json (as_bytes (str ''test'')) = None"
    using no_literal from_utf8_as_bytes [of "str ''test''"]
    by (simp add: handshake_reader_def scalar_def)
  moreover have "wf_str (str ''Test'')" "list_all wf_str [str ''websocket'', str ''test'']"
    by (simp_all add: scalar_def)
  ultimately show ?thesis
    by (simp add: test_handshake_packet_def Let_def is_err_def handshake_try_from_def packet_new_def
        compact.handshake_reader_inverse del: str_simps)
qed

lemma polling_payload_tests: test_build_polling_payload
  by (simp add: test_build_polling_payload_def build_polling_payload_def engine_eval from_utf8_def utf8_decode.simps utf8_step.simps)

section \<open>Packets of Socket.IO (\<open>socketio/src/packet.rs\<close>)\<close>

definition decodes_to :: "ustr \<Rightarrow> sio_packet \<Rightarrow> bool" where
  "decodes_to payload packet \<longleftrightarrow> sio_packet_try_from parse_json (as_bytes payload) = Inr packet"

definition encodes_to :: "sio_packet \<Rightarrow> string \<Rightarrow> bool" where
  "encodes_to packet payload \<longleftrightarrow> bytes_from_sio_packet print_json packet = as_bytes (str payload)"

text \<open>The JSON documents of the tests; the character \<open>0x2122\<close> is the trade mark sign.\<close>

definition json_pair :: "ustr \<Rightarrow> string \<Rightarrow> json" where
  "json_pair k v = JObject [(k, JString (str v))]"

definition json_placeholder :: "u64 \<Rightarrow> json" where
  "json_placeholder n = JObject [(str ''_placeholder'', JBool True), (str ''num'', JNumber (PosInt n))]"

definition test_decode :: bool where
  "test_decode \<longleftrightarrow>
     decodes_to (str ''0{\"token\":\"123\"}'')
       (sio_packet_new Connect (str ''/'') (Some (json_pair (str ''token'') ''123'')) None 0 None) \<and>
     (let utf8_data = json_pair (str ''token'' @ [0x2122]) ''123'';
          utf8_payload = str ''0/admin'' @ [0x2122] @ str '','' @ print_json utf8_data in
      decodes_to utf8_payload
        (sio_packet_new Connect (str ''/admin'' @ [0x2122]) (Some utf8_data) None 0 None)) \<and>
     decodes_to (str ''1/admin,'') (sio_packet_new Disconnect (str ''/admin'') None None 0 None) \<and>
     decodes_to (str ''2[\"hello\",1]'')
       (sio_packet_new Event (str ''/'') (Some (JArray [JString (str ''hello''), JNumber (PosInt 1)])) None 0 None) \<and>
     decodes_to (str ''2/admin,456[\"project:delete\",123]'')
       (sio_packet_new Event (str ''/admin'')
         (Some (JArray [JString (str ''project:delete''), JNumber (PosInt 123)])) (Some 456) 0 None) \<and>
     decodes_to (str ''3/admin,456[]'') (sio_packet_new Ack (str ''/admin'') None (Some 456) 0 None) \<and>
     decodes_to (str ''4/admin,{\"message\":\"Not authorized\"}'')
       (sio_packet_new ConnectError (str ''/admin'')
         (Some (json_pair (str ''message'') ''Not authorized'')) None 0 None) \<and>
     decodes_to (str ''51-[\"hello\",{\"_placeholder\":true,\"num\":0}]'')
       (sio_packet_new BinaryEvent (str ''/'')
         (Some (JArray [JString (str ''hello''), json_placeholder 0])) None 1 None) \<and>
     decodes_to (str ''51-/admin,456[\"project:delete\",{\"_placeholder\":true,\"num\":0}]'')
       (sio_packet_new BinaryEvent (str ''/admin'')
         (Some (JArray [JString (str ''project:delete''), json_placeholder 0])) (Some 456) 1 None) \<and>
     decodes_to (str ''61-/admin,456[{\"_placeholder\":true,\"num\":0}]'')
       (sio_packet_new BinaryAck (str ''/admin'') (Some (JArray [json_placeholder 0])) (Some 456) 1 None)"

definition test_encode :: bool where
  "test_encode \<longleftrightarrow>
     encodes_to (sio_packet_new Connect (str ''/'') (Some (json_pair (str ''token'') ''123'')) None 0 None)
       ''0{\"token\":\"123\"}'' \<and>
     encodes_to (sio_packet_new Connect (str ''/admin'') (Some (json_pair (str ''token'') ''123'')) None 0 None)
       ''0/admin,{\"token\":\"123\"}'' \<and>
     encodes_to (sio_packet_new Disconnect (str ''/admin'') None None 0 None) ''1/admin,'' \<and>
     encodes_to
       (sio_packet_new Event (str ''/'') (Some (JArray [JString (str ''hello''), JNumber (PosInt 1)])) None 0 None)
       ''2[\"hello\",1]'' \<and>
     encodes_to
       (sio_packet_new Event (str ''/admin'')
         (Some (JArray [JString (str ''project:delete''), JNumber (PosInt 123)])) (Some 456) 0 None)
       ''2/admin,456[\"project:delete\",123]'' \<and>
     encodes_to (sio_packet_new Ack (str ''/admin'') (Some (JArray [])) (Some 456) 0 None) ''3/admin,456[]'' \<and>
     encodes_to
       (sio_packet_new ConnectError (str ''/admin'')
         (Some (json_pair (str ''message'') ''Not authorized'')) None 0 None)
       ''4/admin,{\"message\":\"Not authorized\"}'' \<and>
     encodes_to
       (sio_packet_new BinaryEvent (str ''/'')
         (Some (JArray [JString (str ''hello''), json_placeholder 0])) None 1 (Some [[1, 2, 3]]))
       ''51-[\"hello\",{\"_placeholder\":true,\"num\":0}]'' \<and>
     encodes_to
       (sio_packet_new BinaryEvent (str ''/admin'')
         (Some (JArray [JString (str ''project:delete''), json_placeholder 0])) (Some 456) 1 (Some [[1, 2, 3]]))
       ''51-/admin,456[\"project:delete\",{\"_placeholder\":true,\"num\":0}]'' \<and>
     encodes_to
       (sio_packet_new BinaryAck (str ''/admin'')
         (Some (JArray [json_placeholder 0])) (Some 456) 1 (Some [[3, 2, 1]]))
       ''61-/admin,456[{\"_placeholder\":true,\"num\":0}]'' \<and>
     encodes_to
       (sio_packet_new BinaryEvent (str ''/admin'')
         (Some (JArray [JString (str ''project:delete''), json_placeholder 0, json_placeholder 1]))
         (Some 456) 2 (Some [[3, 2, 1], [4]]))
       ''52-/admin,456[\"project:delete\",{\"_placeholder\":true,\"num\":0},{\"_placeholder\":true,\"num\":1}]''"

definition test_illegal_packet_id :: bool where
  "test_illegal_packet_id \<longleftrightarrow> sio_packet_type_from_u8 42 = Inl (SInvalidPacketType 42)"

lemmas sio_eval = sio_packet_new_def json_pair_def json_placeholder_def Let_def

lemmas encode_eval = encodes_to_def bytes_from_sio_packet_def sio_packet_head_def has_attachment_count_def
  print_string_def escape_char_def as_bytes_def utf8_char_def dec.simps sio_eval

lemma encode_tests: test_encode
  unfolding test_encode_def by (intro conjI; simp add: encode_eval)

lemma packet_id_tests: test_illegal_packet_id
  by (simp add: test_illegal_packet_id_def sio_packet_type_from_u8_def sio_packet_type_from_char_def)

text \<open>The rules of the JSON reader for a numeral as its bound.\<close>

lemmas parse_numeral =
  parse_value.simps(1) [of "pred_numeral k" for k, folded numeral_eq_Suc]
  parse_elements.simps(1) [of "pred_numeral k" for k, folded numeral_eq_Suc]
  parse_members.simps(1) [of "pred_numeral k" for k, folded numeral_eq_Suc]

lemmas decode_eval = decodes_to_def sio_packet_try_from_def sio_packet_type_from_char_def
  has_attachment_count_def sio_packet_default_def read_namespace_def read_id_def read_data_def
  parse_json_def parse_literal_def parse_number_def is_ascii_digit_def parse_u8_def parse_usize_def
  parse_uint_def parse_numeral scalar_def sio_eval

lemma decode_tests: test_decode
  unfolding test_decode_def Let_def
  by (intro conjI; simp add: decode_eval print_string_def escape_char_def del: as_bytes_simps)

section \<open>The other tests\<close>

text \<open>
  A polling transport of the server (\<open>engineio/src/transports/polling.rs\<close>): what is put into
  its receiving queue is its next item, what is emitted arrives in the other queue.
\<close>

definition test_server_polling_transport :: bool where
  "test_server_polling_transport \<longleftrightarrow>
     (let data = as_bytes (str ''1Hello'' @ [0x1e] @ str ''1HelloWorld'') in
      server_polling_next [data] = (Some (Inr data), []) \<and>
      server_polling_emit rfc_encode (\<lambda>out w. Inr 200) [] (Text data) = ([Queue data], Inr ()))"

text \<open>Payloads from documents and bytes (\<open>socketio/src/payload.rs\<close>).\<close>

definition test_from :: bool where
  "test_from \<longleftrightarrow>
     payload_from_value (JString (str ''foo '' @ [0x2122])) = PJson (JString (str ''foo '' @ [0x2122])) \<and>
     payload_from_bytes [1, 2, 3] = PBinary [1, 2, 3] \<and>
     payload_from_value (JNumber (PosInt 5)) = PJson (JNumber (PosInt 5)) \<and>
     payload_from_value (JString (str ''5'')) = PJson (JString (str ''5''))"

text \<open>The session ids of a fresh server (\<open>socketio/src/server/server.rs\<close>).\<close>

definition test_sid_generator :: bool where
  "test_sid_generator \<longleftrightarrow>
     (case sb_build (sio_server_builder_new 80) of
        None \<Rightarrow> False
      | Some srv \<Rightarrow>
          let engine_sid = str ''engine_sid''; (sid, srv) = sio_sid_generate rfc_encode engine_sid srv in
          sio_sid_decode rfc_decode sid = Some engine_sid)"

lemma other_tests: test_server_polling_transport test_from
  by (simp_all add: test_server_polling_transport_def server_polling_emit_def polling_body_def Let_def
      test_from_def payload_from_value_def payload_from_bytes_def)

lemma sid_generator_tests: test_sid_generator
proof -
  have "wf_str (str ''engine_sid'')" "45 \<notin> set (str ''engine_sid'')" by (simp_all add: scalar_def)
  from rfc4648.sio_sid_roundtrip [OF this] show ?thesis
    by (simp add: test_sid_generator_def sb_build_def builder_build_def sio_server_builder_new_def
        server_builder_new_def sio_sid_generate_def Let_def del: str_simps)
qed

end
