(* ===== verification/Spec2Isabelle.thy ===== *)
theory Spec2Isabelle
  imports Sio_Programs Sio_Locks Engine_Tasks Unit_Tests
begin

text \<open>
  \<^bold>\<open>Engine.IO and Socket.IO in Rust.\<close>

  The repository holds two crates. \<open>engineio\<close> carries packets over HTTP long polling or a
  websocket, as a client and as a server; \<open>socketio\<close> multiplexes events with JSON and binary
  arguments, acknowledgements, namespaces and rooms over it. A Socket.IO client builds an
  Engine.IO socket, opens it and sends a connect packet for its namespace; a Socket.IO server
  listens to the events of an Engine.IO server, waits for this packet in every new session,
  registers a client, answers with a session id and polls the client's socket in a task.

  \<^bold>\<open>How the code is modelled.\<close> Structs are records, enums are datatypes, functions that
  mutate state behind locks return the new state, \<open>Result\<close> is a sum with the error on the
  left, and a panic is \<open>None\<close> or a constructor of the result. Machine integers are words:
  \<open>u8\<close>, \<open>u16\<close>, \<open>u64\<close>, and \<open>usize\<close> of 64 bits, so that counters and casts wrap around as in
  the code. Strings are lists of Unicode scalar values with UTF-8 written out. What is not in
  the repository is an argument: base64, JSON, the HTTP, URL and websocket libraries, the
  network, clocks, and the order in which hash tables are iterated. What the proofs need of
  base64 and JSON are the locales \<open>base64\<close> and \<open>serde_json\<close>; both are interpreted by
  executable implementations of the formats, on which the examples run. A JSON document is
  read back with the members of its objects sorted by their keys, and only up to the nesting
  at which the crate gives up.

  \<^bold>\<open>The theories and the files they model.\<close>
  \<^item> \<open>Prelude\<close>, \<open>Rust_Std\<close>: types, results, loops over sums, decimal numbers, UTF-8, strings;
    the locale \<open>graded_invariant\<close> for components that hand out numbered ids.
  \<^item> \<open>Base64\<close>, \<open>Json\<close>: the two library interfaces and their implementations.
  \<^item> \<open>Engine_Packet\<close> (\<open>engineio/src/packet.rs\<close>, \<open>error.rs\<close>): packets, payloads, polling bodies;
    round trips, the equivalence of the index loop with splitting at the separator.
  \<^item> \<open>Engine_Transport\<close> (\<open>engineio/src/transports\<close>): what a transport sends and yields, the
    client's side of an upgrade.
  \<^item> \<open>Engine_Socket\<close> (\<open>engineio/src/socket/socket.rs\<close>): the socket with its log of events;
    delivery over each transport (locale \<open>text_channel\<close>, three sublocales of \<open>base64\<close>),
    closings balanced with openings as long as the calls on a socket do not overlap, failures
    of closing.
  \<^item> \<open>Tasks\<close>: interleavings of tasks on a shared state; the locale \<open>serial_tasks\<close>, by which what
    tasks do under a lock has an order; a machine of locks with progress when they are taken
    in a fixed order, and one with the threads that run the tasks. \<open>Engine_Tasks\<close>: the operations of an Engine.IO socket as interruptible
    tasks (both interpretations of \<open>serial_tasks\<close>); concurrent emissions behave like some
    sequence of emissions, groups of packets stay together, an uninterrupted task is the
    operation of \<open>Engine_Socket\<close>; how often a closing is reported when calls overlap, and the
    packets that a busy poll and a race with closing lose or misplace.
  \<^item> \<open>Engine_Client\<close> (\<open>engineio/src/socket/builder.rs\<close>, \<open>header.rs\<close>): the handshake and the
    ways to build a socket; which of them panic for which addresses, the fallback to polling.
  \<^item> \<open>Engine_Server\<close> (\<open>engineio/src/server/server.rs\<close>, \<open>builder.rs\<close>): sessions and the ping
    loop, which goes on, has ended, or waits for room in the queue of its session.
  \<^item> \<open>Engine_Http\<close> (\<open>engineio/src/server/http.rs\<close>): requests and responses, the polling and
    websocket handlers, the loop that accepts connections; fresh session ids over all runs,
    delivery in a polling session, the bounds of request bodies, pings that a full queue stops.
    \<open>Engine_Sessions\<close>: how the server reads the requests of a client, posts that arrive over
    connections and become items of a session's stream as long as each request is within the
    thousand bytes that the server reads, and the upgrade of a polling session, which hands it over to the websocket without what is pending.
  \<^item> \<open>Sio_Packet\<close> (\<open>socketio/src/packet.rs\<close>, \<open>error.rs\<close>), \<open>Sio_Payload\<close> (\<open>event.rs\<close>, \<open>payload.rs\<close>
    and the coding of payloads in \<open>socket.rs\<close>): round trips of packets and of payloads with
    binaries, the errors of decoding, the wrap-around of the attachment count.
  \<^item> \<open>Sio_Socket\<close> (\<open>socketio/src/socket.rs\<close>, \<open>ack.rs\<close>): the socket; delivery of events and
    acknowledgements, at most one call per acknowledgement over all runs, what a poll yields.
    \<open>Sio_Locks\<close>: the locks that calls, callbacks and the polling task take. Were waiting for
    a lock only to put a task aside and every output to finish, the tasks would all come to
    their end unless the callback of an acknowledgement emits with an acknowledgement; but the
    guard under which a callback runs blocks its thread, so that callbacks of one event can
    stop the whole runtime.
  \<^item> \<open>Sio_Server\<close> (\<open>socketio/src/server\<close>): rooms (locale \<open>room_registry\<close>, interpreted by the
    nested maps of the code), clients, emission. \<open>Sio_Sessions\<close>: the states a built server
    reaches, the invariant of its registry, emission to rooms in these states.
  \<^item> \<open>Sio_Client\<close> (\<open>socketio/src/client\<close>): the builder, reconnection with the waits that
    the backoff gives, the polling task; with a limit below the greatest \<open>usize\<close> reconnection
    ends, but it also brings back a client that has been disconnected, and an old client
    retries without a pause; which namespaces a packet is read back with.
  \<^item> \<open>Sio_Callbacks\<close> (\<open>socketio/src/callback.rs\<close> and the calls of callbacks in \<open>socket.rs\<close>):
    callbacks with a body, a list of calls on the handle they get; turns of a polling task
    with the callbacks they start. \<open>Sio_Programs\<close> (\<open>socketio/examples\<close>, the servers and some of
    the clients in the tests of \<open>server/server.rs\<close> and \<open>client/client.rs\<close>): the programs of the
    repository as tables of callbacks and lists of calls; whole exchanges over polling, from
    a client's call over the callback of the server to the callback of the client.
  \<^item> \<open>Unit_Tests\<close>: the unit tests of the repository that need no network, which pass on the model.
  \<^item> This theory: agreement between the two sides, that is, the requests of the client and
    their classification by the server, the handshake, the way of an event from an emission
    to a room through the polling response to the callback of the client, on which an event
    with binaries is lost, the way of an event from a client through posts to the server, and
    an acknowledgement there and back.

  \<^bold>\<open>Loops, fuel and bounds.\<close> Loops over received data are recursive functions with a
  termination proof: the items a stream still yields are a list, which every step of a poll
  shortens, and its end is the end of the stream. Only reconnection may run forever and has
  fuel; \<open>m + 2\<close> turns are proved to be enough for a limit of \<open>m\<close> attempts below the greatest
  \<open>usize\<close>, and for the greatest no number of turns is while attempts fail. The invariants on
  ids hold for runs of up to \<open>2 ^ 64\<close> operations, after which the counters repeat.

  \<^bold>\<open>Not modelled.\<close> Reading from and writing to streams in pieces; the scheduling of tasks
  except for the tasks on one Engine.IO socket, step by step, and for the locks of one
  Socket.IO socket: in the theories of the servers and clients each task runs without
  interruption, and spawned tasks run one after the other in an order given as an argument.
  The exchange of the transport by an upgrade is not among the interruptible tasks. Only the
  ping loop waits for the capacity of a queue; every other emission is modelled as it is when
  it has found room. A clone of a socket that outlives its session in the server does not keep
  the sender of its queue alive. Further how the backoff computes its waits; logging and \<open>Debug\<close>; state
  that a user's callback keeps between its calls (its calls are recorded with their arguments,
  \<open>Sio_Locks\<close> has callbacks as the locks they take and \<open>Sio_Callbacks\<close> as the calls they make,
  which are carried out without interruption); the clients of the tests that only record in
  flags that they have been called; \<open>engineio/src/generator.rs\<close>, which only wraps a stream,
  in the model the list of its items.
\<close>

section \<open>The client's requests and the server's classification\<close>



text \<open>
  C16: The handshake over polling agrees. A client that gets the body with which the server
  answers an opening request, and that reads the members of the document in it into the fields
  of their names, takes from it exactly the session id that the server has made, and the
  intervals, the limit and the upgrade that the server advertises, and uses the session id in
  its next requests.
\<close>

theorem handshake_agreement:
  assumes "base64 (ce_encode env) (ce_decode env)" and "serde_json to_string from_str"
    and "ce_from_slice env = handshake_reader from_str" and "b_handshake b = None"
    and "sid = fst (sid_generate (ce_encode env) srv)"
  shows "handshake_with_transport env (Some (Inr (as_bytes (handshake_body (ce_encode env) to_string sid srv)))) b =
    Inr (b\<lparr>b_handshake := Some \<lparr>hs_sid = sid, hs_upgrades = [str ''websocket''],
        hs_ping_interval = ping_interval (srv_option srv), hs_ping_timeout = ping_timeout (srv_option srv),
        hs_max_payload = max_payload_option (srv_option srv)\<rparr>,
      b_url := append_pair (str ''sid'') sid (b_url b)\<rparr>)"
proof -
  let ?hs = "\<lparr>hs_sid = sid, hs_upgrades = [str ''websocket''], hs_ping_interval = ping_interval (srv_option srv),
      hs_ping_timeout = ping_timeout (srv_option srv), hs_max_payload = max_payload_option (srv_option srv)\<rparr>"
  have "handshake_body (ce_encode env) to_string sid srv = 48 # to_string (handshake_json ?hs)"
    by (simp add: handshake_body_def server_handshake_packet_def dec.simps)
  then have open_packet: "packet_try_from (ce_decode env) (as_bytes (handshake_body (ce_encode env) to_string sid srv)) =
      Inr (packet_new Open (as_bytes (to_string (handshake_json ?hs))))"
    by (simp add: codec_simps packet_new_def)
  have "wf_str sid" using base64.eio_sid_plain [OF assms(1)] assms(5) by (simp add: sid_generate_def Let_def)
  then have "handshake_reader from_str (as_bytes (to_string (handshake_json ?hs))) = Some ?hs"
    by (intro serde_json.handshake_reader_inverse [OF assms(2)]) (simp_all add: scalar_def)
  with open_packet assms(3,4) show ?thesis
    by (simp add: handshake_with_transport_def handshake_try_from_def packet_new_def)
qed

theorem handshake_agreement_witness:
  "let srv = the (builder_build (server_builder_new 80)); sid = fst (sid_generate rfc_encode srv);
       env = example_client_env\<lparr>ce_from_slice := handshake_reader parse_json\<rparr>;
       b = socket_builder_new example_url
   in \<exists>hs. handshake_with_transport env (Some (Inr (as_bytes (handshake_body rfc_encode print_json sid srv)))) b =
     Inr (b\<lparr>b_handshake := Some hs, b_url := append_pair (str ''sid'') sid (b_url b)\<rparr>) \<and> hs_sid hs = sid"
proof -
  let ?srv = "the (builder_build (server_builder_new 80))" and ?b = "socket_builder_new example_url"
  let ?env = "example_client_env\<lparr>ce_from_slice := handshake_reader parse_json\<rparr>"
  have env: "base64 (ce_encode ?env) (ce_decode ?env)" "ce_encode ?env = rfc_encode" "ce_from_slice ?env = handshake_reader parse_json"
    using rfc4648.base64_axioms by (simp_all add: example_client_env_def)
  have fresh: "b_handshake ?b = None" by (simp add: socket_builder_new_def Let_def)
  from handshake_agreement [OF env(1) compact.serde_json_axioms env(3) fresh refl, of ?srv]
  show ?thesis unfolding Let_def env(2) by (metis handshake_packet.select_convs(1))
qed

section \<open>From a room to a callback\<close>

text \<open>
  C1: An event that a server emits to rooms is handled by the addressed client. In every
  state that a built server reaches, after the emission of an event without binaries the
  next polling request of an addressed client that has nothing else pending is answered with
  a body, nothing stays pending, and whichever client socket of the namespace with a
  callback for the event receives this body starts this callback once, with the same parts
  of the payload.
\<close>

theorem room_message_arrives:
  assumes "lawful env" and "serde_json (env_to_string (se_env env)) (env_from_str (se_env env))" and "srv_reach env srv"
    and "client (se_decode env) sid ns srv = Some sk" and "sio_sid_decode (se_decode env) sid = Some esid"
    and "sk_connected sk" and "polling_session esid [] (engine_server srv)" and "sid \<in> sids_to_emit ns names srv"
    and "wf_nsp ns" and "0x1e \<notin> set ns" and "proper_payload d" and "raw_binaries (payload_raws d) = []"
    and "proper_event e" and "wf_str (string_from_event e)"
  shows "\<exists>es body. polling_handle_request (env_encode (se_env env)) (se_decode env) to_string net now (Some (Some (PollingGet esid)))
      (engine_server (emit_to (se_env env) (se_decode env) (se_order env) ns names e d srv)) = (es, HttpResponse 200 (Some body)) \<and>
    polling_session esid [] es \<and>
    (\<forall>rk later. generator (engine rk) = socket_stream (se_decode env) (client_polling_stream [Inr [Inr (as_bytes body)]]) \<and>
        \<not> ended rk \<and> sk_nsp rk = ns \<and> e \<in> on rk \<longrightarrow>
      (\<exists>rk' q. sio_poll_packet (se_env env) later rk = (rk', RawItem (Inr q)) \<and>
        calls rk' = calls rk @ [EventCall e (Some (payload_of_raws (payload_raws d))) None]))"
proof -
  have "polling_session esid (event_messages (se_env env) ns e d)
      (engine_server (emit_to (se_env env) (se_decode env) (se_order env) ns names e d srv))"
    using emission_reaches [OF assms(1,3-7), of names e d] assms(8) by simp
  moreover have "base64 (env_encode (se_env env)) (se_decode env)" using assms(1) by (simp add: lawful_def)
  ultimately show ?thesis using pending_event_polled [OF _ assms(2,9-14)] by blast
qed

theorem room_message_arrives_witness:
  "\<exists>es body. polling_handle_request rfc_encode rfc_decode print_json (\<lambda>_ _. Inr 200) 0 (Some (Some (PollingGet example_esid)))
      (engine_server (emit_to example_env rfc_decode sorted_list_of_set (str ''/'') [str ''r''] EvMessage (PJson JNull) example_run)) =
    (es, HttpResponse 200 (Some body)) \<and> polling_session example_esid [] es"
proof -
  have env: "se_env example_srv_env = example_env" "se_decode example_srv_env = rfc_decode"
    "se_order example_srv_env = sorted_list_of_set" "env_encode example_env = rfc_encode"
    by (simp_all add: example_srv_env_def example_env_def)
  obtain sk where sk: "client (se_decode example_srv_env) example_sid (str ''/'') example_run = Some sk" "sk_connected sk"
    using example_run_facts(1) env by auto
  have json: "serde_json (env_to_string (se_env example_srv_env)) (env_from_str (se_env example_srv_env))"
    using example_env_laws(2) env by simp
  have payload: "wf_nsp (str ''/'')" "0x1e \<notin> set (str ''/'')" "proper_payload (PJson JNull)" "raw_binaries (payload_raws (PJson JNull)) = []"
    "proper_event EvMessage" "wf_str (string_from_event EvMessage)"
    by (simp_all add: proper_payload_def scalar_def)
  from room_message_arrives [OF example_lawful json example_reach sk(1) example_sid_decode [folded env(2)] sk(2)
      example_run_facts(2,3) payload, of print_json "\<lambda>_ _. Inr 200" 0] show ?thesis
    unfolding env by blast
qed

text \<open>
  C38: An event with binaries that a server emits to rooms is lost on polling, and what was
  pending before it is lost with it. In every state that a built server reaches, after the
  emission of such an event the next polling request of an addressed client is answered with
  a body and nothing stays pending; whichever client socket receives this body starts no
  callback but that of errors, neither for the event nor for the messages before it: its poll
  returns an error of the engine, a packet of type Y (byte 89), and its stream has ended.
\<close>

theorem binary_event_spoils_response:
  assumes "lawful env" and "serde_json (env_to_string (se_env env)) (env_from_str (se_env env))" and "srv_reach env srv"
    and "client (se_decode env) sid ns srv = Some sk" and "sio_sid_decode (se_decode env) sid = Some esid"
    and "sk_connected sk" and "polling_session esid (map (bytes_from_packet (env_encode (se_env env))) ts) (engine_server srv)"
    and "list_all text_packet ts" and "sid \<in> sids_to_emit ns names srv"
    and "wf_nsp ns" and "0x1e \<notin> set ns" and "proper_payload d" and "raw_binaries (payload_raws d) \<noteq> []"
    and "wf_str (string_from_event e)"
  shows "\<exists>es body. polling_handle_request (env_encode (se_env env)) (se_decode env) to_string net now (Some (Some (PollingGet esid)))
      (engine_server (emit_to (se_env env) (se_decode env) (se_order env) ns names e d srv)) = (es, HttpResponse 200 (Some body)) \<and>
    polling_session esid [] es \<and>
    (\<forall>rk later. generator (engine rk) = socket_stream (se_decode env) (client_polling_stream [Inr [Inr (as_bytes body)]]) \<and>
        \<not> ended rk \<longrightarrow>
      (\<exists>rk'. sio_poll_packet (se_env env) later rk =
          (rk', RawItem (Inl (SIncompleteResponseFromEngineIo (InvalidPacketType 89)))) \<and>
        calls rk' = calls rk @ (if EvError \<in> on rk
          then [EventCall EvError (Some (PJson (JString (env_error_text (se_env env)
            (SIncompleteResponseFromEngineIo (InvalidPacketType 89)))))) None] else []) \<and> ended rk'))"
proof -
  let ?env = "se_env env" and ?p = "build_packet_for_payload d (Some e) ns None False"
  have b64: "base64 (env_encode ?env) (se_decode env)" using assms(1) by (simp add: lawful_def)
  have name: "case Some e of Some ev \<Rightarrow> wf_str (string_from_event ev) | None \<Rightarrow> True" using assms(14) by simp
  have "polling_session esid (map (bytes_from_packet (env_encode ?env)) (ts @ engine_packets (env_to_string ?env) ?p))
      (engine_server (emit_to ?env (se_decode env) (se_order env) ns names e d srv))"
    using emission_reaches [OF assms(1,3-7), of names e d] assms(9) by (simp add: event_messages_def)
  from pending_binaries_refused [OF b64 assms(2,10-13) name assms(8) this] refused_body_polled show ?thesis by metis
qed

theorem binary_event_spoils_response_witness:
  "\<exists>es body. polling_handle_request rfc_encode rfc_decode print_json (\<lambda>_ _. Inr 200) 0 (Some (Some (PollingGet example_esid)))
      (engine_server (emit_to example_env rfc_decode sorted_list_of_set (str ''/'') [str ''r''] EvMessage (PBinary [1, 2, 3]) example_run)) =
    (es, HttpResponse 200 (Some body)) \<and> polling_session example_esid [] es"
proof -
  have env: "se_env example_srv_env = example_env" "se_decode example_srv_env = rfc_decode"
    "se_order example_srv_env = sorted_list_of_set" "env_encode example_env = rfc_encode"
    by (simp_all add: example_srv_env_def example_env_def)
  obtain sk where sk: "client (se_decode example_srv_env) example_sid (str ''/'') example_run = Some sk" "sk_connected sk"
    using example_run_facts(1) env by auto
  have session: "polling_session example_esid (map (bytes_from_packet (env_encode (se_env example_srv_env))) []) (engine_server example_run)"
    using example_run_facts(2) by simp
  have payload: "wf_nsp (str ''/'')" "0x1e \<notin> set (str ''/'')" "proper_payload (PBinary [1, 2, 3])"
    "raw_binaries (payload_raws (PBinary [1, 2, 3])) \<noteq> []" "wf_str (string_from_event EvMessage)"
    by (simp_all add: proper_payload_def scalar_def)
  have json: "serde_json (env_to_string (se_env example_srv_env)) (env_from_str (se_env example_srv_env))"
    using example_env_laws(2) env by simp
  have "list_all text_packet []" by simp
  from binary_event_spoils_response [OF example_lawful json example_reach sk(1) example_sid_decode [folded env(2)] sk(2)
      session this example_run_facts(3) payload, of print_json "\<lambda>_ _. Inr 200" 0] show ?thesis
    unfolding env by blast
qed

section \<open>From a client to the server's queue\<close>

text \<open>
  C2: An event that a client emits is handled by the server. On a network that accepts every
  output, a connected client on polling emits an event with a payload of documents and
  binaries: the call succeeds. When each of the posts, head and body together, is within the
  thousand bytes that the server reads, and the server accepts their connections, each is
  answered with success and its body is queued for the session. Whichever socket of the
  namespace with a callback for the event reads this queue starts this callback once, with the
  same event and the parts of the payload in order (a single part comes unwrapped).
\<close>

theorem client_event_reaches_server:
  assumes "base64 (env_encode env) decode" and "serde_json (env_to_string env) (env_from_str env)"
    and "reliable (env_net env)" and "sk_connected sk" and "connected (engine sk)"
    and "transport (engine sk) = ClientPolling" and "wf_nsp (sk_nsp sk)" and "0x1e \<notin> set (sk_nsp sk)"
    and "proper_payload d" and "proper_event e" and "wf_str (string_from_event e)"
    and "polling_handles es esid = Some h" and "posted h = []"
    and "posts_understood he addr u esid request" and "query u = []"
    and "posts_fit request (sent_by (engine sk) (engine (fst (sio_emit env e d sk))))"
  shows "\<exists>ws es' h'. sio_emit env e d sk = (sk\<lparr>engine := (engine sk)\<lparr>wire_out := wire_out (engine sk) @ ws\<rparr>\<rparr>, Inr ()) \<and>
    handle_posts he now addr request ws es = (es', replicate (length (posted_bodies ws)) (post_ok he)) \<and>
    polling_handles es' esid = Some h' \<and> posted h' = posted_bodies ws \<and> pending h' = pending h \<and>
    (\<forall>later rk. generator (engine rk) = socket_stream decode (server_polling_stream (posted h')) \<and>
        \<not> ended rk \<and> sk_nsp rk = sk_nsp sk \<and> e \<in> on rk \<longrightarrow>
      (\<exists>rk' q. sio_poll_packet env later rk = (rk', RawItem (Inr q)) \<and>
        calls rk' = calls rk @ [EventCall e (Some (payload_of_raws (payload_raws d))) None]))"
proof -
  obtain ws where ws: "sio_emit env e d sk = (sk\<lparr>engine := (engine sk)\<lparr>wire_out := wire_out (engine sk) @ ws\<rparr>\<rparr>, Inr ())"
    "\<And>later rk. posts_received decode ws rk \<Longrightarrow> sk_nsp rk = sk_nsp sk \<Longrightarrow> e \<in> on rk \<Longrightarrow>
      \<exists>rk' q. sio_poll_packet env later rk = (rk', RawItem (Inr q)) \<and>
        calls rk' = calls rk @ [EventCall e (Some (payload_of_raws (payload_raws d))) None]"
    using event_delivery [OF assms(1-11)] by blast
  have fit: "posts_fit request ws" using assms(16) ws(1) by (simp add: sent_by_def)
  let ?h' = "h\<lparr>posted := posted h @ posted_bodies ws\<rparr>"
  obtain es' where posts: "handle_posts he now addr request ws es = (es', replicate (length (posted_bodies ws)) (post_ok he))"
    "polling_handles es' esid = Some ?h'"
    using handle_posts_queue [OF assms(14,15) fit assms(12), of now] by blast
  have "posts_received decode ws rk"
    if "generator (engine rk) = socket_stream decode (server_polling_stream (posted ?h'))" "\<not> ended rk" for rk
    using that assms(13) by (simp add: posts_received_def post_receive_def posted_bodies_def)
  with ws posts assms(13) show ?thesis
    by (intro exI [of _ ws] exI [of _ es'] exI [of _ ?h']) simp
qed

theorem client_event_reaches_server_witness:
  "\<exists>ws es' h'. handle_posts (example_post_env example_url example_esid) 0 (str ''h'') example_post ws (engine_server example_server) =
      (es', replicate (length (posted_bodies ws)) (post_ok (example_post_env example_url example_esid))) \<and>
    polling_handles es' example_esid = Some h' \<and>
    (\<forall>later rk. generator (engine rk) = socket_stream rfc_decode (server_polling_stream (posted h')) \<and>
        \<not> ended rk \<and> sk_nsp rk = str ''/'' \<and> EvMessage \<in> on rk \<longrightarrow>
      (\<exists>rk' q. sio_poll_packet example_env later rk = (rk', RawItem (Inr q)) \<and>
        calls rk' = calls rk @ [EventCall EvMessage (Some (payload_of_raws (payload_raws (PMulti [RJson JNull, RBinary [1, 2]])))) None]))"
proof -
  have handle: "polling_handles (engine_server example_server) example_esid = Some \<lparr>posted = [], pending = []\<rparr>"
    by (simp add: example_server_def)
  have payload: "proper_payload (PMulti [RJson JNull, RBinary [1, 2]])" "proper_event EvMessage" "wf_str (string_from_event EvMessage)"
    by (simp_all add: proper_payload_def scalar_def)
  have client: "sk_connected (example_sio {})" "connected (engine (example_sio {}))"
    "transport (engine (example_sio {})) = ClientPolling" "wf_nsp (sk_nsp (example_sio {}))"
    "0x1e \<notin> set (sk_nsp (example_sio {}))"
    by simp_all
  have "posted \<lparr>posted = [], pending = []\<rparr> = []" by simp
  from client_event_reaches_server [OF example_env_laws client payload handle this example_posts(1,2,6), of 0]
  show ?thesis unfolding example_sio_simps by blast
qed

section \<open>Acknowledgements there and back\<close>

text \<open>
  C18: An event that asks for an acknowledgement is answered. The server's end of a polling
  session emits an event without binaries and waits for its acknowledgement: the socket that
  reads the polling response starts the callback of the event with the id to acknowledge,
  and when a client acknowledges this id over posts, the next poll of the server's end that
  reads them within the time limit calls the callback of the acknowledgement once, with the
  parts of the answer in order; it is then no longer waited for, while all others still are.
\<close>

theorem ack_round_trip:
  assumes "base64 (env_encode env) decode" and "serde_json (env_to_string env) (env_from_str env)" and "reliable (env_net env)"
    and "sk_connected sk" and "connected (engine sk)" and "transport (engine sk) = ServerPolling" and "\<not> ended sk"
    and "wf_nsp (sk_nsp sk)" and "0x1e \<notin> set (sk_nsp sk)" and "ack_id_gen sk \<notin> ack_id ` set (outstanding_acks sk)"
    and "proper_payload d" and "raw_binaries (payload_raws d) = []" and "proper_event e" and "wf_str (string_from_event e)"
    and "sk_connected ck" and "connected (engine ck)" and "transport (engine ck) = ClientPolling"
    and "sk_nsp ck = sk_nsp sk" and "proper_payload answer" and "t2 - now < timeout"
  shows "\<exists>sk1 ws. sio_emit_with_ack env now e d timeout sk = (sk1, Inr ()) \<and>
    wire_out (engine sk1) = wire_out (engine sk) @ ws \<and>
    (\<forall>t1 rk. generator (engine rk) = socket_stream decode (queue_receive (env_encode env) ws) \<and> \<not> ended rk \<and>
        sk_nsp rk = sk_nsp sk \<and> e \<in> on rk \<longrightarrow>
      (\<exists>rk' q. sio_poll_packet env t1 rk = (rk', RawItem (Inr q)) \<and>
        calls rk' = calls rk @ [EventCall e (Some (payload_of_raws (payload_raws d))) (Some (ack_id_gen sk))])) \<and>
    (\<exists>ck' ws' sk2 q. sio_ack env (ack_id_gen sk) answer ck = (ck', Inr ()) \<and> wire_out (engine ck') = wire_out (engine ck) @ ws' \<and>
      sio_poll_packet env t2 (sk1\<lparr>engine := (engine sk1)\<lparr>generator := socket_stream decode (post_receive ws')\<rparr>\<rparr>) = (sk2, RawItem (Inr q)) \<and>
      outstanding_acks sk2 = outstanding_acks sk \<and>
      calls sk2 = calls sk @ [AckCall (ack_id_gen sk) (Some (payload_of_raws (payload_raws answer)))])"
proof -
  let ?i = "ack_id_gen sk" and ?ns = "sk_nsp sk" and ?enc = "env_encode env" and ?s = "engine sk"
  let ?p = "build_packet_for_payload d (Some e) ?ns (Some ?i) False"
  let ?a = "\<lparr>ack_id = ?i, ack_timeout = timeout, time_started = now\<rparr>"
  obtain m where m: "engine_packets (env_to_string env) ?p = [m]" "list_all text_packet [m]" "eptype m = Message"
    "edata m = bytes_from_sio_packet (env_to_string env) ?p"
    using text_event_packet [OF assms(2,8,9,11,12,14)] by auto
  obtain ws where ws: "socket_emit_multi ?enc (env_net env) [m] ?s = (?s\<lparr>wire_out := wire_out ?s @ ws\<rparr>, Inr ())"
    "socket_stream decode (queue_receive ?enc ws) = [Inr m]"
    using base64.socket_text_delivery [OF assms(1,3,5) _ m(2)] assms(6) by auto
  let ?sk1 = "sk\<lparr>ack_id_gen := ?i + 1, outstanding_acks := outstanding_acks sk @ [?a],
    engine := ?s\<lparr>wire_out := wire_out ?s @ ws\<rparr>\<rparr>"
  have emit: "sio_emit_with_ack env now e d timeout sk = (?sk1, Inr ())"
    using assms(4,5) ws(1) m(1)
    by (simp add: sio_emit_with_ack_def ack_id_generate_def with_engine_def raw_send_packets lift_engine_def Let_def)
  obtain ws' where answer: "sio_ack env ?i answer ck = (ck\<lparr>engine := (engine ck)\<lparr>wire_out := wire_out (engine ck) @ ws'\<rparr>\<rparr>, Inr ())"
    "\<And>t rk pre a post. posts_received decode ws' rk \<Longrightarrow> sk_nsp rk = ?ns \<Longrightarrow> outstanding_acks rk = pre @ a # post \<Longrightarrow>
      ack_id a = ?i \<Longrightarrow> ?i \<notin> ack_id ` set (pre @ post) \<Longrightarrow> t - time_started a < ack_timeout a \<Longrightarrow>
      \<exists>rk' q. sio_poll_packet env t rk = (rk', RawItem (Inr q)) \<and> outstanding_acks rk' = pre @ post \<and>
        calls rk' = calls rk @ [AckCall ?i (Some (payload_of_raws (payload_raws answer)))]"
    using ack_delivery [OF assms(1-3,15-17) _ _ assms(19), of ?i] assms(8,9,18) by auto
  let ?rk = "?sk1\<lparr>engine := (engine ?sk1)\<lparr>generator := socket_stream decode (post_receive ws')\<rparr>\<rparr>"
  have "posts_received decode ws' ?rk" using assms(7) by (simp add: posts_received_def)
  from answer(2) [OF this, where pre = "outstanding_acks sk" and a = ?a and post = "[]" and t = t2] assms(10,20)
  obtain sk2 q where poll: "sio_poll_packet env t2 ?rk = (sk2, RawItem (Inr q))" "outstanding_acks sk2 = outstanding_acks sk"
    "calls sk2 = calls sk @ [AckCall ?i (Some (payload_of_raws (payload_raws answer)))]"
    by auto
  let ?ck' = "ck\<lparr>engine := (engine ck)\<lparr>wire_out := wire_out (engine ck) @ ws'\<rparr>\<rparr>"
  have reply: "sio_ack env ?i answer ck = (?ck', Inr ()) \<and> wire_out (engine ?ck') = wire_out (engine ck) @ ws' \<and>
      sio_poll_packet env t2 ?rk = (sk2, RawItem (Inr q)) \<and> outstanding_acks sk2 = outstanding_acks sk \<and>
      calls sk2 = calls sk @ [AckCall ?i (Some (payload_of_raws (payload_raws answer)))]"
    using answer(1) poll by simp
  show ?thesis
  proof (rule exI [of _ ?sk1], rule exI [of _ ws], intro conjI)
    show "sio_emit_with_ack env now e d timeout sk = (?sk1, Inr ())" by (rule emit)
    show "\<exists>ck' ws' sk2 q. sio_ack env ?i answer ck = (ck', Inr ()) \<and> wire_out (engine ck') = wire_out (engine ck) @ ws' \<and>
      sio_poll_packet env t2 (?sk1\<lparr>engine := (engine ?sk1)\<lparr>generator := socket_stream decode (post_receive ws')\<rparr>\<rparr>) = (sk2, RawItem (Inr q)) \<and>
      outstanding_acks sk2 = outstanding_acks sk \<and> calls sk2 = calls sk @ [AckCall ?i (Some (payload_of_raws (payload_raws answer)))]"
      using reply by blast
  qed (use text_event_polled [OF assms(2,8,11-14) m(3,4)] ws(2) in simp_all)
qed

theorem ack_round_trip_witness:
  "let sk = sio_socket_new (example_socket ServerPolling) True (str ''/'') {} in
   \<exists>sk1 ws'. sio_emit_with_ack example_env 3 EvMessage (PJson JNull) 10 sk = (sk1, Inr ()) \<and>
     (\<exists>sk2 q. sio_poll_packet example_env 9
         (sk1\<lparr>engine := (engine sk1)\<lparr>generator := socket_stream rfc_decode (post_receive ws')\<rparr>\<rparr>) = (sk2, RawItem (Inr q)) \<and>
       calls sk2 = [AckCall 0 (Some (PBinary [7]))])"
proof -
  let ?sk = "sio_socket_new (example_socket ServerPolling) True (str ''/'') {}"
  have sk: "sk_connected ?sk" "connected (engine ?sk)" "transport (engine ?sk) = ServerPolling" "\<not> ended ?sk"
    "wf_nsp (sk_nsp ?sk)" "0x1e \<notin> set (sk_nsp ?sk)" "ack_id_gen ?sk \<notin> ack_id ` set (outstanding_acks ?sk)"
    by (simp_all add: sio_socket_new_def)
  have payload: "proper_payload (PJson JNull)" "raw_binaries (payload_raws (PJson JNull)) = []" "proper_event EvMessage"
    "wf_str (string_from_event EvMessage)"
    by (simp_all add: proper_payload_def scalar_def)
  have ck: "sk_connected (example_sio {})" "connected (engine (example_sio {}))" "transport (engine (example_sio {})) = ClientPolling"
    "sk_nsp (example_sio {}) = sk_nsp ?sk" "proper_payload (PBinary [7])" "9 - 3 < (10 :: nat)"
    by (simp_all add: proper_payload_def sio_socket_new_def)
  have "ack_id_gen ?sk = 0" "calls ?sk = []" by (simp_all add: sio_socket_new_def)
  with ack_round_trip [OF example_env_laws sk payload ck] show ?thesis unfolding Let_def by fastforce
qed

end
